(* ===== verification/Prelude.thy ===== *)
theory Prelude
  imports Complex_Main "HOL-Library.Word"
begin

text \<open>
  Shared vocabulary of the development.

  \<^item> A Go string or byte slice is a \<open>bytes\<close>, a list of 8-bit characters.
  \<^item> A Go \<open>error\<close> result is a \<open>gerr\<close>: \<open>nil\<close>, or \<open>Err m\<close> where \<open>m\<close> is the text that
    the \<open>Error\<close> method returns.  A function that returns a value and an error is a
    value of type \<open>'a res\<close>: \<open>Inl m\<close> is the error, \<open>Inr v\<close> the value.
  \<^item> \<open>seq_err\<close> is the idiom \<open>if err := f(); err != nil { return err }\<close>.

  The collection \<open>err_simps\<close> gathers the equations that say when a checked call
  returns \<open>nil\<close>; component proofs unfold guards with it.
\<close>

named_theorems err_simps "when a checked call returns nil or a value"

type_synonym bytes = string
type_synonym gerr = "bytes option"
type_synonym 'a res = "bytes + 'a"

abbreviation (input) nil :: gerr where "nil \<equiv> None"

abbreviation (input) Err :: "bytes \<Rightarrow> gerr" where "Err m \<equiv> Some m"

definition seq_err :: "gerr \<Rightarrow> gerr \<Rightarrow> gerr" where
  "seq_err e k = (case e of None \<Rightarrow> k | Some m \<Rightarrow> Some m)"

lemma seq_err_simps [simp]:
  "seq_err None k = k"
  "seq_err (Some m) k = Some m"
  "seq_err e None = e"
  by (auto simp: seq_err_def split: option.split)

lemma seq_err_nil [simp, err_simps]: "seq_err e k = None \<longleftrightarrow> e = None \<and> k = None"
  by (auto simp: seq_err_def split: option.split)

lemma seq_err_Some: "seq_err e k = Some m \<longleftrightarrow> e = Some m \<or> (e = None \<and> k = Some m)"
  by (auto simp: seq_err_def split: option.split)

lemma seq_err_assoc: "seq_err (seq_err a b) c = seq_err a (seq_err b c)"
  by (auto simp: seq_err_def split: option.split)

definition rbind :: "'a res \<Rightarrow> ('a \<Rightarrow> 'b res) \<Rightarrow> 'b res" where
  "rbind r k = (case r of Inl m \<Rightarrow> Inl m | Inr v \<Rightarrow> k v)"

lemma rbind_simps [simp]:
  "rbind (Inl m) k = Inl m"
  "rbind (Inr v) k = k v"
  by (simp_all add: rbind_def)

lemma rbind_Inr [err_simps]: "rbind r k = Inr v \<longleftrightarrow> (\<exists>u. r = Inr u \<and> k u = Inr v)"
  by (cases r) auto

definition err_of :: "'a res \<Rightarrow> gerr" where
  "err_of r = (case r of Inl m \<Rightarrow> Some m | Inr _ \<Rightarrow> None)"

lemma err_of_simps [simp]:
  "err_of (Inl m) = Some m"
  "err_of (Inr v) = None"
  by (simp_all add: err_of_def)

lemma err_of_nil [err_simps]: "err_of r = None \<longleftrightarrow> (\<exists>v. r = Inr v)"
  by (cases r) auto

subsection \<open>Bytes as characters\<close>

text \<open>The numeric value of a character; characters are exactly the bytes 0 to 255.\<close>

abbreviation byte :: "char \<Rightarrow> nat" where "byte c \<equiv> of_char c"

lemma byte_less [simp]: "byte c < 256"
  by (metis of_char_mod_256 mod_less_divisor zero_less_numeral)

lemma byte_inject [simp]: "byte c = byte d \<longleftrightarrow> c = d"
  by (rule of_char_eq_iff)

lemma byte_char_of [simp]: "n < 256 \<Longrightarrow> byte (char_of n) = n"
  by (simp add: of_char_of)

subsection \<open>Lists\<close>

lemma append_eq_same_length:
  "length a = length b \<Longrightarrow> a @ x = b @ y \<longleftrightarrow> a = b \<and> x = y"
  by simp

lemma takeWhile_append_stop:
  "(\<And>x. x \<in> set xs \<Longrightarrow> P x) \<Longrightarrow> \<not> P y \<Longrightarrow> takeWhile P (xs @ y # ys) = xs"
  by (simp add: takeWhile_append)

text \<open>
  Two texts that end in a separator which neither field contains are equal only when
  the fields are: the argument behind every delimiter-joined payload.
\<close>

lemma split_at_sep:
  assumes "a @ c # x = b @ c # y" and "c \<notin> set a" and "c \<notin> set b"
  shows "a = b \<and> x = y"
proof -
  from assms have "takeWhile (\<lambda>z. z \<noteq> c) (a @ c # x) = a"
    by (intro takeWhile_append_stop) auto
  moreover from assms have "takeWhile (\<lambda>z. z \<noteq> c) (b @ c # y) = b"
    by (intro takeWhile_append_stop) auto
  ultimately have "a = b" using assms(1) by simp
  with assms(1) show ?thesis by simp
qed

text \<open>Keeping the last \<open>n\<close> elements, as a slice \<open>xs[len(xs)-n:]\<close> does.\<close>

definition last_n :: "nat \<Rightarrow> 'a list \<Rightarrow> 'a list" where
  "last_n n xs = drop (length xs - n) xs"

lemma length_last_n [simp]: "length (last_n n xs) = min n (length xs)"
  by (auto simp: last_n_def)

lemma set_last_n: "set (last_n n xs) \<subseteq> set xs"
  by (simp add: last_n_def set_drop_subset)

lemma last_n_all [simp]: "length xs \<le> n \<Longrightarrow> last_n n xs = xs"
  by (simp add: last_n_def)

lemma last_n_snoc: "0 < n \<Longrightarrow> last_n n (last_n n xs @ [x]) = last_n n (xs @ [x])"
proof -
  assume n: "0 < n"
  show ?thesis
  proof (cases "length xs \<le> n")
    case True
    then show ?thesis by simp
  next
    case False
    with n have "drop (Suc 0) (drop (length xs - n) xs) = drop (Suc (length xs) - n) xs"
      by (simp add: Suc_diff_le)
    with False n show ?thesis by (simp add: last_n_def min_def)
  qed
qed

end
