(* ===== verification/GoStrings.thy ===== *)
theory GoStrings
  imports Prelude
begin

text \<open>
  The parts of Go's \<open>strings\<close>, \<open>strconv\<close> and \<open>encoding/hex\<close> packages that the bridge uses,
  on byte strings: trimming of Unicode white space, prefixes, substring search, splitting,
  decimal integers and hexadecimal text, with the round-trip and injectivity laws that the
  authentication code relies on.
\<close>

subsection \<open>Searching and cutting\<close>

definition HasPrefix :: "bytes \<Rightarrow> bytes \<Rightarrow> bool" where
  "HasPrefix s p = (take (length p) s = p)"

definition HasSuffix :: "bytes \<Rightarrow> bytes \<Rightarrow> bool" where
  "HasSuffix s p = HasPrefix (rev s) (rev p)"

definition TrimPrefix :: "bytes \<Rightarrow> bytes \<Rightarrow> bytes" where
  "TrimPrefix s p = (if HasPrefix s p then drop (length p) s else s)"

definition TrimSuffix :: "bytes \<Rightarrow> bytes \<Rightarrow> bytes" where
  "TrimSuffix s p = (if HasSuffix s p then take (length s - length p) s else s)"

fun Contains :: "bytes \<Rightarrow> bytes \<Rightarrow> bool" where
  "Contains [] p = (p = [])"
| "Contains (c # s) p = (HasPrefix (c # s) p \<or> Contains s p)"

text \<open>\<open>strings.Split\<close> for a one-byte separator: always at least one part.\<close>

fun Split :: "bytes \<Rightarrow> char \<Rightarrow> bytes list" where
  "Split [] sep = [[]]"
| "Split (c # s) sep =
     (if c = sep then [] # Split s sep
      else (case Split s sep of [] \<Rightarrow> [[c]] | p # ps \<Rightarrow> (c # p) # ps))"

fun Join :: "bytes list \<Rightarrow> bytes \<Rightarrow> bytes" where
  "Join [] sep = []"
| "Join [p] sep = p"
| "Join (p # ps) sep = p @ sep @ Join ps sep"

definition ReplaceByte :: "bytes \<Rightarrow> char \<Rightarrow> char \<Rightarrow> bytes" where
  "ReplaceByte s old new = map (\<lambda>c. if c = old then new else c) s"

lemma HasPrefix_append [simp]: "HasPrefix (p @ s) p"
  by (simp add: HasPrefix_def)

lemma TrimPrefix_append [simp]: "TrimPrefix (p @ s) p = s"
  by (simp add: TrimPrefix_def)

lemma Split_not_Nil [simp]: "Split s sep \<noteq> []"
  by (induction s sep rule: Split.induct) (auto split: list.splits)

lemma Join_Split: "Join (Split s sep) [sep] = s"
proof (induction s sep rule: Split.induct)
  case (1 sep)
  then show ?case by simp
next
  case (2 c s sep)
  obtain p ps where sp: "Split s sep = p # ps"
    by (cases "Split s sep") auto
  have tail: "Join ((c # p) # ps) [sep] = c # Join (p # ps) [sep]"
    by (cases ps) auto
  show ?case
  proof (cases "c = sep")
    case True
    with 2 sp show ?thesis by simp
  next
    case False
    with 2 sp tail show ?thesis by simp
  qed
qed

lemma Split_no_sep: "p \<in> set (Split s sep) \<Longrightarrow> sep \<notin> set p"
proof (induction s sep arbitrary: p rule: Split.induct)
  case (1 sep)
  then show ?case by simp
next
  case (2 c s sep)
  then show ?case by (cases "Split s sep") (auto split: if_splits)
qed

lemma Split_append:
  "sep \<notin> set a \<Longrightarrow> Split (a @ sep # s) sep = a # Split s sep"
  by (induction a) auto

lemma Split_single: "sep \<notin> set a \<Longrightarrow> Split a sep = [a]"
  by (induction a) auto

lemma Split_Join:
  "cs \<noteq> [] \<Longrightarrow> (\<forall>c \<in> set cs. sep \<notin> set c) \<Longrightarrow> Split (Join cs [sep]) sep = cs"
proof (induction cs)
  case Nil
  then show ?case by simp
next
  case (Cons c cs)
  then show ?case
    by (cases cs) (auto simp: Split_single Split_append)
qed

subsection \<open>White space\<close>

text \<open>
  \<open>strings.TrimSpace\<close> removes leading and trailing Unicode white space.  \<open>lead_space s\<close> is the
  number of bytes of a white-space rune at the head of \<open>s\<close>, or 0.  The multi-byte cases are
  the UTF-8 encodings of U+0085, U+00A0, U+1680, U+2000 to U+200A, U+2028, U+2029, U+202F,
  U+205F and U+3000.
\<close>

definition ascii_space :: "char \<Rightarrow> bool" where
  "ascii_space c = (byte c = 32 \<or> (9 \<le> byte c \<and> byte c \<le> 13))"

definition space2 :: "nat \<Rightarrow> nat \<Rightarrow> bool" where
  "space2 a b = (a = 0xC2 \<and> (b = 0x85 \<or> b = 0xA0))"

definition space3 :: "nat \<Rightarrow> nat \<Rightarrow> nat \<Rightarrow> bool" where
  "space3 a b c =
     ((a = 0xE1 \<and> b = 0x9A \<and> c = 0x80) \<or>
      (a = 0xE2 \<and> b = 0x80 \<and> ((0x80 \<le> c \<and> c \<le> 0x8A) \<or> c = 0xA8 \<or> c = 0xA9 \<or> c = 0xAF)) \<or>
      (a = 0xE2 \<and> b = 0x81 \<and> c = 0x9F) \<or>
      (a = 0xE3 \<and> b = 0x80 \<and> c = 0x80))"

fun lead_space :: "bytes \<Rightarrow> nat" where
  "lead_space [] = 0"
| "lead_space (a # s) =
     (if ascii_space a then 1
      else if byte a < 128 then 0
      else (case s of
        [] \<Rightarrow> 0
      | b # t \<Rightarrow>
          (if space2 (byte a) (byte b) then 2
           else (case t of [] \<Rightarrow> 0 | c # _ \<Rightarrow> if space3 (byte a) (byte b) (byte c) then 3 else 0))))"

text \<open>The same for a reversed string: the white-space rune that ends it.\<close>

fun trail_space :: "bytes \<Rightarrow> nat" where
  "trail_space [] = 0"
| "trail_space (a # s) =
     (if ascii_space a then 1
      else if byte a < 128 then 0
      else (case s of
        [] \<Rightarrow> 0
      | b # t \<Rightarrow>
          (if space2 (byte b) (byte a) then 2
           else (case t of [] \<Rightarrow> 0 | c # _ \<Rightarrow> if space3 (byte c) (byte b) (byte a) then 3 else 0))))"

function trim_with :: "(bytes \<Rightarrow> nat) \<Rightarrow> bytes \<Rightarrow> bytes" where
  "trim_with f s = (if f s = 0 \<or> s = [] then s else trim_with f (drop (f s) s))"
  by pat_completeness auto
termination
  by (relation "measure (\<lambda>(f, s). length s)") auto

declare trim_with.simps [simp del]

definition TrimSpace :: "bytes \<Rightarrow> bytes" where
  "TrimSpace s = rev (trim_with trail_space (rev (trim_with lead_space s)))"

lemma trim_with_stop: "f s = 0 \<Longrightarrow> trim_with f s = s"
  by (simp add: trim_with.simps)

lemma trim_with_Nil [simp]: "trim_with f [] = []"
  by (simp add: trim_with.simps)

lemma length_trim_with: "length (trim_with f s) \<le> length s"
proof (induction f s rule: trim_with.induct)
  case (1 f s)
  show ?case
  proof (cases "f s = 0 \<or> s = []")
    case True
    then show ?thesis by (simp add: trim_with.simps [of f s])
  next
    case False
    with 1 have "length (trim_with f (drop (f s) s)) \<le> length s - f s" by simp
    with False show ?thesis by (simp add: trim_with.simps [of f s])
  qed
qed

lemma set_trim_with: "set (trim_with f s) \<subseteq> set s"
proof (induction f s rule: trim_with.induct)
  case (1 f s)
  show ?case
  proof (cases "f s = 0 \<or> s = []")
    case True
    then show ?thesis by (simp add: trim_with.simps [of f s])
  next
    case False
    with 1 have "set (trim_with f (drop (f s) s)) \<subseteq> set (drop (f s) s)" by blast
    also have "\<dots> \<subseteq> set s" by (rule set_drop_subset)
    finally show ?thesis using False by (simp add: trim_with.simps [of f s])
  qed
qed

lemma length_TrimSpace: "length (TrimSpace s) \<le> length s"
  using length_trim_with [of trail_space "rev (trim_with lead_space s)"]
    length_trim_with [of lead_space s]
  by (simp add: TrimSpace_def)

lemma TrimSpace_Nil: "TrimSpace [] = []"
  by (simp add: TrimSpace_def)

text \<open>A string that starts and ends with a visible ASCII character is left alone.\<close>

lemma TrimSpace_visible:
  assumes "s \<noteq> []"
    and "33 \<le> byte (hd s)" "byte (hd s) < 128"
    and "33 \<le> byte (last s)" "byte (last s) < 128"
  shows "TrimSpace s = s"
proof -
  from assms obtain c t where s: "s = c # t" by (cases s) auto
  with assms have lead: "lead_space s = 0" by (auto simp: ascii_space_def)
  from assms obtain d u where r: "rev s = d # u" and d: "d = last s"
    by (cases "rev s") (auto simp: hd_rev [symmetric])
  have "trail_space (rev s) = 0"
    using assms unfolding r d by (auto simp: ascii_space_def)
  with lead show ?thesis by (simp add: TrimSpace_def trim_with_stop)
qed

subsection \<open>Decimal integers\<close>

function digits_of :: "int \<Rightarrow> bytes" where
  "digits_of n =
     (if n < 10 then [char_of (48 + nat n)]
      else digits_of (n div 10) @ [char_of (48 + nat (n mod 10))])"
  by pat_completeness auto
termination
  by (relation "measure nat") auto

declare digits_of.simps [simp del]

definition FormatInt :: "int \<Rightarrow> bytes" where
  "FormatInt i = (if i < 0 then CHR ''-'' # digits_of (- i) else digits_of i)"

definition is_digit :: "char \<Rightarrow> bool" where
  "is_digit c = (48 \<le> byte c \<and> byte c \<le> 57)"

definition digit_int :: "char \<Rightarrow> int" where
  "digit_int c = of_char c - 48"

definition digits_val :: "bytes \<Rightarrow> int" where
  "digits_val s = foldl (\<lambda>n c. 10 * n + digit_int c) 0 s"

text \<open>
  \<open>strconv.ParseInt(s, 10, 64)\<close> and \<open>Atoi\<close>: an optional sign, then decimal digits only, and
  a value in the range of a 64-bit integer; \<open>ParseUint(s, 10, 64)\<close> takes no sign.
\<close>

definition ParseUint :: "bytes \<Rightarrow> int option" where
  "ParseUint s =
     (if s \<noteq> [] \<and> list_all is_digit s \<and> digits_val s < 2 ^ 64 then Some (digits_val s) else None)"

definition Atoi :: "bytes \<Rightarrow> int option" where
  "Atoi s =
     (let neg = (s \<noteq> [] \<and> hd s = CHR ''-'');
          u = (if s \<noteq> [] \<and> (hd s = CHR ''-'' \<or> hd s = CHR ''+'') then tl s else s)
      in if u = [] \<or> \<not> list_all is_digit u then None
         else let v = digits_val u in
           if neg then (if v \<le> 2 ^ 63 then Some (- v) else None)
           else (if v < 2 ^ 63 then Some v else None))"

lemma digits_of_not_Nil [simp]: "digits_of n \<noteq> []"
  by (subst digits_of.simps) simp

lemma is_digit_char_of: "(d::nat) < 10 \<Longrightarrow> is_digit (char_of (48 + d))"
  by (simp add: is_digit_def)

lemma digit_int_char_of: "(d::nat) < 10 \<Longrightarrow> digit_int (char_of (48 + d)) = int d"
proof -
  assume d: "d < 10"
  have "(of_char (char_of (48 + d)) :: int) = int (of_char (char_of (48 + d) :: char))"
    by (simp only: of_nat_of_char)
  also have "\<dots> = int (48 + d)" using d by (simp only: of_char_of) simp
  finally show ?thesis by (simp add: digit_int_def)
qed

lemma digit_int_bounds: "is_digit c \<Longrightarrow> 0 \<le> digit_int c \<and> digit_int c \<le> 9"
proof -
  assume "is_digit c"
  then have "48 \<le> int (byte c)" "int (byte c) \<le> 57" by (simp_all add: is_digit_def)
  then show ?thesis by (simp add: digit_int_def of_nat_of_char)
qed

lemma digits_of_digits: "list_all is_digit (digits_of n)"
proof (induction n rule: digits_of.induct)
  case (1 n)
  show ?case
  proof (cases "n < 10")
    case True
    then show ?thesis by (simp add: digits_of.simps [of n] is_digit_char_of)
  next
    case False
    with 1 have "list_all is_digit (digits_of (n div 10))" by simp
    moreover have "is_digit (char_of (48 + nat (n mod 10)))"
      by (rule is_digit_char_of) (simp add: nat_less_iff)
    ultimately show ?thesis using False by (simp add: digits_of.simps [of n])
  qed
qed

lemma digits_val_snoc: "digits_val (s @ [c]) = 10 * digits_val s + digit_int c"
  by (simp add: digits_val_def)

lemma digits_val_of [simp]: "0 \<le> n \<Longrightarrow> digits_val (digits_of n) = n"
proof (induction n rule: digits_of.induct)
  case (1 n)
  show ?case
  proof (cases "n < 10")
    case True
    with 1 show ?thesis
      by (simp add: digits_of.simps [of n] digits_val_def digit_int_char_of)
  next
    case False
    have "nat (n mod 10) < 10" by (simp add: nat_less_iff)
    with False have "digits_val (digits_of n) = 10 * digits_val (digits_of (n div 10)) + n mod 10"
      by (simp add: digits_of.simps [of n] digits_val_snoc digit_int_char_of)
    also have "\<dots> = n" using 1 False by simp
    finally show ?thesis .
  qed
qed

lemma digits_of_inject: "0 \<le> m \<Longrightarrow> 0 \<le> n \<Longrightarrow> digits_of m = digits_of n \<longleftrightarrow> m = n"
  by (metis digits_val_of)

lemma digits_val_nonneg: "list_all is_digit s \<Longrightarrow> 0 \<le> digits_val s"
proof (induction s rule: rev_induct)
  case Nil
  then show ?case by (simp add: digits_val_def)
next
  case (snoc c s)
  then show ?case using digit_int_bounds [of c] by (simp add: digits_val_snoc)
qed

lemma minus_notin_digits: "list_all is_digit s \<Longrightarrow> CHR ''-'' \<notin> set s"
  by (auto simp: list_all_iff is_digit_def)

lemma FormatInt_inject [simp]: "FormatInt i = FormatInt j \<longleftrightarrow> i = j"
proof
  assume eq: "FormatInt i = FormatInt j"
  have no: "digits_of n \<noteq> CHR ''-'' # t" for n t
    using minus_notin_digits [OF digits_of_digits, of n] by auto
  show "i = j"
  proof (cases "i < 0")
    case True
    with eq no [of j, symmetric] show ?thesis
      by (auto simp: FormatInt_def digits_of_inject split: if_splits)
  next
    case False
    with eq no [of i] show ?thesis
      by (auto simp: FormatInt_def digits_of_inject split: if_splits)
  qed
qed simp

lemma FormatInt_chars: "c \<in> set (FormatInt i) \<Longrightarrow> is_digit c \<or> c = CHR ''-''"
  using digits_of_digits [of i] digits_of_digits [of "- i"]
  by (auto simp: FormatInt_def list_all_iff split: if_splits)

lemma Atoi_FormatInt:
  assumes "- (2 ^ 63) \<le> i" and "i < 2 ^ 63"
  shows "Atoi (FormatInt i) = Some i"
proof (cases "i < 0")
  case True
  with assms show ?thesis
    by (simp add: Atoi_def FormatInt_def Let_def digits_of_digits)
next
  case False
  obtain c s where d: "digits_of i = c # s"
    by (cases "digits_of i") auto
  have "is_digit c" using digits_of_digits [of i] d False by simp
  then have "c \<noteq> CHR ''-''" "c \<noteq> CHR ''+''" by (auto simp: is_digit_def)
  with False assms d show ?thesis
    using digits_of_digits [of i] digits_val_of [of i]
    by (simp add: Atoi_def FormatInt_def Let_def)
qed

lemma Atoi_range: "Atoi s = Some i \<Longrightarrow> - (2 ^ 63) \<le> i \<and> i < 2 ^ 63"
  using digits_val_nonneg
  by (auto simp: Atoi_def Let_def split: if_splits) force+

subsection \<open>Hexadecimal text\<close>

definition hex_digit :: "nat \<Rightarrow> char" where
  "hex_digit n = char_of (if n < 10 then 48 + n else 87 + n)"

definition hex_val :: "char \<Rightarrow> nat option" where
  "hex_val c =
     (let b = byte c in
      if 48 \<le> b \<and> b \<le> 57 then Some (b - 48)
      else if 97 \<le> b \<and> b \<le> 102 then Some (b - 87)
      else if 65 \<le> b \<and> b \<le> 70 then Some (b - 55)
      else None)"

fun hex_EncodeToString :: "bytes \<Rightarrow> bytes" where
  "hex_EncodeToString [] = []"
| "hex_EncodeToString (c # s) =
     hex_digit (byte c div 16) # hex_digit (byte c mod 16) # hex_EncodeToString s"

text \<open>\<open>hex.DecodeString\<close>: \<open>None\<close> for an odd length or a character that is not a hex digit.\<close>

fun hex_DecodeString :: "bytes \<Rightarrow> bytes option" where
  "hex_DecodeString [] = Some []"
| "hex_DecodeString [c] = None"
| "hex_DecodeString (a # b # s) =
     (case (hex_val a, hex_val b, hex_DecodeString s) of
        (Some x, Some y, Some r) \<Rightarrow> Some (char_of (16 * x + y) # r)
      | _ \<Rightarrow> None)"

lemma hex_val_less: "hex_val c = Some n \<Longrightarrow> n < 16"
  by (auto simp: hex_val_def Let_def split: if_splits)

lemma hex_val_digit [simp]: "n < 16 \<Longrightarrow> hex_val (hex_digit n) = Some n"
  by (auto simp: hex_val_def hex_digit_def Let_def)

lemma length_hex_Encode [simp]: "length (hex_EncodeToString s) = 2 * length s"
  by (induction s) auto

lemma hex_Decode_Encode [simp]: "hex_DecodeString (hex_EncodeToString s) = Some s"
proof (induction s)
  case Nil
  then show ?case by simp
next
  case (Cons c s)
  have "byte c div 16 < 16" using byte_less [of c] by (simp add: less_mult_imp_div_less)
  with Cons show ?case by simp
qed

lemma hex_Encode_inject [simp]: "hex_EncodeToString s = hex_EncodeToString t \<longleftrightarrow> s = t"
  by (metis hex_Decode_Encode option.inject)

lemma length_hex_Decode: "hex_DecodeString s = Some t \<Longrightarrow> length s = 2 * length t"
  by (induction s arbitrary: t rule: hex_DecodeString.induct) (auto split: option.splits)

lemma hex_Decode_chars:
  "hex_DecodeString s = Some t \<Longrightarrow> c \<in> set s \<Longrightarrow> hex_val c \<noteq> None"
  by (induction s arbitrary: t rule: hex_DecodeString.induct) (auto split: option.splits)

lemma hex_Decode_newline: "hex_DecodeString s = Some t \<Longrightarrow> CHR 0x0A \<notin> set s"
  using hex_Decode_chars by (fastforce simp: hex_val_def)

end
