(* ===== verification/Float64.thy ===== *)
theory Float64
  imports GoStrings
begin

text \<open>
  Go's \<open>float64\<close>: IEEE-754 binary64 with round to nearest, ties to even.  A finite value is
  the rational number it denotes; \<open>Inf True\<close> is minus infinity, \<open>NegZero\<close> is minus zero.
  \<open>fround\<close> rounds an exact rational result to the format (53-bit significand, smallest
  exponent -1074, overflow to infinity), and the arithmetic operations, comparisons, integer
  conversions and the \<open>strconv\<close> conversions between floats and text are defined from it.
\<close>

subsection \<open>Values and comparisons\<close>

datatype float64 = NaN | Inf bool | NegZero | Fin rat

definition IsNaN :: "float64 \<Rightarrow> bool" where
  "IsNaN x = (x = NaN)"

text \<open>\<open>math.IsInf(x, 0)\<close>: either infinity.\<close>

definition IsInf :: "float64 \<Rightarrow> bool" where
  "IsInf x = (case x of Inf _ \<Rightarrow> True | _ \<Rightarrow> False)"

fun fval :: "float64 \<Rightarrow> rat" where
  "fval (Fin r) = r"
| "fval _ = 0"

fun fclass :: "float64 \<Rightarrow> int" where
  "fclass (Inf s) = (if s then -1 else 1)"
| "fclass _ = 0"

fun fneg_sign :: "float64 \<Rightarrow> bool" where
  "fneg_sign (Inf s) = s"
| "fneg_sign NegZero = True"
| "fneg_sign (Fin r) = (r < 0)"
| "fneg_sign NaN = False"

definition flt :: "float64 \<Rightarrow> float64 \<Rightarrow> bool" where
  "flt x y = (x \<noteq> NaN \<and> y \<noteq> NaN \<and>
     (fclass x < fclass y \<or> (fclass x = fclass y \<and> fval x < fval y)))"

definition feq :: "float64 \<Rightarrow> float64 \<Rightarrow> bool" where
  "feq x y = (x \<noteq> NaN \<and> y \<noteq> NaN \<and> fclass x = fclass y \<and> fval x = fval y)"

definition fle :: "float64 \<Rightarrow> float64 \<Rightarrow> bool" where
  "fle x y = (flt x y \<or> feq x y)"

definition is_fin :: "float64 \<Rightarrow> bool" where
  "is_fin x = (\<not> IsNaN x \<and> \<not> IsInf x)"

lemma is_fin_simps [simp]:
  "is_fin (Fin r)" "is_fin NegZero" "\<not> is_fin NaN" "\<not> is_fin (Inf s)"
  by (simp_all add: is_fin_def IsNaN_def IsInf_def)

lemma is_fin_cases: "is_fin x \<Longrightarrow> x = NegZero \<or> (\<exists>r. x = Fin r)"
  by (cases x) auto

lemma flt_NaN [simp]: "\<not> flt NaN y" "\<not> flt x NaN"
  by (simp_all add: flt_def)

lemma fle_NaN [simp]: "\<not> fle NaN y" "\<not> fle x NaN"
  by (simp_all add: fle_def feq_def)

lemma flt_fin [simp]: "is_fin x \<Longrightarrow> is_fin y \<Longrightarrow> flt x y \<longleftrightarrow> fval x < fval y"
  by (cases x; cases y) (auto simp: flt_def)

lemma feq_fin [simp]: "is_fin x \<Longrightarrow> is_fin y \<Longrightarrow> feq x y \<longleftrightarrow> fval x = fval y"
  by (cases x; cases y) (auto simp: feq_def)

lemma fle_fin [simp]: "is_fin x \<Longrightarrow> is_fin y \<Longrightarrow> fle x y \<longleftrightarrow> fval x \<le> fval y"
  by (auto simp: fle_def)

lemma fle_not_flt: "fle x y \<longleftrightarrow> x \<noteq> NaN \<and> y \<noteq> NaN \<and> \<not> flt y x"
  by (auto simp: fle_def flt_def feq_def)

lemma flt_Inf [simp]:
  "is_fin x \<Longrightarrow> flt x (Inf s) \<longleftrightarrow> \<not> s"
  "is_fin x \<Longrightarrow> flt (Inf s) x \<longleftrightarrow> s"
  by (cases x; simp add: flt_def)+

lemma fle_Inf [simp]:
  "is_fin x \<Longrightarrow> fle x (Inf s) \<longleftrightarrow> \<not> s"
  "is_fin x \<Longrightarrow> fle (Inf s) x \<longleftrightarrow> s"
  by (cases x; simp add: fle_def flt_def feq_def)+

lemma fle_trans: "fle x y \<Longrightarrow> fle y z \<Longrightarrow> fle x z"
  by (auto simp: fle_def flt_def feq_def)

lemma flt_imp_fle: "flt x y \<Longrightarrow> fle x y"
  by (simp add: fle_def)

subsection \<open>Rounding\<close>

text \<open>Round half to even, to an integer.\<close>

definition rhe :: "rat \<Rightarrow> int" where
  "rhe x =
     (let f = \<lfloor>x\<rfloor>; d = x - of_int f in
      if d < 1 / 2 then f
      else if 1 / 2 < d then f + 1
      else if even f then f else f + 1)"

lemma rhe_of_int [simp]: "rhe (of_int n) = n"
  by (simp add: rhe_def)

lemma rhe_ge: "of_int n \<le> x \<Longrightarrow> n \<le> rhe x"
proof -
  assume "of_int n \<le> x"
  then have "n \<le> \<lfloor>x\<rfloor>" by (simp add: le_floor_iff)
  then show ?thesis by (auto simp: rhe_def Let_def)
qed

lemma rhe_le: "x \<le> of_int n \<Longrightarrow> rhe x \<le> n"
proof -
  assume le: "x \<le> of_int n"
  show ?thesis
  proof (cases "x = of_int n")
    case True
    then show ?thesis by simp
  next
    case False
    with le have "\<lfloor>x\<rfloor> < n" by (simp add: floor_less_iff)
    then show ?thesis by (auto simp: rhe_def Let_def)
  qed
qed

text \<open>The binary exponent of a positive rational: the integer part of its base-2 logarithm.\<close>

function bits :: "int \<Rightarrow> int" where
  "bits n = (if n \<le> 0 then 0 else 1 + bits (n div 2))"
  by pat_completeness auto
termination
  by (relation "measure nat") auto

declare bits.simps [simp del]

definition ilog2 :: "rat \<Rightarrow> int" where
  "ilog2 x = (if 1 \<le> x then bits \<lfloor>x\<rfloor> - 1 else - bits (\<lceil>1 / x\<rceil> - 1))"

definition ulp_exp :: "rat \<Rightarrow> int" where
  "ulp_exp x = max (ilog2 \<bar>x\<bar> - 52) (- 1074)"

text \<open>
  The largest finite value is \<open>(2 ^ 53 - 1) * 2 ^ 971\<close>: a significand that rounds up to
  \<open>2 ^ 53\<close> at that exponent, or a larger exponent, overflows.
\<close>

definition fround :: "rat \<Rightarrow> float64" where
  "fround x =
     (if x = 0 then Fin 0
      else let e = ulp_exp x; m = rhe (x / 2 powi e) in
        if 971 < e \<or> (e = 971 \<and> 2 ^ 53 \<le> \<bar>m\<bar>) then Inf (x < 0)
        else if m = 0 then (if x < 0 then NegZero else Fin 0)
        else Fin (of_int m * 2 powi e))"

lemma bits_bounds:
  "0 < n \<Longrightarrow> 0 < bits n \<and> 2 ^ nat (bits n - 1) \<le> n \<and> n < 2 ^ nat (bits n)"
proof (induction n rule: bits.induct)
  case (1 n)
  show ?case
  proof (cases "n = 1")
    case True
    then show ?thesis by (simp add: bits.simps [of 1] bits.simps [of 0])
  next
    case False
    with "1.prems" have half: "0 < n div 2" by simp
    with "1.IH" "1.prems" have ih: "0 < bits (n div 2)"
      "2 ^ nat (bits (n div 2) - 1) \<le> n div 2" "n div 2 < 2 ^ nat (bits (n div 2))"
      by auto
    have b: "bits n = 1 + bits (n div 2)" using "1.prems" by (simp add: bits.simps [of n])
    have "nat (bits n - 1) = Suc (nat (bits (n div 2) - 1))" using ih(1) b by simp
    then have "2 ^ nat (bits n - 1) \<le> n" using ih(2) by simp
    moreover have "nat (bits n) = Suc (nat (bits (n div 2)))" using ih(1) b by simp
    then have "n < 2 ^ nat (bits n)" using ih(3) by simp
    ultimately show ?thesis using ih(1) b by simp
  qed
qed

lemma bits_rat_bounds:
  assumes "0 < (n::int)"
  shows "(2::rat) powi (bits n - 1) \<le> of_int n"
    and "(of_int n :: rat) + 1 \<le> 2 powi (bits n)"
proof -
  note b = bits_bounds [OF assms]
  have "(2::rat) powi (bits n - 1) = of_int (2 ^ nat (bits n - 1))"
    using b by (simp add: power_int_def)
  also have "\<dots> \<le> of_int n" using b by (simp only: of_int_le_iff)
  finally show "(2::rat) powi (bits n - 1) \<le> of_int n" .
  from b have "n + 1 \<le> 2 ^ nat (bits n)" by simp
  then have "(of_int (n + 1) :: rat) \<le> of_int (2 ^ nat (bits n))" by (simp only: of_int_le_iff)
  with b show "(of_int n :: rat) + 1 \<le> 2 powi (bits n)" by (simp add: power_int_def)
qed

lemma ilog2_bounds:
  assumes "0 < x"
  shows "2 powi (ilog2 x) \<le> x \<and> x < 2 powi (ilog2 x + 1)"
proof (cases "1 \<le> x")
  case True
  then have pos: "0 < \<lfloor>x\<rfloor>" by (simp add: zero_less_floor)
  have "of_int \<lfloor>x\<rfloor> \<le> x" "x < of_int \<lfloor>x\<rfloor> + 1" by linarith+
  with bits_rat_bounds [OF pos] have "2 powi (bits \<lfloor>x\<rfloor> - 1) \<le> x \<and> x < 2 powi (bits \<lfloor>x\<rfloor>)"
    by linarith
  with True show ?thesis by (simp add: ilog2_def)
next
  case False
  let ?n = "\<lceil>1 / x\<rceil> - 1"
  from False assms have one: "1 < 1 / x" by (simp add: field_simps)
  then have pos: "0 < ?n" by (simp add: less_ceiling_iff)
  have lo: "of_int ?n < 1 / x" and hi: "1 / x \<le> of_int ?n + 1" by linarith+
  have l: "2 powi (bits ?n - 1) < 1 / x" using bits_rat_bounds(1) [OF pos] lo by linarith
  have h: "1 / x \<le> 2 powi (bits ?n)" using bits_rat_bounds(2) [OF pos] hi by linarith
  have "x < 1 / 2 powi (bits ?n - 1)"
    using l assms by (simp add: field_simps)
  moreover have "1 / 2 powi (bits ?n) \<le> x"
    using h assms by (simp add: field_simps)
  moreover have "(2::rat) powi (- bits ?n) = 1 / 2 powi (bits ?n)"
    by (simp add: power_int_minus divide_inverse)
  moreover have "(2::rat) powi (- bits ?n + 1) = 1 / 2 powi (bits ?n - 1)"
    using power_int_minus [of "2::rat" "bits ?n - 1"] by (simp add: divide_inverse)
  ultimately show ?thesis using False by (simp add: ilog2_def)
qed

text \<open>Below \<open>2 ^ 53\<close> the unit in the last place divides every integer.\<close>

lemma ulp_exp_small:
  assumes "x \<noteq> 0" and "\<bar>x\<bar> < 2 ^ 53"
  shows "ulp_exp x \<le> 0"
proof -
  have "(2::rat) powi (ilog2 \<bar>x\<bar>) \<le> \<bar>x\<bar>" using assms ilog2_bounds [of "\<bar>x\<bar>"] by simp
  also have "\<dots> < 2 powi 53" using assms by (simp add: power_int_def)
  finally have "ilog2 \<bar>x\<bar> < 53"
    by (metis not_less power_int_increasing one_le_numeral leD)
  then show ?thesis by (simp add: ulp_exp_def)
qed

lemma int_over_ulp:
  assumes "e \<le> 0"
  shows "(of_int n :: rat) / 2 powi e = of_int (n * 2 ^ nat (- e))"
proof -
  obtain k where k: "e = - int k" using assms by (metis nonpos_int_cases)
  have "(2::rat) powi e = inverse (2 ^ k)" unfolding k power_int_minus by simp
  then show ?thesis by (simp add: k divide_inverse)
qed

lemma scaled_rhe_le:
  assumes e: "e \<le> 0" and le: "x \<le> of_int n"
  shows "of_int (rhe (x / 2 powi e)) * 2 powi e \<le> (of_int n :: rat)"
proof -
  have pos: "0 < (2::rat) powi e" by simp
  from le pos have "x / 2 powi e \<le> of_int n / 2 powi e" by (intro divide_right_mono) auto
  then have "rhe (x / 2 powi e) \<le> n * 2 ^ nat (- e)"
    unfolding int_over_ulp [OF e] by (rule rhe_le)
  then have "(of_int (rhe (x / 2 powi e)) :: rat) \<le> of_int n / 2 powi e"
    unfolding int_over_ulp [OF e] by (simp only: of_int_le_iff)
  with pos show ?thesis by (simp only: pos_le_divide_eq)
qed

lemma scaled_rhe_ge:
  assumes e: "e \<le> 0" and ge: "of_int n \<le> x"
  shows "(of_int n :: rat) \<le> of_int (rhe (x / 2 powi e)) * 2 powi e"
proof -
  have pos: "0 < (2::rat) powi e" by simp
  from ge pos have "of_int n / 2 powi e \<le> x / 2 powi e" by (intro divide_right_mono) auto
  then have "n * 2 ^ nat (- e) \<le> rhe (x / 2 powi e)"
    unfolding int_over_ulp [OF e] by (rule rhe_ge)
  then have "(of_int n :: rat) / 2 powi e \<le> of_int (rhe (x / 2 powi e))"
    unfolding int_over_ulp [OF e] by (simp only: of_int_le_iff)
  with pos show ?thesis by (simp only: pos_divide_le_eq)
qed

lemma fround_mag:
  assumes "x \<noteq> 0" and "\<bar>x\<bar> < 2 ^ 53"
  shows "is_fin (fround x) \<and>
    fval (fround x) = of_int (rhe (x / 2 powi ulp_exp x)) * 2 powi ulp_exp x"
  using ulp_exp_small [OF assms] assms(1) by (simp add: fround_def Let_def)

text \<open>Rounding never crosses an integer, and keeps integers, below \<open>2 ^ 53\<close>.\<close>

lemma fround_le_int:
  assumes "\<bar>x\<bar> < 2 ^ 53" and "x \<le> of_int n"
  shows "is_fin (fround x)" and "fval (fround x) \<le> of_int n"
proof -
  have "is_fin (fround x) \<and> fval (fround x) \<le> of_int n"
  proof (cases "x = 0")
    case True
    with assms show ?thesis by (simp add: fround_def)
  next
    case False
    with assms show ?thesis
      using fround_mag [OF False assms(1)] scaled_rhe_le [OF ulp_exp_small] by simp
  qed
  then show "is_fin (fround x)" and "fval (fround x) \<le> of_int n" by simp_all
qed

lemma fround_ge_int:
  assumes "\<bar>x\<bar> < 2 ^ 53" and "of_int n \<le> x"
  shows "of_int n \<le> fval (fround x)"
proof (cases "x = 0")
  case True
  with assms show ?thesis by (simp add: fround_def)
next
  case False
  with assms show ?thesis
    using fround_mag [OF False assms(1)] scaled_rhe_ge [OF ulp_exp_small] by simp
qed

lemma fround_int:
  assumes "\<bar>n\<bar> < 2 ^ 53"
  shows "fval (fround (of_int n)) = of_int n" and "is_fin (fround (of_int n))"
proof -
  have a: "\<bar>of_int n :: rat\<bar> < 2 ^ 53"
  proof -
    have "(of_int \<bar>n\<bar> :: rat) < of_int (2 ^ 53)" using assms by (simp only: of_int_less_iff)
    then show ?thesis by simp
  qed
  show "is_fin (fround (of_int n))" using fround_le_int(1) [OF a order_refl] .
  show "fval (fround (of_int n)) = of_int n"
    using fround_le_int(2) [OF a order_refl] fround_ge_int [OF a order_refl] by simp
qed

subsection \<open>Arithmetic\<close>

definition fzero :: "bool \<Rightarrow> float64" where
  "fzero neg = (if neg then NegZero else Fin 0)"

definition fmul :: "float64 \<Rightarrow> float64 \<Rightarrow> float64" where
  "fmul x y =
     (let neg = (fneg_sign x \<noteq> fneg_sign y) in
      if IsNaN x \<or> IsNaN y then NaN
      else if IsInf x \<or> IsInf y then
        (if (is_fin x \<and> fval x = 0) \<or> (is_fin y \<and> fval y = 0) then NaN else Inf neg)
      else if fval x * fval y = 0 then fzero neg
      else fround (fval x * fval y))"

definition fdiv :: "float64 \<Rightarrow> float64 \<Rightarrow> float64" where
  "fdiv x y =
     (let neg = (fneg_sign x \<noteq> fneg_sign y) in
      if IsNaN x \<or> IsNaN y then NaN
      else if IsInf x then (if IsInf y then NaN else Inf neg)
      else if IsInf y then fzero neg
      else if fval y = 0 then (if fval x = 0 then NaN else Inf neg)
      else if fval x = 0 then fzero neg
      else fround (fval x / fval y))"

definition fadd :: "float64 \<Rightarrow> float64 \<Rightarrow> float64" where
  "fadd x y =
     (if IsNaN x \<or> IsNaN y then NaN
      else if IsInf x then (if IsInf y \<and> fneg_sign x \<noteq> fneg_sign y then NaN else x)
      else if IsInf y then y
      else if x = NegZero \<and> y = NegZero then NegZero
      else fround (fval x + fval y))"

fun fneg :: "float64 \<Rightarrow> float64" where
  "fneg NaN = NaN"
| "fneg (Inf s) = Inf (\<not> s)"
| "fneg NegZero = Fin 0"
| "fneg (Fin r) = (if r = 0 then NegZero else Fin (- r))"

definition fsub :: "float64 \<Rightarrow> float64 \<Rightarrow> float64" where
  "fsub x y = fadd x (fneg y)"

text \<open>\<open>float64(i)\<close> for an integer.\<close>

definition fof_int :: "int \<Rightarrow> float64" where
  "fof_int i = fround (of_int i)"

text \<open>
  The conversion \<open>int(x)\<close> truncates toward zero.  Go leaves the result for a value that does
  not fit (or is not finite) to the implementation: \<open>None\<close>.
\<close>

definition trunc_rat :: "rat \<Rightarrow> int" where
  "trunc_rat r = (if r < 0 then - \<lfloor>- r\<rfloor> else \<lfloor>r\<rfloor>)"

definition fto_int :: "float64 \<Rightarrow> int option" where
  "fto_int x =
     (if is_fin x \<and> - (2 ^ 63) \<le> trunc_rat (fval x) \<and> trunc_rat (fval x) < 2 ^ 63
      then Some (trunc_rat (fval x)) else None)"

text \<open>\<open>math.Round\<close>: to the nearest integer, halves away from zero.\<close>

definition round_away :: "rat \<Rightarrow> int" where
  "round_away r = (if r < 0 then - \<lfloor>- r + 1 / 2\<rfloor> else \<lfloor>r + 1 / 2\<rfloor>)"

definition math_Round :: "float64 \<Rightarrow> float64" where
  "math_Round x =
     (case x of
        Fin r \<Rightarrow> if round_away r = 0 then fzero (r < 0) else Fin (of_int (round_away r))
      | _ \<Rightarrow> x)"

lemma fmul_fin:
  assumes "is_fin x" and "is_fin y" and "fval x * fval y \<noteq> 0"
  shows "fmul x y = fround (fval x * fval y)"
  using assms by (simp add: fmul_def Let_def is_fin_def)

lemma fdiv_fin:
  assumes "is_fin x" and "is_fin y" and "fval x \<noteq> 0" and "fval y \<noteq> 0"
  shows "fdiv x y = fround (fval x / fval y)"
  using assms by (simp add: fdiv_def Let_def is_fin_def)

lemma is_fin_fzero [simp]: "is_fin (fzero s)"
  and fval_fzero [simp]: "fval (fzero s) = 0"
  by (simp_all add: fzero_def)

end
