(* ===== verification/FloatText.thy ===== *)
theory FloatText
  imports Float64
begin

text \<open>
  \<open>strconv\<close> conversions between \<open>float64\<close> and text: \<open>FormatFloat(x, 'f', prec, 64)\<close> for a
  fixed precision (exact decimal value, ties to even) and for the shortest text that reads
  back as the same float, and \<open>ParseFloat\<close>, with signs, fractions, exponents, hexadecimal
  floats, digit separators and the names of infinities and NaN.
\<close>

subsection \<open>Formatting\<close>

definition pad0 :: "nat \<Rightarrow> bytes \<Rightarrow> bytes" where
  "pad0 k s = replicate (k - length s) (CHR ''0'') @ s"

text \<open>The decimal text of \<open>n / 10 ^ k\<close> with exactly \<open>k\<close> fraction digits.\<close>

definition fixed_text :: "nat \<Rightarrow> int \<Rightarrow> bytes" where
  "fixed_text k n =
     digits_of (n div 10 ^ k) @
     (if k = 0 then [] else CHR ''.'' # pad0 k (digits_of (n mod 10 ^ k)))"

definition FormatFixed :: "nat \<Rightarrow> float64 \<Rightarrow> bytes" where
  "FormatFixed k x =
     (case x of
        NaN \<Rightarrow> ''NaN''
      | Inf s \<Rightarrow> (if s then ''-Inf'' else ''+Inf'')
      | NegZero \<Rightarrow> CHR ''-'' # fixed_text k 0
      | Fin r \<Rightarrow> (if r < 0 then ''-'' else []) @ fixed_text k (rhe (\<bar>r\<bar> * 10 ^ k)))"

text \<open>
  \<open>FormatFloat(x, 'f', -1, 64)\<close>: the fewest significant digits that still round to \<open>x\<close>.  For
  \<open>n\<close> digits the two candidates are the neighbours of \<open>x\<close> on the grid of \<open>n\<close>-digit numbers;
  if both read back as \<open>x\<close> the nearer one is taken.  Seventeen digits always suffice.
\<close>

definition dec_exp :: "rat \<Rightarrow> int" where
  "dec_exp x = (if 1 \<le> x then int (length (digits_of \<lfloor>x\<rfloor>))
     else 1 - int (length (digits_of (\<lceil>1 / x\<rceil> - 1))))"

definition shortest_at :: "rat \<Rightarrow> nat \<Rightarrow> (int \<times> int) option" where
  "shortest_at x n =
     (let j = dec_exp x - int n; sc = 10 powi j; m = \<lfloor>x / sc\<rfloor>;
          down = (fround (of_int m * sc) = Fin x); up = (fround (of_int (m + 1) * sc) = Fin x)
      in if down \<and> up then Some (rhe (x / sc), j)
         else if down then Some (m, j)
         else if up then Some (m + 1, j)
         else None)"

definition shortest_dec :: "rat \<Rightarrow> int \<times> int" where
  "shortest_dec x =
     (case List.map_filter (shortest_at x) [1..<18] of
        d # _ \<Rightarrow> d
      | [] \<Rightarrow> (\<lfloor>x / 10 powi (dec_exp x - 17)\<rfloor>, dec_exp x - 17))"

definition FormatShortest :: "float64 \<Rightarrow> bytes" where
  "FormatShortest x =
     (case x of
        NaN \<Rightarrow> ''NaN''
      | Inf s \<Rightarrow> (if s then ''-Inf'' else ''+Inf'')
      | NegZero \<Rightarrow> ''-0''
      | Fin r \<Rightarrow>
          if r = 0 then ''0''
          else (case shortest_dec \<bar>r\<bar> of (m, j) \<Rightarrow>
            (if r < 0 then ''-'' else []) @
            (if 0 \<le> j then digits_of (m * 10 ^ nat j) else fixed_text (nat (- j)) m)))"

subsection \<open>Parsing\<close>

definition lower_byte :: "char \<Rightarrow> char" where
  "lower_byte c = (if 65 \<le> byte c \<and> byte c \<le> 90 then char_of (byte c + 32) else c)"

definition digit_val :: "int \<Rightarrow> char \<Rightarrow> int option" where
  "digit_val b c =
     (if is_digit c then Some (digit_int c)
      else if b = 16 then map_option int (hex_val c) else None)"

text \<open>
  The mantissa: digits, at most one point, digit separators.  The result is whether a digit
  was seen, the digits as a number, how many of them follow the point, and the rest.
\<close>

fun scan_mant :: "int \<Rightarrow> bytes \<Rightarrow> bool \<Rightarrow> bool \<Rightarrow> int \<Rightarrow> nat \<Rightarrow> bool \<times> int \<times> nat \<times> bytes" where
  "scan_mant b [] sawdot sawdigits v f = (sawdigits, v, f, [])"
| "scan_mant b (c # s) sawdot sawdigits v f =
     (if c = CHR ''_'' then scan_mant b s sawdot sawdigits v f
      else if c = CHR ''.'' then
        (if sawdot then (sawdigits, v, f, c # s) else scan_mant b s True sawdigits v f)
      else (case digit_val b c of
        Some d \<Rightarrow> scan_mant b s sawdot True (b * v + d) (if sawdot then Suc f else f)
      | None \<Rightarrow> (sawdigits, v, f, c # s)))"

text \<open>The exponent digits, which stop counting once the value reaches 10000.\<close>

fun scan_exp :: "bytes \<Rightarrow> int \<Rightarrow> int \<times> bytes" where
  "scan_exp [] e = (e, [])"
| "scan_exp (c # s) e =
     (if c = CHR ''_'' then scan_exp s e
      else if is_digit c then scan_exp s (if e < 10000 then 10 * e + digit_int c else e)
      else (e, c # s))"

definition strip_sign :: "bytes \<Rightarrow> bool \<times> bytes" where
  "strip_sign s =
     (case s of c # t \<Rightarrow> if c = CHR ''-'' then (True, t) else if c = CHR ''+'' then (False, t) else (False, s)
      | [] \<Rightarrow> (False, []))"

text \<open>
  \<open>underscoreOK\<close>: a separator stands between two digits, or between a base prefix and a
  digit.  The state is the last character seen: a digit or prefix, a separator, other.
\<close>

datatype last_seen = SeenStart | SeenDigit | SeenUnderscore | SeenOther

fun underscore_scan :: "bool \<Rightarrow> bytes \<Rightarrow> last_seen \<Rightarrow> bool" where
  "underscore_scan hex [] saw = (saw \<noteq> SeenUnderscore)"
| "underscore_scan hex (c # s) saw =
     (if is_digit c \<or> (hex \<and> hex_val c \<noteq> None) then underscore_scan hex s SeenDigit
      else if c = CHR ''_'' then saw = SeenDigit \<and> underscore_scan hex s SeenUnderscore
      else saw \<noteq> SeenUnderscore \<and> underscore_scan hex s SeenOther)"

definition underscoreOK :: "bytes \<Rightarrow> bool" where
  "underscoreOK s =
     (let u = snd (strip_sign s) in
      case u of
        z # x # r \<Rightarrow>
          if z = CHR ''0'' \<and> lower_byte x \<in> set ''box''
          then underscore_scan (lower_byte x = CHR ''x'') r SeenDigit
          else underscore_scan False u SeenStart
      | _ \<Rightarrow> underscore_scan False u SeenStart)"

definition apply_sign :: "bool \<Rightarrow> float64 \<Rightarrow> float64" where
  "apply_sign neg x = (if neg then fneg x else x)"

text \<open>The number \<open>v\<close> times a power of the base, as \<open>ParseFloat\<close> returns it: value and no error,
  or an infinity and a range error.\<close>

definition parsed_number :: "bool \<Rightarrow> rat \<Rightarrow> float64 \<times> bool" where
  "parsed_number neg q = (apply_sign neg (fround q), \<not> IsInf (fround q))"

definition syntax_error :: "float64 \<times> bool" where
  "syntax_error = (Fin 0, False)"

text \<open>An optional exponent after the mantissa: \<open>None\<close> for a malformed one.\<close>

definition parse_exponent :: "char \<Rightarrow> bytes \<Rightarrow> (int \<times> bytes) option" where
  "parse_exponent expchar s =
     (case s of
        [] \<Rightarrow> Some (0, [])
      | c # t \<Rightarrow>
          if lower_byte c \<noteq> expchar then Some (0, s)
          else (case strip_sign t of (neg, u) \<Rightarrow>
            case u of
              [] \<Rightarrow> None
            | d # _ \<Rightarrow>
                if \<not> is_digit d then None
                else (case scan_exp u 0 of (e, r) \<Rightarrow> Some (if neg then - e else e, r))))"

definition ParseNumber :: "bytes \<Rightarrow> float64 \<times> bool" where
  "ParseNumber s =
     (case strip_sign s of (neg, t) \<Rightarrow>
      let hex = (length t > 2 \<and> hd t = CHR ''0'' \<and> lower_byte (t ! 1) = CHR ''x'');
          b = (if hex then 16 else 10); body = (if hex then drop 2 t else t)
      in case scan_mant b body False False 0 0 of (sawdigits, v, f, rest) \<Rightarrow>
        if \<not> sawdigits then syntax_error
        else if hex \<and> (rest = [] \<or> lower_byte (hd rest) \<noteq> CHR ''p'') then syntax_error
        else (case parse_exponent (if hex then CHR ''p'' else CHR ''e'') rest of
            None \<Rightarrow> syntax_error
          | Some (e, r) \<Rightarrow>
              if r \<noteq> [] then syntax_error
              else if CHR ''_'' \<in> set s \<and> \<not> underscoreOK s then syntax_error
              else if hex then parsed_number neg (of_int v * 2 powi (e - 4 * int f))
              else parsed_number neg (of_int v * 10 powi (e - int f))))"

definition ParseFloat :: "bytes \<Rightarrow> float64 \<times> bool" where
  "ParseFloat s =
     (case strip_sign s of (neg, t) \<Rightarrow>
      if map lower_byte t = ''inf'' \<or> map lower_byte t = ''infinity'' then (Inf neg, True)
      else if map lower_byte s = ''nan'' then (NaN, True)
      else ParseNumber s)"

subsection \<open>Reading back a fixed-precision text\<close>

lemma scan_mant_digits:
  assumes "list_all is_digit ds"
  shows "scan_mant 10 (ds @ s) dot saw v f =
    scan_mant 10 s dot (saw \<or> ds \<noteq> []) (v * 10 ^ length ds + digits_val ds)
      (if dot then f + length ds else f)"
  using assms
proof (induction ds arbitrary: saw v f)
  case Nil
  then show ?case by (simp add: digits_val_def)
next
  case (Cons c ds)
  have val: "digits_val (c # ds) = digit_int c * 10 ^ length ds + digits_val ds" for ds
  proof (induction ds rule: rev_induct)
    case Nil
    then show ?case by (simp add: digits_val_def)
  next
    case (snoc d ds)
    have "digits_val (c # ds @ [d]) = 10 * digits_val (c # ds) + digit_int d"
      using digits_val_snoc [of "c # ds" d] by simp
    with snoc show ?case by (simp add: digits_val_snoc algebra_simps)
  qed
  from Cons.prems have c: "is_digit c" by simp
  then have "c \<noteq> CHR ''_''" "c \<noteq> CHR ''.''" by (auto simp: is_digit_def)
  with c Cons show ?case by (simp add: digit_val_def val algebra_simps)
qed

lemma list_all_pad0: "list_all is_digit s \<Longrightarrow> list_all is_digit (pad0 k s)"
  by (auto simp: pad0_def list_all_iff is_digit_def)

lemma digits_val_replicate0: "digits_val (replicate n (CHR ''0'') @ s) = digits_val s"
  by (induction n) (simp_all add: digits_val_def digit_int_def)

lemma digits_val_pad0 [simp]: "digits_val (pad0 k s) = digits_val s"
  by (simp add: pad0_def digits_val_replicate0)

lemma length_digits_of: "n < 10 ^ k \<Longrightarrow> 0 < k \<Longrightarrow> length (digits_of n) \<le> k"
proof (induction n arbitrary: k rule: digits_of.induct)
  case (1 n)
  show ?case
  proof (cases "n < 10")
    case True
    with 1 show ?thesis by (simp add: digits_of.simps [of n])
  next
    case False
    with "1.prems" have "k \<noteq> Suc 0" by auto
    with "1.prems" obtain j where k: "k = Suc j" and j: "0 < j"
      by (cases k) auto
    from "1.prems" k have "n div 10 < 10 ^ j" by (simp add: div_less_iff_less_mult)
    with "1.IH" False j have "length (digits_of (n div 10)) \<le> j" by simp
    with False k show ?thesis by (simp add: digits_of.simps [of n])
  qed
qed

lemma length_pad0: "length s \<le> k \<Longrightarrow> length (pad0 k s) = k"
  by (simp add: pad0_def)

lemma scan_fixed_text:
  assumes "0 < k" and "0 \<le> n"
  shows "scan_mant 10 (fixed_text k n) False False 0 0 = (True, n, k, [])"
proof -
  let ?p = "pad0 k (digits_of (n mod 10 ^ k))"
  have len: "length ?p = k"
    using assms by (intro length_pad0 length_digits_of) auto
  have digs: "list_all is_digit ?p" by (intro list_all_pad0 digits_of_digits)
  have "scan_mant 10 ?p True True (n div 10 ^ k) 0 =
      (True, n div 10 ^ k * 10 ^ k + n mod 10 ^ k, k, [])"
    using scan_mant_digits [OF digs, of "[]" True True "n div 10 ^ k" 0] by (simp add: len)
  also have "n div 10 ^ k * 10 ^ k + n mod 10 ^ k = n" by (rule div_mult_mod_eq)
  finally have tail: "scan_mant 10 ?p True True (n div 10 ^ k) 0 = (True, n, k, [])" .
  have "0 \<le> n div 10 ^ k" using assms by (simp add: pos_imp_zdiv_nonneg_iff)
  with assms tail show ?thesis
    by (simp add: fixed_text_def scan_mant_digits [OF digits_of_digits])
qed

text \<open>The text of a finite number is made of digits, a sign and a point.\<close>

lemma fixed_text_chars: "c \<in> set (fixed_text k n) \<Longrightarrow> is_digit c \<or> c = CHR ''.''"
  using digits_of_digits [of "n div 10 ^ k"] list_all_pad0 [OF digits_of_digits, of k "n mod 10 ^ k"]
  by (auto simp: fixed_text_def list_all_iff split: if_splits)

lemma FormatShortest_chars:
  assumes "is_fin x" and "c \<in> set (FormatShortest x)"
  shows "is_digit c \<or> c = CHR ''.'' \<or> c = CHR ''-''"
proof -
  have digs: "d \<in> set (digits_of n) \<Longrightarrow> is_digit d" for d n
    using digits_of_digits [of n] by (simp add: list_all_iff)
  from assms show ?thesis
    by (cases x) (auto simp: FormatShortest_def is_digit_def [of "CHR ''0''"]
        dest: digs fixed_text_chars split: if_splits prod.splits)
qed

lemma FormatFixed_chars:
  assumes "is_fin x" and "c \<in> set (FormatFixed k x)"
  shows "is_digit c \<or> c = CHR ''.'' \<or> c = CHR ''-''"
  using assms by (cases x) (auto simp: FormatFixed_def dest: fixed_text_chars split: if_splits)

end
