(* ===== verification/Json.thy ===== *)
theory Json
  imports FloatText
begin

text \<open>
  \<open>encoding/json\<close> as the bridge uses it: UTF-8 scanning, the lexer and the parser (an explicit
  stack, with the decoder's nesting limit of 10000), and the encoder without HTML escaping.
  A number is kept as its literal, since the decoder converts it by the type of the field it
  is stored in.  Object members keep their order and duplicates.
\<close>

datatype json =
    JNull
  | JBool bool
  | JNum bytes
  | JStr bytes
  | JArr "json list"
  | JObj "(bytes \<times> json) list"
  | JUnsupported bytes  \<comment> \<open>a float that is NaN or infinite: the encoder reports an error\<close>

subsection \<open>UTF-8\<close>

definition cont_byte :: "char \<Rightarrow> bool" where
  "cont_byte c = (0x80 \<le> byte c \<and> byte c \<le> 0xBF)"

text \<open>The length of the well-formed UTF-8 sequence at the head of a byte string, 0 if there is none.\<close>

definition rune_len :: "bytes \<Rightarrow> nat" where
  "rune_len s =
     (case s of
        [] \<Rightarrow> 0
      | a # t \<Rightarrow>
          if byte a < 0x80 then 1
          else (case t of
            [] \<Rightarrow> 0
          | b # u \<Rightarrow>
              if 0xC2 \<le> byte a \<and> byte a \<le> 0xDF then (if cont_byte b then 2 else 0)
              else (case u of
                [] \<Rightarrow> 0
              | c # v \<Rightarrow>
                  if 0xE0 \<le> byte a \<and> byte a \<le> 0xEF then
                    (if cont_byte b \<and> cont_byte c \<and> (byte a = 0xE0 \<longrightarrow> 0xA0 \<le> byte b) \<and>
                        (byte a = 0xED \<longrightarrow> byte b \<le> 0x9F) then 3 else 0)
                  else (case v of
                    [] \<Rightarrow> 0
                  | d # _ \<Rightarrow>
                      if 0xF0 \<le> byte a \<and> byte a \<le> 0xF4 \<and> cont_byte b \<and> cont_byte c \<and> cont_byte d \<and>
                         (byte a = 0xF0 \<longrightarrow> 0x90 \<le> byte b) \<and> (byte a = 0xF4 \<longrightarrow> byte b \<le> 0x8F)
                      then 4 else 0))))"

text \<open>The UTF-8 encoding of a code point; surrogates and values out of range become U+FFFD.\<close>

definition replacement :: bytes where
  "replacement = [CHR 0xEF, CHR 0xBF, CHR 0xBD]"

definition utf8_encode :: "nat \<Rightarrow> bytes" where
  "utf8_encode r =
     (if r < 0x80 then [char_of r]
      else if r < 0x800 then [char_of (0xC0 + r div 64), char_of (0x80 + r mod 64)]
      else if (0xD800 \<le> r \<and> r < 0xE000) \<or> 0x10FFFF < r then replacement
      else if r < 0x10000 then
        [char_of (0xE0 + r div 4096), char_of (0x80 + r div 64 mod 64), char_of (0x80 + r mod 64)]
      else
        [char_of (0xF0 + r div 262144), char_of (0x80 + r div 4096 mod 64),
         char_of (0x80 + r div 64 mod 64), char_of (0x80 + r mod 64)])"

subsection \<open>Lexer\<close>

datatype token =
  TLBrace | TRBrace | TLBrack | TRBrack | TColon | TComma | TTrue | TFalse | TNull
  | TStr bytes | TNum bytes

definition json_space :: "char \<Rightarrow> bool" where
  "json_space c = (byte c = 0x20 \<or> byte c = 0x09 \<or> byte c = 0x0A \<or> byte c = 0x0D)"

text \<open>Four hexadecimal digits of a \<open>\u\<close> escape.\<close>

definition hex4 :: "bytes \<Rightarrow> nat option" where
  "hex4 s =
     (case s of
        a # b # c # d # _ \<Rightarrow>
          (case (hex_val a, hex_val b, hex_val c, hex_val d) of
             (Some w, Some x, Some y, Some z) \<Rightarrow> Some (((w * 16 + x) * 16 + y) * 16 + z)
           | _ \<Rightarrow> None)
      | _ \<Rightarrow> None)"

definition simple_escape :: "char \<Rightarrow> char option" where
  "simple_escape c = map_of
     [(CHR 0x22, CHR 0x22), (CHR 0x5C, CHR 0x5C), (CHR ''/'', CHR ''/''), (CHR ''b'', CHR 0x08),
      (CHR ''f'', CHR 0x0C), (CHR ''n'', CHR 0x0A), (CHR ''r'', CHR 0x0D), (CHR ''t'', CHR 0x09)] c"

text \<open>
  A \<open>\u\<close> escape after its first four digits: a high surrogate followed by an escaped low one
  is one code point, any other surrogate is U+FFFD.  The result is the encoded rune and how
  many further bytes it consumed.
\<close>

definition unicode_escape :: "nat \<Rightarrow> bytes \<Rightarrow> bytes \<times> nat" where
  "unicode_escape r s =
     (if 0xD800 \<le> r \<and> r < 0xDC00 then
        (case s of
           b # u # t \<Rightarrow>
             if b = CHR 0x5C \<and> u = CHR ''u'' then
               (case hex4 t of
                  Some q \<Rightarrow>
                    if 0xDC00 \<le> q \<and> q < 0xE000
                    then (utf8_encode (0x10000 + (r - 0xD800) * 1024 + (q - 0xDC00)), 6)
                    else (replacement, 0)
                | None \<Rightarrow> (replacement, 0))
             else (replacement, 0)
         | _ \<Rightarrow> (replacement, 0))
      else (utf8_encode r, 0))"

text \<open>The contents of a string literal, from after the opening quote to after the closing one.\<close>

function lex_string :: "bytes \<Rightarrow> (bytes \<times> bytes) option" where
  "lex_string [] = None"
| "lex_string (c # s) =
     (if c = CHR 0x22 then Some ([], s)
      else if c = CHR 0x5C then
        (case s of
           [] \<Rightarrow> None
         | e # t \<Rightarrow>
             if e = CHR ''u'' then
               (case hex4 t of
                  None \<Rightarrow> None
                | Some r \<Rightarrow>
                    (case unicode_escape r (drop 4 t) of (out, n) \<Rightarrow>
                       map_option (\<lambda>(v, rest). (out @ v, rest)) (lex_string (drop (4 + n) t))))
             else (case simple_escape e of
                  None \<Rightarrow> None
                | Some d \<Rightarrow> map_option (\<lambda>(v, rest). (d # v, rest)) (lex_string t)))
      else if byte c < 0x20 then None
      else (case rune_len (c # s) of
          0 \<Rightarrow> map_option (\<lambda>(v, rest). (replacement @ v, rest)) (lex_string s)
        | Suc n \<Rightarrow> map_option (\<lambda>(v, rest). (c # take n s @ v, rest)) (lex_string (drop n s))))"
  by pat_completeness auto
termination
  by (relation "measure length") auto

declare lex_string.simps [simp del]

text \<open>
  A number literal: an optional minus, an integer part without leading zeros, an optional
  fraction and an optional exponent.  \<open>None\<close> if the text is not a number there.
\<close>

definition span_digits :: "bytes \<Rightarrow> bytes \<times> bytes" where
  "span_digits s = (takeWhile is_digit s, dropWhile is_digit s)"

definition lex_int :: "bytes \<Rightarrow> (bytes \<times> bytes) option" where
  "lex_int s =
     (case s of
        [] \<Rightarrow> None
      | c # t \<Rightarrow>
          if c = CHR ''0'' then Some ([c], t)
          else if is_digit c then Some (span_digits s)
          else None)"

definition lex_frac :: "bytes \<Rightarrow> (bytes \<times> bytes) option" where
  "lex_frac s =
     (case s of
        c # t \<Rightarrow>
          if c = CHR ''.'' then
            (case span_digits t of (ds, r) \<Rightarrow> if ds = [] then None else Some (c # ds, r))
          else Some ([], s)
      | [] \<Rightarrow> Some ([], []))"

definition lex_exp :: "bytes \<Rightarrow> (bytes \<times> bytes) option" where
  "lex_exp s =
     (case s of
        c # t \<Rightarrow>
          if lower_byte c = CHR ''e'' then
            (let (sg, u) = (case t of d # v \<Rightarrow> if d = CHR ''+'' \<or> d = CHR ''-'' then ([d], v) else ([], t)
                            | [] \<Rightarrow> ([], []))
             in case span_digits u of (ds, r) \<Rightarrow> if ds = [] then None else Some (c # sg @ ds, r))
          else Some ([], s)
      | [] \<Rightarrow> Some ([], []))"

definition lex_number :: "bytes \<Rightarrow> (bytes \<times> bytes) option" where
  "lex_number s =
     (let (sg, t) = (case s of c # u \<Rightarrow> if c = CHR ''-'' then ([c], u) else ([], s) | [] \<Rightarrow> ([], [])) in
      case lex_int t of
        None \<Rightarrow> None
      | Some (i, u) \<Rightarrow>
          (case lex_frac u of
             None \<Rightarrow> None
           | Some (f, v) \<Rightarrow>
               (case lex_exp v of
                  None \<Rightarrow> None
                | Some (e, r) \<Rightarrow> Some (sg @ i @ f @ e, r))))"

definition punct :: "char \<Rightarrow> token option" where
  "punct c = map_of
     [(CHR ''{'', TLBrace), (CHR ''}'', TRBrace), (CHR ''['', TLBrack), (CHR '']'', TRBrack),
      (CHR '':'', TColon), (CHR '','', TComma)] c"

definition keyword :: "bytes \<Rightarrow> (token \<times> bytes) option" where
  "keyword s =
     (if HasPrefix s ''true'' then Some (TTrue, drop 4 s)
      else if HasPrefix s ''false'' then Some (TFalse, drop 5 s)
      else if HasPrefix s ''null'' then Some (TNull, drop 4 s)
      else None)"

definition next_token :: "bytes \<Rightarrow> (token \<times> bytes) option" where
  "next_token s =
     (case s of
        [] \<Rightarrow> None
      | c # t \<Rightarrow>
          (case punct c of
             Some p \<Rightarrow> Some (p, t)
           | None \<Rightarrow>
               if c = CHR 0x22 then map_option (\<lambda>(v, r). (TStr v, r)) (lex_string t)
               else if c = CHR ''-'' \<or> is_digit c then map_option (\<lambda>(v, r). (TNum v, r)) (lex_number s)
               else keyword s))"

text \<open>The lexer always makes progress; the check keeps the definition total.\<close>

function tokenize :: "bytes \<Rightarrow> token list option" where
  "tokenize s =
     (case dropWhile json_space s of
        [] \<Rightarrow> Some []
      | c # t \<Rightarrow>
          (case next_token (c # t) of
             None \<Rightarrow> None
           | Some (tok, r) \<Rightarrow>
               if length r < length s then map_option ((#) tok) (tokenize r) else None))"
  by pat_completeness auto
termination
  by (relation "measure length") auto

declare tokenize.simps [simp del]

subsection \<open>Parser\<close>

datatype frame = FArr "json list" | FObj "(bytes \<times> json) list" bytes

datatype expect =
    EValue | EValueOrEnd | EKey "(bytes \<times> json) list" | EKeyOrEnd
  | EColon "(bytes \<times> json) list" bytes | EDone json

definition max_depth :: nat where
  "max_depth = 10000"

text \<open>
  One value from a token list.  The stack holds the enclosing arrays and objects; \<open>EDone v\<close>
  says that the value \<open>v\<close> has just been completed.
\<close>

fun jparse :: "token list \<Rightarrow> frame list \<Rightarrow> expect \<Rightarrow> (json \<times> token list) option" where
  "jparse ts [] (EDone v) = Some (v, ts)"
| "jparse [] st e = None"
| "jparse (t # ts) (FArr vs # st) (EDone v) =
     (case t of
        TComma \<Rightarrow> jparse ts (FArr (vs @ [v]) # st) EValue
      | TRBrack \<Rightarrow> jparse ts st (EDone (JArr (vs @ [v])))
      | _ \<Rightarrow> None)"
| "jparse (t # ts) (FObj ms k # st) (EDone v) =
     (case t of
        TComma \<Rightarrow> jparse ts st (EKey (ms @ [(k, v)]))
      | TRBrace \<Rightarrow> jparse ts st (EDone (JObj (ms @ [(k, v)])))
      | _ \<Rightarrow> None)"
| "jparse (t # ts) st EKeyOrEnd =
     (case t of
        TRBrace \<Rightarrow> jparse ts st (EDone (JObj []))
      | TStr k \<Rightarrow> jparse ts st (EColon [] k)
      | _ \<Rightarrow> None)"
| "jparse (t # ts) st (EKey ms) =
     (case t of TStr k \<Rightarrow> jparse ts st (EColon ms k) | _ \<Rightarrow> None)"
| "jparse (t # ts) st (EColon ms k) =
     (case t of
        TColon \<Rightarrow> jparse ts (FObj ms k # st) EValue
      | _ \<Rightarrow> None)"
| "jparse (t # ts) st e =
     (case t of
        TRBrack \<Rightarrow> if e = EValueOrEnd then
            (case st of FArr [] # st' \<Rightarrow> jparse ts st' (EDone (JArr [])) | _ \<Rightarrow> None) else None
      | TStr v \<Rightarrow> jparse ts st (EDone (JStr v))
      | TNum v \<Rightarrow> jparse ts st (EDone (JNum v))
      | TTrue \<Rightarrow> jparse ts st (EDone (JBool True))
      | TFalse \<Rightarrow> jparse ts st (EDone (JBool False))
      | TNull \<Rightarrow> jparse ts st (EDone JNull)
      | TLBrace \<Rightarrow> if length st < max_depth then jparse ts st EKeyOrEnd else None
      | TLBrack \<Rightarrow> if length st < max_depth then jparse ts (FArr [] # st) EValueOrEnd else None
      | _ \<Rightarrow> None)"

text \<open>A text that holds exactly one value, with white space around it.\<close>

definition json_decode :: "bytes \<Rightarrow> json option" where
  "json_decode s =
     (case tokenize s of
        None \<Rightarrow> None
      | Some ts \<Rightarrow> (case jparse ts [] EValue of Some (v, []) \<Rightarrow> Some v | _ \<Rightarrow> None))"

subsection \<open>Encoder\<close>

definition hex2 :: "nat \<Rightarrow> bytes" where
  "hex2 n = [hex_digit (n div 16), hex_digit (n mod 16)]"

text \<open>
  One byte below 0x80 in a string, without HTML escaping (\<open>SetEscapeHTML(false)\<close>).
\<close>

definition escape_byte :: "char \<Rightarrow> bytes" where
  "escape_byte c =
     (if c = CHR 0x22 \<or> c = CHR 0x5C then [CHR 0x5C, c]
      else if byte c = 0x08 then [CHR 0x5C, CHR ''b'']
      else if byte c = 0x0C then [CHR 0x5C, CHR ''f'']
      else if byte c = 0x0A then [CHR 0x5C, CHR ''n'']
      else if byte c = 0x0D then [CHR 0x5C, CHR ''r'']
      else if byte c = 0x09 then [CHR 0x5C, CHR ''t'']
      else if byte c < 0x20 then CHR 0x5C # ''u00'' @ hex2 (byte c)
      else [c])"

function escape_string :: "bytes \<Rightarrow> bytes" where
  "escape_string [] = []"
| "escape_string (c # s) =
     (if byte c < 0x80 then escape_byte c @ escape_string s
      else (case rune_len (c # s) of
          0 \<Rightarrow> CHR 0x5C # ''ufffd'' @ escape_string s
        | Suc n \<Rightarrow>
            (let r = c # take n s in
             (if r = [CHR 0xE2, CHR 0x80, CHR 0xA8] then CHR 0x5C # ''u2028''
              else if r = [CHR 0xE2, CHR 0x80, CHR 0xA9] then CHR 0x5C # ''u2029''
              else r) @ escape_string (drop n s))))"
  by pat_completeness auto
termination
  by (relation "measure length") auto

declare escape_string.simps [simp del]

definition quote :: "bytes \<Rightarrow> bytes" where
  "quote s = CHR 0x22 # escape_string s @ [CHR 0x22]"

text \<open>
  A float member: NaN and infinities cannot be encoded; very small and very large magnitudes are
  written with an exponent, without leading zeros in it.
\<close>

definition exp_text :: "rat \<Rightarrow> bytes" where
  "exp_text x =
     (case shortest_dec x of (m, j) \<Rightarrow>
      let ds = rev (dropWhile (\<lambda>c. c = CHR ''0'') (rev (digits_of m)));
          e = int (length (digits_of m)) - 1 + j
      in [hd ds] @ (if tl ds = [] then [] else CHR ''.'' # tl ds) @ ''e'' @
         (if e < 0 then ''-'' else ''+'') @ digits_of \<bar>e\<bar>)"

definition json_float :: "float64 \<Rightarrow> json" where
  "json_float x =
     (case x of
        NaN \<Rightarrow> JUnsupported ''NaN''
      | Inf s \<Rightarrow> JUnsupported (if s then ''-Inf'' else ''+Inf'')
      | NegZero \<Rightarrow> JNum ''-0''
      | Fin r \<Rightarrow>
          if r \<noteq> 0 \<and> (\<bar>r\<bar> < fval (fround (1 / 10 ^ 6)) \<or> 10 ^ 21 \<le> \<bar>r\<bar>)
          then JNum ((if r < 0 then ''-'' else []) @ exp_text \<bar>r\<bar>)
          else JNum (FormatShortest x))"

fun res_all :: "'a res list \<Rightarrow> 'a list res" where
  "res_all [] = Inr []"
| "res_all (r # rs) = rbind r (\<lambda>x. rbind (res_all rs) (\<lambda>xs. Inr (x # xs)))"

fun json_encode :: "json \<Rightarrow> bytes res" where
  "json_encode JNull = Inr ''null''"
| "json_encode (JBool b) = Inr (if b then ''true'' else ''false'')"
| "json_encode (JNum v) = Inr v"
| "json_encode (JStr s) = Inr (quote s)"
| "json_encode (JArr vs) =
     rbind (res_all (map json_encode vs)) (\<lambda>es. Inr (CHR ''['' # Join es '','' @ '']''))"
| "json_encode (JObj ms) =
     rbind (res_all (map (\<lambda>(k, v). rbind (json_encode v) (\<lambda>e. Inr (quote k @ '':'' @ e))) ms))
       (\<lambda>es. Inr (CHR ''{'' # Join es '','' @ ''}''))"
| "json_encode (JUnsupported t) = Inl (''json: unsupported value: '' @ t)"

subsection \<open>Strings that need no escaping\<close>

text \<open>Printable ASCII without quotes and backslashes is written and read as it is.\<close>

definition plain_char :: "char \<Rightarrow> bool" where
  "plain_char c = (0x20 \<le> byte c \<and> byte c < 0x80 \<and> c \<noteq> CHR 0x22 \<and> c \<noteq> CHR 0x5C)"

lemma lex_string_plain: "list_all plain_char s \<Longrightarrow> lex_string (s @ CHR 0x22 # t) = Some (s, t)"
  by (induction s) (auto simp: lex_string.simps rune_len_def plain_char_def)

lemma escape_string_plain: "list_all plain_char s \<Longrightarrow> escape_string s = s"
  by (induction s) (auto simp: escape_string.simps escape_byte_def plain_char_def)

lemma quote_plain: "list_all plain_char s \<Longrightarrow> quote s = CHR 0x22 # s @ [CHR 0x22]"
  by (simp add: quote_def escape_string_plain)

lemma tokenize_punct: "punct c = Some p \<Longrightarrow> \<not> json_space c \<Longrightarrow> tokenize (c # s) = map_option ((#) p) (tokenize s)"
  by (subst tokenize.simps) (simp add: next_token_def)

lemma tokenize_string:
  assumes "list_all plain_char s"
  shows "tokenize (CHR 0x22 # s @ CHR 0x22 # t) = map_option ((#) (TStr s)) (tokenize t)"
  by (subst tokenize.simps) (simp add: next_token_def json_space_def punct_def lex_string_plain [OF assms])

lemma tokenize_true: "tokenize (''true'' @ s) = map_option ((#) TTrue) (tokenize s)"
  by (subst tokenize.simps)
    (simp add: next_token_def json_space_def punct_def is_digit_def keyword_def HasPrefix_def)

lemma tokenize_end: "json_space c \<Longrightarrow> tokenize [c] = Some []" "tokenize [] = Some []"
  by (subst tokenize.simps, simp)+

lemmas tokenize_steps = tokenize_punct tokenize_string tokenize_true tokenize_end

end
