(* ===== verification/Protocol.thy ===== *)
theory Protocol
  imports Json Sha256
begin

text \<open>
  The authenticated command protocol of the bridge (\<open>bridge_service/src/main.go\<close>): the
  \<open>Command\<close> and \<open>Response\<close> structs, the canonical payloads that are signed, HMAC signing and
  verification in both directions, and the strict decoding of a command line.

  A response's \<open>Data\<close> is the JSON tree that \<open>encoding/json\<close> derives from the Go value.
\<close>

record Command =
  cAction :: bytes
  cValue :: float64
  cTarget :: bytes
  cTimestamp :: int
  cNonce :: bytes
  cAuth :: bytes

record Response =
  rStatus :: bytes
  rMessage :: bytes
  rData :: json
  rRequestNonce :: bytes
  rAuth :: bytes

abbreviation newline :: char where "newline \<equiv> CHR 0x0A"

subsection \<open>Commands\<close>

definition commandPayload :: "Command \<Rightarrow> bytes" where
  "commandPayload cmd =
     (let payload = cAction cmd @ [newline] @ FormatFixed 6 (cValue cmd) @ [newline] @
        FormatInt (cTimestamp cmd) @ [newline] @ cNonce cmd
      in if cTarget cmd \<noteq> [] then payload @ [newline] @ cTarget cmd else payload)"

definition signCommand :: "Command \<Rightarrow> bytes \<Rightarrow> bytes" where
  "signCommand cmd secret = hex_EncodeToString (hmac_sha256 secret (commandPayload cmd))"

definition authenticateCommand :: "Command \<Rightarrow> bytes \<Rightarrow> bool" where
  "authenticateCommand cmd secret =
     (if secret = [] \<or> cAuth cmd = [] then False
      else (case hex_DecodeString (cAuth cmd) of
        None \<Rightarrow> False
      | Some provided \<Rightarrow> hmac_sha256 secret (commandPayload cmd) = provided))"

subsection \<open>Responses\<close>

text \<open>A length-prefixed field: \<open>fmt.Fprintf(&payload, "%d:", len(field))\<close> and the field itself.\<close>

definition field_text :: "bytes \<Rightarrow> bytes" where
  "field_text f = FormatInt (int (length f)) @ CHR '':'' # f"

definition responsePayload :: "Response \<Rightarrow> bytes res" where
  "responsePayload r =
     rbind (json_encode (rData r)) (\<lambda>dataJSON.
       Inr (concat (map field_text [rRequestNonce r, rStatus r, rMessage r, dataJSON])))"

definition signResponse :: "Response \<Rightarrow> bytes \<Rightarrow> bytes res" where
  "signResponse r secret =
     (if secret = [] then Inl ''response signing secret is empty''
      else (case responsePayload r of
        Inl e \<Rightarrow> Inl (''canonicalize response: '' @ e)
      | Inr payload \<Rightarrow> Inr (hex_EncodeToString (hmac_sha256 secret payload))))"

definition authenticateResponse :: "Response \<Rightarrow> bytes \<Rightarrow> bytes \<Rightarrow> bool" where
  "authenticateResponse r secret expectedNonce =
     (if secret = [] \<or> expectedNonce = [] \<or> rRequestNonce r \<noteq> expectedNonce then False
      else (case hex_DecodeString (rAuth r) of
        None \<Rightarrow> False
      | Some provided \<Rightarrow>
          if length provided \<noteq> 32 then False
          else (case signResponse r secret of
            Inl _ \<Rightarrow> False
          | Inr expected \<Rightarrow>
              (case hex_DecodeString expected of
                 None \<Rightarrow> False
               | Some decodedExpected \<Rightarrow> decodedExpected = provided))))"

text \<open>
  \<open>authenticatedResponseEncoder.Encode\<close>: the nonce of the current request is bound into the
  response, the response is signed, and what is written to the connection is the result.
\<close>

definition encodeResponse :: "bytes \<Rightarrow> bytes \<Rightarrow> Response \<Rightarrow> Response res" where
  "encodeResponse secret requestNonce r =
     (let r1 = r\<lparr>rRequestNonce := requestNonce\<rparr> in
      rbind (signResponse r1 secret) (\<lambda>auth. Inr (r1\<lparr>rAuth := auth\<rparr>)))"

subsection \<open>Decoding a command line\<close>

definition allowed_fields :: "bytes list" where
  "allowed_fields = [''action'', ''value'', ''target'', ''timestamp'', ''nonce'', ''auth'']"

text \<open>
  \<open>rejectAmbiguousCommandJSON\<close>: the line is one JSON object and nothing else, every member
  name is one of the six protocol names exactly as written, and none occurs twice.
\<close>

definition rejectAmbiguousCommandJSON :: "bytes \<Rightarrow> bool" where
  "rejectAmbiguousCommandJSON line =
     (case json_decode line of
        Some (JObj ms) \<Rightarrow>
          \<not> (list_all (\<lambda>k. k \<in> set allowed_fields) (map fst ms) \<and> distinct (map fst ms))
      | _ \<Rightarrow> True)"

text \<open>
  Storing one member in the struct, by the type of its field: \<open>null\<close> leaves the field alone,
  a value of another type or a number out of range is an error.
\<close>

definition set_field :: "bytes \<times> json \<Rightarrow> Command \<Rightarrow> Command option" where
  "set_field m cmd =
     (case m of (k, v) \<Rightarrow>
        if v = JNull then Some cmd
        else if k = ''value'' then
          (case v of
             JNum lit \<Rightarrow> (case ParseFloat lit of (x, ok) \<Rightarrow> if ok then Some (cmd\<lparr>cValue := x\<rparr>) else None)
           | _ \<Rightarrow> None)
        else if k = ''timestamp'' then
          (case v of
             JNum lit \<Rightarrow> map_option (\<lambda>i. cmd\<lparr>cTimestamp := i\<rparr>) (Atoi lit)
           | _ \<Rightarrow> None)
        else (case v of
             JStr s \<Rightarrow>
               if k = ''action'' then Some (cmd\<lparr>cAction := s\<rparr>)
               else if k = ''target'' then Some (cmd\<lparr>cTarget := s\<rparr>)
               else if k = ''nonce'' then Some (cmd\<lparr>cNonce := s\<rparr>)
               else if k = ''auth'' then Some (cmd\<lparr>cAuth := s\<rparr>)
               else None
           | _ \<Rightarrow> None))"

definition emptyCommand :: Command where
  "emptyCommand = \<lparr>cAction = [], cValue = Fin 0, cTarget = [], cTimestamp = 0, cNonce = [], cAuth = []\<rparr>"

fun set_fields :: "(bytes \<times> json) list \<Rightarrow> Command \<Rightarrow> Command option" where
  "set_fields [] cmd = Some cmd"
| "set_fields (m # ms) cmd = (case set_field m cmd of None \<Rightarrow> None | Some cmd' \<Rightarrow> set_fields ms cmd')"

definition decodeCommandStrict :: "bytes \<Rightarrow> Command option" where
  "decodeCommandStrict line =
     (if rejectAmbiguousCommandJSON line then None
      else (case json_decode line of
        Some (JObj ms) \<Rightarrow> set_fields ms emptyCommand
      | _ \<Rightarrow> None))"

subsection \<open>Laws of the field encoding\<close>

lemma colon_notin_FormatInt: "CHR '':'' \<notin> set (FormatInt i)"
  using FormatInt_chars [of "CHR '':''" i] by (auto simp: is_digit_def)

lemma newline_notin_FormatInt: "newline \<notin> set (FormatInt i)"
  using FormatInt_chars [of newline i] by (auto simp: is_digit_def)

lemma field_text_append:
  "field_text f @ x = field_text g @ y \<longleftrightarrow> f = g \<and> x = y"
proof
  assume "field_text f @ x = field_text g @ y"
  then have "FormatInt (int (length f)) @ CHR '':'' # (f @ x) =
      FormatInt (int (length g)) @ CHR '':'' # (g @ y)"
    by (simp add: field_text_def)
  then have "FormatInt (int (length f)) = FormatInt (int (length g)) \<and> f @ x = g @ y"
    by (rule split_at_sep) (rule colon_notin_FormatInt)+
  then have "length f = length g" and "f @ x = g @ y" by simp_all
  then show "f = g \<and> x = y" by simp
qed simp

lemma fields_text_inject:
  "concat (map field_text fs) = concat (map field_text gs) \<Longrightarrow> length fs = length gs \<Longrightarrow> fs = gs"
proof (induction fs arbitrary: gs)
  case Nil
  then show ?case by simp
next
  case (Cons f fs)
  then obtain g gs' where gs: "gs = g # gs'" by (cases gs) auto
  with Cons show ?case by (simp add: field_text_append)
qed

lemma signResponse_Inr:
  "signResponse r secret = Inr a \<longleftrightarrow>
     secret \<noteq> [] \<and> (\<exists>p. responsePayload r = Inr p \<and> a = hex_EncodeToString (hmac_sha256 secret p))"
  by (auto simp: signResponse_def split: sum.splits if_splits)

lemma responsePayload_auth [simp]: "responsePayload (r\<lparr>rAuth := a\<rparr>) = responsePayload r"
  by (simp add: responsePayload_def)

lemma signResponse_auth [simp]: "signResponse (r\<lparr>rAuth := a\<rparr>) s = signResponse r s"
  by (simp add: signResponse_def)

lemma authenticateCommand_iff:
  "authenticateCommand cmd secret \<longleftrightarrow>
     secret \<noteq> [] \<and> cAuth cmd \<noteq> [] \<and>
     hex_DecodeString (cAuth cmd) = Some (hmac_sha256 secret (commandPayload cmd))"
  by (auto simp: authenticateCommand_def split: option.splits)

lemma commandPayload_auth [simp]: "commandPayload (cmd\<lparr>cAuth := a\<rparr>) = commandPayload cmd"
  by (simp add: commandPayload_def Let_def)

lemma signCommand_authentic:
  assumes "secret \<noteq> []"
  shows "authenticateCommand (cmd\<lparr>cAuth := signCommand cmd secret\<rparr>) secret"
proof -
  have "length (signCommand cmd secret) = 64" by (simp add: signCommand_def)
  then have "signCommand cmd secret \<noteq> []" by auto
  with assms show ?thesis by (simp add: authenticateCommand_iff) (simp add: signCommand_def)
qed

lemma encodeResponse_bound:
  assumes "encodeResponse secret nonce r = Inr r'" and "nonce \<noteq> []"
  shows "authenticateResponse r' secret n = (n = nonce) \<and>
    rStatus r' = rStatus r \<and> rMessage r' = rMessage r \<and> rData r' = rData r"
proof -
  obtain a where a: "signResponse (r\<lparr>rRequestNonce := nonce\<rparr>) secret = Inr a"
    "r' = r\<lparr>rRequestNonce := nonce, rAuth := a\<rparr>"
    using assms(1) by (auto simp: encodeResponse_def Let_def rbind_Inr)
  then obtain p where p: "secret \<noteq> []" "a = hex_EncodeToString (hmac_sha256 secret p)"
    by (auto simp: signResponse_Inr)
  with a assms(2) show ?thesis
    by (cases "n = nonce") (simp_all add: authenticateResponse_def)
qed

subsection \<open>Laws of decoding\<close>

text \<open>The field a member is stored in.\<close>

definition string_field :: "bytes \<Rightarrow> Command \<Rightarrow> bytes" where
  "string_field k cmd =
     (if k = ''action'' then cAction cmd else if k = ''target'' then cTarget cmd
      else if k = ''nonce'' then cNonce cmd else if k = ''auth'' then cAuth cmd else [])"

definition string_names :: "bytes list" where
  "string_names = [''action'', ''target'', ''nonce'', ''auth'']"

lemma set_field_cases:
  assumes "set_field (k, v) cmd = Some cmd'"
  shows "cmd' = cmd \<or> (\<exists>x. cmd' = cmd\<lparr>cValue := x\<rparr>) \<or> (\<exists>i. cmd' = cmd\<lparr>cTimestamp := i\<rparr>) \<or>
    (k = ''action'' \<and> (\<exists>s. cmd' = cmd\<lparr>cAction := s\<rparr>)) \<or> (k = ''target'' \<and> (\<exists>s. cmd' = cmd\<lparr>cTarget := s\<rparr>)) \<or>
    (k = ''nonce'' \<and> (\<exists>s. cmd' = cmd\<lparr>cNonce := s\<rparr>)) \<or> (k = ''auth'' \<and> (\<exists>s. cmd' = cmd\<lparr>cAuth := s\<rparr>))"
proof (cases v)
  case (JNum lit)
  then have "(\<exists>x. cmd' = cmd\<lparr>cValue := x\<rparr>) \<or> (\<exists>i. cmd' = cmd\<lparr>cTimestamp := i\<rparr>)"
    using assms unfolding set_field_def
    by (cases "k = ''value''"; cases "k = ''timestamp''") (auto split: prod.splits if_splits)
  then show ?thesis by blast
next
  case (JStr s)
  then have "k = ''action'' \<and> cmd' = cmd\<lparr>cAction := s\<rparr> \<or> k = ''target'' \<and> cmd' = cmd\<lparr>cTarget := s\<rparr> \<or>
    k = ''nonce'' \<and> cmd' = cmd\<lparr>cNonce := s\<rparr> \<or> k = ''auth'' \<and> cmd' = cmd\<lparr>cAuth := s\<rparr>"
    using assms unfolding set_field_def by (simp split: if_splits)
  then show ?thesis by blast
qed (use assms in \<open>simp_all add: set_field_def split: if_splits\<close>)

lemma set_field_other:
  assumes "set_field (k', v) cmd = Some cmd'" and "k \<noteq> k'"
  shows "string_field k cmd' = string_field k cmd"
  using set_field_cases [OF assms(1)] assms(2)
  by (elim disjE conjE exE) (simp_all add: string_field_def)

lemma set_field_string:
  "set_field (k, JStr x) cmd = Some cmd' \<Longrightarrow> k \<in> set string_names \<Longrightarrow> string_field k cmd' = x"
  by (auto simp: set_field_def string_field_def string_names_def split: if_splits)

lemma set_fields_other:
  "set_fields ms cmd = Some cmd' \<Longrightarrow> k \<notin> fst ` set ms \<Longrightarrow> string_field k cmd' = string_field k cmd"
  by (induction ms arbitrary: cmd) (auto split: option.splits dest!: set_field_other [of _ _ _ _ k])

lemma set_fields_string:
  assumes "set_fields ms cmd = Some cmd'" "distinct (map fst ms)" "(k, JStr x) \<in> set ms" "k \<in> set string_names"
  shows "string_field k cmd' = x"
  using assms
proof (induction ms arbitrary: cmd)
  case Nil
  then show ?case by simp
next
  case (Cons m ms)
  then obtain cmd1 where c: "set_field m cmd = Some cmd1" "set_fields ms cmd1 = Some cmd'"
    by (auto split: option.splits)
  show ?case
  proof (cases "m = (k, JStr x)")
    case True
    with Cons.prems c have "string_field k cmd' = string_field k cmd1"
      by (intro set_fields_other) auto
    with True c Cons.prems show ?thesis using set_field_string by simp
  next
    case False
    with Cons c show ?thesis by auto
  qed
qed

subsection \<open>Properties\<close>

text \<open>A command signed with a non-empty secret is accepted by the verifier with that secret.\<close>

theorem sign_authenticate_roundtrip:
  assumes "secret \<noteq> []"
  shows "authenticateCommand (cmd\<lparr>cAuth := signCommand cmd secret\<rparr>) secret"
  using signCommand_authentic [OF assms] .

theorem sign_authenticate_roundtrip_witness:
  "authenticateCommand (emptyCommand\<lparr>cAuth := signCommand emptyCommand ''k''\<rparr>) ''k''"
  using sign_authenticate_roundtrip [of "''k''" emptyCommand] by simp

text \<open>The length-prefixed response payload is unambiguous: two responses with the same signed payload
  have the same request nonce, status, message and encoded data, whatever bytes these contain.\<close>

theorem response_payload_injective:
  assumes "responsePayload r1 = Inr p" and "responsePayload r2 = Inr p"
  shows "rRequestNonce r1 = rRequestNonce r2 \<and> rStatus r1 = rStatus r2 \<and> rMessage r1 = rMessage r2 \<and>
    json_encode (rData r1) = json_encode (rData r2)"
proof -
  obtain d1 d2 where d: "json_encode (rData r1) = Inr d1" "json_encode (rData r2) = Inr d2"
    using assms by (auto simp: responsePayload_def rbind_Inr)
  have "[rRequestNonce r1, rStatus r1, rMessage r1, d1] = [rRequestNonce r2, rStatus r2, rMessage r2, d2]"
    using assms d by (intro fields_text_inject) (simp_all add: responsePayload_def)
  with d show ?thesis by simp
qed

definition okResponse :: Response where
  "okResponse = \<lparr>rStatus = ''SUCCESS'', rMessage = ''4:x'', rData = JNull, rRequestNonce = ''ab'', rAuth = []\<rparr>"

theorem response_payload_injective_witness:
  "responsePayload (okResponse\<lparr>rAuth := ''00''\<rparr>) = responsePayload okResponse \<and>
   rMessage (okResponse\<lparr>rAuth := ''00''\<rparr>) = rMessage okResponse"
proof -
  have p: "responsePayload okResponse = Inr (concat (map field_text [''ab'', ''SUCCESS'', ''4:x'', ''null'']))"
    "responsePayload (okResponse\<lparr>rAuth := ''00''\<rparr>) = Inr (concat (map field_text [''ab'', ''SUCCESS'', ''4:x'', ''null'']))"
    by (simp_all add: responsePayload_def okResponse_def)
  from response_payload_injective [OF p(2,1)] p show ?thesis by simp
qed

text \<open>A response sent for a request nonce verifies for that nonce and for no other, and carries the
  status, message and data it was built from.\<close>

theorem response_bound_to_request:
  assumes "encodeResponse secret nonce r = Inr r'" and "nonce \<noteq> []"
  shows "authenticateResponse r' secret n = (n = nonce) \<and>
    rStatus r' = rStatus r \<and> rMessage r' = rMessage r \<and> rData r' = rData r"
  using encodeResponse_bound [OF assms] .

theorem response_bound_to_request_witness:
  "authenticateResponse (projr (encodeResponse ''k'' ''ab'' okResponse)) ''k'' ''ab'' \<and>
   \<not> authenticateResponse (projr (encodeResponse ''k'' ''ab'' okResponse)) ''k'' ''cd''"
proof -
  have "\<exists>r'. encodeResponse ''k'' ''ab'' okResponse = Inr r'"
    by (simp add: encodeResponse_def signResponse_def responsePayload_def okResponse_def)
  then obtain r' where r': "encodeResponse ''k'' ''ab'' okResponse = Inr r'" ..
  show ?thesis
    using response_bound_to_request [OF r', of "''ab''"] response_bound_to_request [OF r', of "''cd''"] r' by simp
qed

text \<open>C11: strict decoding accepts a line only if it is one JSON object whose member names are protocol
  names, each at most once; a string member is then stored in exactly its own field.\<close>

theorem decode_strict:
  assumes "decodeCommandStrict line = Some cmd"
  shows "\<exists>ms. json_decode line = Some (JObj ms) \<and> set (map fst ms) \<subseteq> set allowed_fields \<and> distinct (map fst ms) \<and>
    (\<forall>k \<in> set string_names. (\<forall>x. (k, JStr x) \<in> set ms \<longrightarrow> string_field k cmd = x) \<and>
      (k \<notin> set (map fst ms) \<longrightarrow> string_field k cmd = []))"
proof -
  obtain ms where ms: "json_decode line = Some (JObj ms)" "set_fields ms emptyCommand = Some cmd"
    "set (map fst ms) \<subseteq> set allowed_fields" "distinct (map fst ms)"
    using assms
    by (auto simp: decodeCommandStrict_def rejectAmbiguousCommandJSON_def list_all_iff
        split: if_splits option.splits json.splits)
  have "string_field k emptyCommand = []" for k by (simp add: string_field_def emptyCommand_def)
  with set_fields_string [OF ms(2,4)] set_fields_other [OF ms(2)] ms show ?thesis
    by (intro exI [of _ ms]) (simp add: ms)
qed

theorem decode_strict_witness:
  "string_field ''nonce'' (the (decodeCommandStrict (CHR ''{'' # CHR 0x22 # ''nonce'' @ CHR 0x22 # CHR '':'' # CHR 0x22 # ''ab'' @ CHR 0x22 # ''}''))) = ''ab''"
proof -
  have e: "decodeCommandStrict (CHR ''{'' # CHR 0x22 # ''nonce'' @ CHR 0x22 # CHR '':'' # CHR 0x22 # ''ab'' @ CHR 0x22 # ''}'') =
      Some (emptyCommand\<lparr>cNonce := ''ab''\<rparr>)"
    "json_decode (CHR ''{'' # CHR 0x22 # ''nonce'' @ CHR 0x22 # CHR '':'' # CHR 0x22 # ''ab'' @ CHR 0x22 # ''}'') =
      Some (JObj [(''nonce'', JStr ''ab'')])"
    by code_simp+
  from decode_strict [OF e(1)] e show ?thesis by (simp add: string_names_def)
qed

end
