(* ===== verification/Hardware.thy ===== *)
theory Hardware
  imports Json
begin

text \<open>
  The data the bridge reports about the machine: fan channels, storage volumes, the battery and
  the \<open>HardwareMetrics\<close> struct of \<open>main.go\<close>, the float predicates of \<open>health.go\<close>, and the
  construction of battery metrics.
\<close>

subsection \<open>Float predicates\<close>

definition isFinitePositive :: "float64 \<Rightarrow> bool" where
  "isFinitePositive v = (\<not> IsNaN v \<and> \<not> IsInf v \<and> flt (Fin 0) v)"

definition isFiniteNonNegative :: "float64 \<Rightarrow> bool" where
  "isFiniteNonNegative v = (\<not> IsNaN v \<and> \<not> IsInf v \<and> fle (Fin 0) v)"

definition isValidTemperature :: "float64 \<Rightarrow> bool" where
  "isValidTemperature v = (\<not> IsNaN v \<and> \<not> IsInf v \<and> fle (Fin (- 20)) v \<and> fle v (Fin 125))"

lemma isFinitePositive_iff: "isFinitePositive v \<longleftrightarrow> is_fin v \<and> 0 < fval v"
  unfolding isFinitePositive_def is_fin_def [symmetric, unfolded is_fin_def]
  by (cases v) (auto simp: IsNaN_def IsInf_def)

lemma isFiniteNonNegative_iff: "isFiniteNonNegative v \<longleftrightarrow> is_fin v \<and> 0 \<le> fval v"
  by (cases v) (auto simp: isFiniteNonNegative_def IsNaN_def IsInf_def)

lemma isValidTemperature_iff:
  "isValidTemperature v \<longleftrightarrow> is_fin v \<and> - 20 \<le> fval v \<and> fval v \<le> 125"
  by (cases v) (auto simp: isValidTemperature_def IsNaN_def IsInf_def)

lemmas float_preds = isFinitePositive_iff isFiniteNonNegative_iff isValidTemperature_iff

subsection \<open>Structs\<close>

record FanControlInfo =
  fciSupported :: bool
  fciBackend :: bytes
  fciHandle :: bytes
  fciReason :: bytes

record FanChannel =
  chID :: bytes
  chName :: bytes
  chBackend :: bytes
  chSupported :: bool
  chFanRPM :: float64
  chRPMAvailable :: bool
  chFanPercent :: float64
  chPercentAvailable :: bool
  chReason :: bytes

record BatteryMetrics =
  batPresent :: bool
  batStatus :: bytes
  batDataAvailable :: bool
  batDesignCapacity :: float64
  batFullChargeCapacity :: float64
  batCapacityUnit :: bytes
  batHealthPercent :: float64
  batCycleCount :: "int option"

record StorageVolume =
  svMountPoint :: bytes
  svDevice :: bytes
  svDeviceType :: bytes
  svDeviceTypeSource :: bytes
  svRemovable :: bool
  svFileSystem :: bytes
  svOptions :: bytes
  svTotalBytes :: "64 word"
  svUsedBytes :: "64 word"
  svFreeBytes :: "64 word"
  svUsagePercent :: float64
  svReadBytesPerSec :: float64
  svWriteBytesPerSec :: float64
  svTemperatureC :: "float64 option"
  svHealthPercent :: "float64 option"
  svHealthStatus :: bytes
  svHealthSource :: bytes
  svHealthReason :: bytes

record HardwareMetrics =
  GameModeEnabled :: bool
  GameDetected :: bool
  GameProcessName :: bytes
  GameProcessPID :: "32 word"
  GameDetectedAt :: bytes
  GameSessionDurationSeconds :: int
  SystemManufacturer :: bytes
  SystemModel :: bytes
  SystemVersion :: bytes
  BIOSVendor :: bytes
  BIOSVersion :: bytes
  MotherboardVendor :: bytes
  MotherboardModel :: bytes
  MotherboardVersion :: bytes
  CPUManufacturer :: bytes
  CPUModel :: bytes
  CPUArchitecture :: bytes
  CPUPhysicalCores :: int
  CPUThreads :: int
  GPUModel :: bytes
  DetectionSource :: bytes
  DetectionStatus :: bytes
  SerialsExcluded :: bool
  CPUUsage :: float64
  CPUPerCoreUsage :: "float64 list"
  CPUCoreCount :: int
  CPUFrequencyMHz :: float64
  CPUTemperature :: float64
  CPUTemperatureSource :: bytes
  GPUTemperature :: float64
  GPUTemperatureSource :: bytes
  MetricsCollectedAt :: bytes
  GPUUsage :: float64
  GPUMemoryUsage :: float64
  GPUPowerLimitWatts :: float64
  GPUPState :: bytes
  GPUEncoderUsage :: float64
  GPUDecoderUsage :: float64
  FanPercent :: float64
  FanPercentSource :: bytes
  FanRPM :: float64
  FanRPMSource :: bytes
  MemoryUsage :: float64
  MemoryTotalBytes :: "64 word"
  DiskUsage :: float64
  DiskTotalBytes :: "64 word"
  StorageVolumes :: "StorageVolume list"
  PowerWatts :: float64
  Voltage :: float64
  UptimeSeconds :: "64 word"
  Platform :: bytes
  GPUVendor :: bytes
  GPUName :: bytes
  GPUDriver :: bytes
  GPUDriverProvider :: bytes
  GPUDriverVersion :: bytes
  GPUDriverStatus :: bytes
  GPUDriverSource :: bytes
  GPUDriverAction :: bytes
  GPUDriverReason :: bytes
  GPUMemoryUsedBytes :: "64 word"
  GPUMemoryTotalBytes :: "64 word"
  GPUCoreClockMHz :: float64
  GPUMemoryClockMHz :: float64
  SensorSource :: bytes
  FanControlSupported :: bool
  FanControlBackend :: bytes
  FanChannels :: "FanChannel list"
  HardwareControlMode :: bytes
  ThermalSafetyAvailable :: bool
  Battery :: BatteryMetrics

subsection \<open>Battery\<close>

definition emptyBattery :: BatteryMetrics where
  "emptyBattery = \<lparr>batPresent = False, batStatus = [], batDataAvailable = False,
     batDesignCapacity = Fin 0, batFullChargeCapacity = Fin 0, batCapacityUnit = [],
     batHealthPercent = Fin 0, batCycleCount = None\<rparr>"

definition makeBatteryMetrics ::
  "bool \<Rightarrow> bytes \<Rightarrow> float64 \<Rightarrow> float64 \<Rightarrow> bytes \<Rightarrow> int option \<Rightarrow> BatteryMetrics" where
  "makeBatteryMetrics present status design full unit cycles =
     (let result = emptyBattery\<lparr>batPresent := present, batStatus := status,
            batCapacityUnit := unit, batCycleCount := cycles\<rparr>
      in if \<not> present \<or> \<not> isFinitePositive design \<or> \<not> isFinitePositive full \<or> unit = [] then result
         else let health = fmul (fdiv full design) (Fin 100) in
           if IsNaN health \<or> IsInf health then
             result\<lparr>batDataAvailable := False, batDesignCapacity := Fin 0,
                    batFullChargeCapacity := Fin 0, batHealthPercent := Fin 0\<rparr>
           else result\<lparr>batDataAvailable := True, batDesignCapacity := design,
                    batFullChargeCapacity := full, batHealthPercent := health\<rparr>)"

definition emptyMetrics :: HardwareMetrics where
  "emptyMetrics = \<lparr>
     GameModeEnabled = False, GameDetected = False, GameProcessName = [], GameProcessPID = 0,
     GameDetectedAt = [], GameSessionDurationSeconds = 0, SystemManufacturer = [],
     SystemModel = [], SystemVersion = [], BIOSVendor = [], BIOSVersion = [],
     MotherboardVendor = [], MotherboardModel = [], MotherboardVersion = [],
     CPUManufacturer = [], CPUModel = [], CPUArchitecture = [], CPUPhysicalCores = 0,
     CPUThreads = 0, GPUModel = [], DetectionSource = [], DetectionStatus = [],
     SerialsExcluded = False, CPUUsage = Fin 0, CPUPerCoreUsage = [], CPUCoreCount = 0,
     CPUFrequencyMHz = Fin 0, CPUTemperature = Fin 0, CPUTemperatureSource = [],
     GPUTemperature = Fin 0, GPUTemperatureSource = [], MetricsCollectedAt = [],
     GPUUsage = Fin 0, GPUMemoryUsage = Fin 0, GPUPowerLimitWatts = Fin 0, GPUPState = [],
     GPUEncoderUsage = Fin 0, GPUDecoderUsage = Fin 0, FanPercent = Fin 0,
     FanPercentSource = [], FanRPM = Fin 0, FanRPMSource = [], MemoryUsage = Fin 0,
     MemoryTotalBytes = 0, DiskUsage = Fin 0, DiskTotalBytes = 0, StorageVolumes = [],
     PowerWatts = Fin 0, Voltage = Fin 0, UptimeSeconds = 0, Platform = [], GPUVendor = [],
     GPUName = [], GPUDriver = [], GPUDriverProvider = [], GPUDriverVersion = [],
     GPUDriverStatus = [], GPUDriverSource = [], GPUDriverAction = [], GPUDriverReason = [],
     GPUMemoryUsedBytes = 0, GPUMemoryTotalBytes = 0, GPUCoreClockMHz = Fin 0,
     GPUMemoryClockMHz = Fin 0, SensorSource = [], FanControlSupported = False,
     FanControlBackend = [], FanChannels = [], HardwareControlMode = [],
     ThermalSafetyAvailable = False, Battery = emptyBattery\<rparr>"

end
