(* ===== verification/FanControl.thy ===== *)
theory FanControl
  imports Hardware
begin

text \<open>
  Fan control (\<open>fan_control.go\<close> and the platform files): the capability records, the validation
  of percentages and channel identifiers, the backends that are not validated yet (Windows,
  macOS, other platforms), and the contract \<open>fan_backend\<close> every platform backend keeps.

  A backend operation that writes returns its error and the list of \<open>os.WriteFile\<close> calls it
  made (path, contents).  The type \<open>'v\<close> is the view of the operating system at the time of
  the call.
\<close>

subsection \<open>Validation\<close>

definition fanControlUnavailable :: "bytes \<Rightarrow> FanControlInfo" where
  "fanControlUnavailable reason =
     \<lparr>fciSupported = False, fciBackend = ''monitor-only'', fciHandle = [], fciReason = reason\<rparr>"

definition asError :: "FanControlInfo \<Rightarrow> bytes" where
  "asError i =
     (if fciReason i = [] then ''fan control backend unavailable''
      else ''fan control backend unavailable: '' @ fciReason i)"

definition validateFanPercent :: "float64 \<Rightarrow> gerr" where
  "validateFanPercent percent =
     (if \<not> isFiniteNonNegative percent \<or> fle percent (Fin 0) \<or> flt (Fin 100) percent
      then Err ''fan percent must be greater than 0 and at most 100; zero can stop the fan''
      else nil)"

definition validFanChannelID :: "bytes \<Rightarrow> bool" where
  "validFanChannelID i = (if length i \<noteq> 16 then False else hex_DecodeString i \<noteq> None)"

definition controllableChannel :: "FanChannel \<Rightarrow> bool" where
  "controllableChannel ch =
     (chSupported ch \<and> validFanChannelID (chID ch) \<and> chBackend ch \<noteq> [] \<and> chBackend ch \<noteq> ''monitor-only'')"

fun anyControllableFanChannel :: "FanChannel list \<Rightarrow> bool" where
  "anyControllableFanChannel [] = False"
| "anyControllableFanChannel (ch # chs) =
     (if controllableChannel ch then True else anyControllableFanChannel chs)"

lemma validateFanPercent_nil [err_simps]:
  "validateFanPercent p = nil \<longleftrightarrow> is_fin p \<and> 0 < fval p \<and> fval p \<le> 100"
  by (cases "is_fin p") (auto simp: validateFanPercent_def isFiniteNonNegative_iff not_le not_less)

lemma anyControllable_iff: "anyControllableFanChannel chs \<longleftrightarrow> (\<exists>ch \<in> set chs. controllableChannel ch)"
  by (induction chs) auto

subsection \<open>Backends\<close>

type_synonym writes = "(bytes \<times> bytes) list"

record 'v fan_ops =
  opDetect :: "'v \<Rightarrow> FanControlInfo"
  opSet :: "'v \<Rightarrow> float64 \<Rightarrow> gerr \<times> writes"
  opList :: "'v \<Rightarrow> FanChannel list"
  opSetChannel :: "'v \<Rightarrow> bytes \<Rightarrow> float64 \<Rightarrow> gerr \<times> writes"

text \<open>The duty-cycle texts a backend may write: a decimal number from 0 to 255 and a newline.\<close>

definition pwm_text :: "bytes \<Rightarrow> bool" where
  "pwm_text t = list_ex (\<lambda>n. t = FormatInt n @ [CHR 0x0A]) [0..255]"

lemma pwm_textI: "0 \<le> n \<Longrightarrow> n \<le> 255 \<Longrightarrow> pwm_text (FormatInt n @ [CHR 0x0A])"
  by (auto simp: pwm_text_def list_ex_iff)

lemma pwm_text_iff: "pwm_text t \<longleftrightarrow> (\<exists>n. 0 \<le> n \<and> n \<le> 255 \<and> t = FormatInt n @ [CHR 0x0A])"
  by (auto simp: pwm_text_def list_ex_iff)

text \<open>
  The contract of a backend: it writes nothing for a percentage outside \<open>(0, 100]\<close>, writes only
  duty cycles in range, sets the single fan only when detection finds one, sets a channel only
  when the channel is listed as supported, and reports failure when it wrote nothing.
\<close>

locale fan_backend =
  fixes ops :: "'v fan_ops"
  assumes set_valid: "snd (opSet ops v p) \<noteq> [] \<Longrightarrow> validateFanPercent p = nil"
    and set_pwm: "(path, t) \<in> set (snd (opSet ops v p)) \<Longrightarrow> pwm_text t"
    and set_detected: "snd (opSet ops v p) \<noteq> [] \<Longrightarrow> fciSupported (opDetect ops v)"
    and set_acts: "fst (opSet ops v p) = nil \<Longrightarrow> snd (opSet ops v p) \<noteq> []"
    and chan_valid: "snd (opSetChannel ops v i p) \<noteq> [] \<Longrightarrow> validateFanPercent p = nil"
    and chan_pwm: "(path, t) \<in> set (snd (opSetChannel ops v i p)) \<Longrightarrow> pwm_text t"
    and chan_listed: "snd (opSetChannel ops v i p) \<noteq> [] \<Longrightarrow>
      \<exists>ch \<in> set (opList ops v). chID ch = i \<and> chSupported ch"
    and chan_acts: "fst (opSetChannel ops v i p) = nil \<Longrightarrow> snd (opSetChannel ops v i p) \<noteq> []"
    and detect_backend: "fciSupported (opDetect ops v) \<Longrightarrow>
      fciBackend (opDetect ops v) \<noteq> [] \<and> fciBackend (opDetect ops v) \<noteq> ''monitor-only''"
begin

lemma set_success: "fst (opSet ops v p) = nil \<Longrightarrow> validateFanPercent p = nil \<and> fciSupported (opDetect ops v)"
  using set_acts set_valid set_detected by blast

lemma chan_success:
  "fst (opSetChannel ops v i p) = nil \<Longrightarrow>
   validateFanPercent p = nil \<and> (\<exists>ch \<in> set (opList ops v). chID ch = i \<and> chSupported ch)"
  using chan_acts chan_valid chan_listed by blast

end

text \<open>A platform whose backend is not validated: detection reports the reason, every write fails.\<close>

definition unavailable_ops :: "bytes \<Rightarrow> bytes \<Rightarrow> bytes \<Rightarrow> 'v fan_ops" where
  "unavailable_ops detectReason setReason channelReason =
     \<lparr>opDetect = (\<lambda>v. fanControlUnavailable detectReason),
      opSet = (\<lambda>v p. (Err (asError (fanControlUnavailable setReason)), [])),
      opList = (\<lambda>v. []),
      opSetChannel = (\<lambda>v i p. (Err (asError (fanControlUnavailable channelReason)), []))\<rparr>"

definition darwin_ops :: "'v fan_ops" where
  "darwin_ops = unavailable_ops
     ''macOS Apple Silicon fan-control backend is not yet validated''
     ''macOS fan-control backend is not available''
     ''per-channel fan control backend is not validated on this platform''"

definition windows_ops :: "'v fan_ops" where
  "windows_ops = unavailable_ops
     ''Windows vendor/EC fan-control backend is not yet validated''
     ''Windows fan-control backend is not available''
     ''per-channel fan control backend is not validated on this platform''"

definition other_ops :: "'v fan_ops" where
  "other_ops = unavailable_ops
     ''platform fan-control backend is not implemented''
     ''platform fan-control backend is not available''
     ''per-channel fan control backend is not validated on this platform''"

lemma unavailable_backend: "fan_backend (unavailable_ops a b c)"
  by unfold_locales (simp_all add: unavailable_ops_def fanControlUnavailable_def)

interpretation darwin: fan_backend darwin_ops
  unfolding darwin_ops_def by (rule unavailable_backend)

interpretation windows: fan_backend windows_ops
  unfolding windows_ops_def by (rule unavailable_backend)

interpretation other: fan_backend other_ops
  unfolding other_ops_def by (rule unavailable_backend)

end
