(* ===== verification/Unquote.thy ===== *)
theory Unquote
  imports Json
begin

text \<open>
  \<open>strconv.Unquote\<close>: the value of a Go string literal in double quotes, back quotes or single
  quotes.  \<open>None\<close> is the syntax error.
\<close>

fun hex_number :: "bytes \<Rightarrow> nat \<Rightarrow> nat option" where
  "hex_number [] v = Some v"
| "hex_number (c # s) v = (case hex_val c of None \<Rightarrow> None | Some x \<Rightarrow> hex_number s (v * 16 + x))"

definition octal_val :: "char \<Rightarrow> nat option" where
  "octal_val c = (if 48 \<le> byte c \<and> byte c \<le> 55 then Some (byte c - 48) else None)"

definition valid_rune :: "nat \<Rightarrow> bool" where
  "valid_rune r = (r < 0xD800 \<or> (0xE000 \<le> r \<and> r \<le> 0x10FFFF))"

text \<open>The escape after a backslash: the bytes it stands for and the rest of the input.\<close>

definition unquote_escape :: "char \<Rightarrow> bytes \<Rightarrow> (bytes \<times> bytes) option" where
  "unquote_escape qt s =
     (case s of
        [] \<Rightarrow> None
      | c # t \<Rightarrow>
          (case map_of [(CHR ''a'', CHR 0x07), (CHR ''b'', CHR 0x08), (CHR ''f'', CHR 0x0C),
                        (CHR ''n'', CHR 0x0A), (CHR ''r'', CHR 0x0D), (CHR ''t'', CHR 0x09),
                        (CHR ''v'', CHR 0x0B), (CHR 0x5C, CHR 0x5C)] c of
             Some d \<Rightarrow> Some ([d], t)
           | None \<Rightarrow>
               if c = CHR ''x'' then
                 (if length t < 2 then None
                  else map_option (\<lambda>v. ([char_of v], drop 2 t)) (hex_number (take 2 t) 0))
               else if c = CHR ''u'' \<or> c = CHR ''U'' then
                 (let n = (if c = CHR ''u'' then 4 else 8) in
                  if length t < n then None
                  else case hex_number (take n t) 0 of
                         None \<Rightarrow> None
                       | Some v \<Rightarrow> if valid_rune v then Some (utf8_encode v, drop n t) else None)
               else (case octal_val c of
                  Some v0 \<Rightarrow>
                    (case t of
                       a # b # r \<Rightarrow>
                         (case (octal_val a, octal_val b) of
                            (Some x, Some y) \<Rightarrow>
                              (let v = (v0 * 8 + x) * 8 + y in if v > 255 then None else Some ([char_of v], r))
                          | _ \<Rightarrow> None)
                     | _ \<Rightarrow> None)
                | None \<Rightarrow>
                    if (c = CHR 0x27 \<or> c = CHR 0x22) \<and> c = qt then Some ([c], t) else None)))"

lemma unquote_escape_shorter: "unquote_escape q s = Some (out, rest) \<Longrightarrow> length rest < length s"
  by (auto simp: unquote_escape_def Let_def split: list.splits option.splits if_splits)

text \<open>The characters up to the closing quote; a literal in single quotes has exactly one.\<close>

function unquote_loop :: "char \<Rightarrow> bytes \<Rightarrow> (bytes \<times> bytes) option" where
  "unquote_loop qt [] = None"
| "unquote_loop qt (c # s) =
     (if c = qt then Some ([], s)
      else if c = CHR 0x0A then None
      else case (if c = CHR 0x5C then unquote_escape qt s
                 else (case rune_len (c # s) of
                         0 \<Rightarrow> Some (replacement, s)
                       | Suc n \<Rightarrow> Some (c # take n s, drop n s))) of
             None \<Rightarrow> None
           | Some (out, rest) \<Rightarrow>
               if qt = CHR 0x27
               then (case rest of q # r \<Rightarrow> if q = qt then Some (out, r) else None | [] \<Rightarrow> None)
               else (case unquote_loop qt rest of
                       None \<Rightarrow> None
                     | Some (v, r) \<Rightarrow> Some (out @ v, r)))"
  by pat_completeness auto
termination
  by (relation "measure (\<lambda>(q, s). length s)")
    (auto split: if_splits nat.splits dest!: unquote_escape_shorter)

definition Unquote :: "bytes \<Rightarrow> bytes option" where
  "Unquote s =
     (case s of
        [] \<Rightarrow> None
      | q # t \<Rightarrow>
          if q = CHR 0x60 then
            (let body = takeWhile (\<lambda>c. c \<noteq> q) t in
             if drop (length body) t = [q] then Some (filter (\<lambda>c. c \<noteq> CHR 0x0D) body) else None)
          else if q = CHR 0x22 \<or> q = CHR 0x27 then
            (case unquote_loop q t of Some (v, []) \<Rightarrow> Some v | _ \<Rightarrow> None)
          else None)"

text \<open>A body of printable ASCII characters without quotes or backslashes stands for itself.\<close>

lemma unquote_loop_plain:
  "list_all (\<lambda>c. 0x20 \<le> byte c \<and> byte c < 0x80 \<and> c \<noteq> CHR 0x22 \<and> c \<noteq> CHR 0x5C) s \<Longrightarrow>
   unquote_loop (CHR 0x22) (s @ CHR 0x22 # t) = Some (s, t)"
  by (induction s) (auto simp: rune_len_def)

lemma Unquote_plain:
  assumes "list_all (\<lambda>c. 0x20 \<le> byte c \<and> byte c < 0x80 \<and> c \<noteq> CHR 0x22 \<and> c \<noteq> CHR 0x5C) s"
  shows "Unquote (CHR 0x22 # s @ [CHR 0x22]) = Some s"
  using unquote_loop_plain [OF assms, of "[]"] by (simp add: Unquote_def)

end
