(* ===== verification/PowerMode.thy ===== *)
theory PowerMode
  imports Unquote "HOL-Library.State_Monad"
begin

text \<open>
  Operating-system power modes (\<open>power_mode.go\<close>, \<open>power_mode_linux.go\<close>,
  \<open>power_mode_other.go\<close>).  The Linux backend talks to power-profiles-daemon through \<open>busctl\<close>;
  the daemon is a parameter \<open>busctl\<close> that maps the daemon's state and the arguments of a call to
  its next state, the combined output and the error.  Other programs may change the profile
  between two calls: that is part of what \<open>busctl\<close> may do.  Every call is logged, so that the
  lemmas can speak about the order of reads and writes.

  Shown here: a change is reported as done only after a read that returned the requested
  profile, at most two writes are made, and the second, the rollback, only restores the profile
  read at the start and follows a read that still returned the requested one.
\<close>

record PowerModeState =
  pmSupported :: bool
  pmPlatform :: bytes
  pmAC :: bytes
  pmDC :: bytes
  pmMessage :: bytes

definition powerModeBalanced :: float64 where "powerModeBalanced = Fin 0"

definition powerModeEfficiency :: float64 where "powerModeEfficiency = Fin 50"

definition powerModePerformance :: float64 where "powerModePerformance = Fin 100"

definition powerModeName :: "float64 \<Rightarrow> bytes option" where
  "powerModeName value =
     (if feq value powerModeBalanced then Some ''Balanced''
      else if feq value powerModeEfficiency then Some ''Best Power Efficiency''
      else if feq value powerModePerformance then Some ''Best Performance''
      else None)"

definition validatePowerModeRequest :: "bytes \<Rightarrow> float64 \<Rightarrow> gerr" where
  "validatePowerModeRequest action value =
     (if action \<noteq> ''Set Power Mode AC'' \<and> action \<noteq> ''Set Power Mode DC''
      then Err ''unsupported power mode action''
      else if powerModeName value = None
      then Err ''power mode value must be 0 (Balanced), 50 (Best Power Efficiency), or 100 (Best Performance)''
      else nil)"

lemma powerModeName_Some:
  "powerModeName x \<noteq> None \<longleftrightarrow> is_fin x \<and> fval x \<in> {0, 50, 100}"
  by (cases x)
    (auto simp: powerModeName_def powerModeBalanced_def powerModeEfficiency_def powerModePerformance_def feq_def)

subsection \<open>The daemon\<close>

type_synonym busctl_call = "bytes list \<times> bytes \<times> gerr"

type_synonym 'w daemon = "'w \<Rightarrow> bytes list \<Rightarrow> 'w \<times> bytes \<times> gerr"

type_synonym ('w, 'a) power = "('w \<times> busctl_call list, 'a) state"

definition runPowerProfileCommand :: "'w daemon \<Rightarrow> bytes list \<Rightarrow> ('w, bytes \<times> gerr) power" where
  "runPowerProfileCommand busctl args =
     State (\<lambda>(w, calls). case busctl w args of (w', output, err) \<Rightarrow>
       ((output, err), (w', calls @ [(args, output, err)])))"

definition get_args :: "bytes list" where
  "get_args = [''--system'', ''get-property'', ''net.hadess.PowerProfiles'',
     ''/net/hadess/PowerProfiles'', ''net.hadess.PowerProfiles'', ''ActiveProfile'']"

definition set_args :: "bytes \<Rightarrow> bytes list" where
  "set_args profile = [''--system'', ''set-property'', ''net.hadess.PowerProfiles'',
     ''/net/hadess/PowerProfiles'', ''net.hadess.PowerProfiles'', ''ActiveProfile'', ''s'', profile]"

definition parseBusctlString :: "bytes \<Rightarrow> bytes res" where
  "parseBusctlString output =
     (let value = TrimSpace output in
      if \<not> HasPrefix value ''s '' then Inl ''unexpected busctl string property output''
      else case Unquote (TrimSpace (TrimPrefix value ''s '')) of
             None \<Rightarrow> Inl ''invalid busctl string property output''
           | Some decoded \<Rightarrow>
               if decoded = [] then Inl ''invalid busctl string property output'' else Inr decoded)"

definition linuxProfileName :: "float64 \<Rightarrow> bytes res" where
  "linuxProfileName value =
     (if feq value powerModeBalanced then Inr ''balanced''
      else if feq value powerModeEfficiency then Inr ''power-saver''
      else if feq value powerModePerformance then Inr ''performance''
      else Inl ''unsupported Linux power profile value'')"

definition linuxProfileLabel :: "bytes \<Rightarrow> bytes" where
  "linuxProfileLabel profile =
     (if profile = ''power-saver'' then ''Power Saver''
      else if profile = ''balanced'' then ''Balanced''
      else if profile = ''performance'' then ''Performance''
      else profile)"

text \<open>What \<open>readLinuxPowerProfile\<close> makes of the reply to its one call.\<close>

definition profile_reply :: "bytes \<times> gerr \<Rightarrow> bytes res" where
  "profile_reply reply =
     (case reply of (output, err) \<Rightarrow>
        (case err of
           Some e \<Rightarrow>
             (let detail = TrimSpace output; detail = (if detail = [] then e else detail) in
              Inl (''power-profiles-daemon is unavailable or denied access: '' @ detail))
         | None \<Rightarrow>
             rbind (parseBusctlString output) (\<lambda>profile.
               if profile \<in> {''power-saver'', ''balanced'', ''performance''} then Inr profile
               else Inl (''power-profiles-daemon reported an unsupported active profile: '' @ profile))))"

definition readLinuxPowerProfile :: "'w daemon \<Rightarrow> ('w, bytes res) power" where
  "readLinuxPowerProfile busctl =
     State_Monad.bind (runPowerProfileCommand busctl get_args) (\<lambda>reply.
       State_Monad.return (profile_reply reply))"

definition power_state :: "bytes res \<Rightarrow> PowerModeState" where
  "power_state r =
     (case r of
        Inl e \<Rightarrow> \<lparr>pmSupported = False, pmPlatform = ''linux'', pmAC = ''Unavailable'',
                  pmDC = ''Not separately managed by power-profiles-daemon'', pmMessage = e\<rparr>
      | Inr profile \<Rightarrow> \<lparr>pmSupported = True, pmPlatform = ''linux'', pmAC = linuxProfileLabel profile,
                  pmDC = ''Same system profile'',
                  pmMessage = ''Linux active power profile read successfully. The system service, firmware, and thermal limits still determine effective performance.''\<rparr>)"

definition getPlatformPowerMode :: "'w daemon \<Rightarrow> ('w, PowerModeState) power" where
  "getPlatformPowerMode busctl =
     State_Monad.bind (readLinuxPowerProfile busctl) (\<lambda>r. State_Monad.return (power_state r))"

text \<open>\<open>return getPlatformPowerMode(), err\<close>\<close>

definition finish :: "'w daemon \<Rightarrow> gerr \<Rightarrow> ('w, PowerModeState \<times> gerr) power" where
  "finish busctl e =
     State_Monad.bind (getPlatformPowerMode busctl) (\<lambda>s. State_Monad.return (s, e))"

text \<open>The part of \<open>setPlatformPowerMode\<close> after a readback that did not confirm the request.\<close>

definition rollback :: "'w daemon \<Rightarrow> bytes \<Rightarrow> bytes \<Rightarrow> bytes res \<Rightarrow> ('w, PowerModeState \<times> gerr) power" where
  "rollback busctl before target after =
     State_Monad.bind (readLinuxPowerProfile busctl) (\<lambda>current.
     State_Monad.bind
       (if current = Inr target
        then State_Monad.bind (runPowerProfileCommand busctl (set_args before)) (\<lambda>_. State_Monad.return ())
        else State_Monad.return ()) (\<lambda>_.
     case after of
       Inl e \<Rightarrow> finish busctl (Err (''Linux power profile readback failed; rollback was attempted only if the active profile still matched our request: '' @ e))
     | Inr _ \<Rightarrow> finish busctl (Err (''Linux power profile readback did not confirm requested profile '' @ target))))"

definition setPlatformPowerMode :: "'w daemon \<Rightarrow> bytes \<Rightarrow> float64 \<Rightarrow> ('w, PowerModeState \<times> gerr) power" where
  "setPlatformPowerMode busctl supply value =
     (if supply \<noteq> ''SYSTEM''
      then finish busctl (Err ''Linux exposes one system power profile; AC/DC-specific changes are not supported'')
      else case linuxProfileName value of
        Inl e \<Rightarrow> finish busctl (Err e)
      | Inr target \<Rightarrow>
          State_Monad.bind (readLinuxPowerProfile busctl) (\<lambda>r.
          case r of
            Inl e \<Rightarrow> finish busctl (Err e)
          | Inr before \<Rightarrow>
              if before = target then finish busctl nil
              else State_Monad.bind (runPowerProfileCommand busctl (set_args target)) (\<lambda>(output, setErr).
                case setErr of
                  Some e \<Rightarrow>
                    (let detail = TrimSpace output; detail = (if detail = [] then e else detail) in
                     finish busctl (Err (''set Linux power profile failed: '' @ detail)))
                | None \<Rightarrow>
                    State_Monad.bind (readLinuxPowerProfile busctl) (\<lambda>after.
                      if after = Inr target then
                        State_Monad.bind (getPlatformPowerMode busctl) (\<lambda>s.
                          State_Monad.return (s\<lparr>pmMessage := ''Linux power profile changed and read back successfully. This requests an OS profile; it does not guarantee maximum CPU/GPU performance.''\<rparr>, nil))
                      else rollback busctl before target after))))"

text \<open>Platforms without an implementation (\<open>power_mode_other.go\<close>); \<open>goos\<close> is \<open>runtime.GOOS\<close>.\<close>

definition otherGetPlatformPowerMode :: "bytes \<Rightarrow> PowerModeState" where
  "otherGetPlatformPowerMode goos =
     \<lparr>pmSupported = False, pmPlatform = goos, pmAC = ''Unavailable'', pmDC = ''Unavailable'',
      pmMessage = ''Automated OS power-mode control is implemented only for supported Windows 11 and Linux power-profile services.''\<rparr>"

definition otherSetPlatformPowerMode :: "bytes \<Rightarrow> bytes \<Rightarrow> float64 \<Rightarrow> PowerModeState \<times> gerr" where
  "otherSetPlatformPowerMode goos supply value =
     (otherGetPlatformPowerMode goos, Err (''OS power-mode control is not implemented for '' @ goos))"

subsection \<open>Order of reads and writes\<close>

definition reads :: "bytes \<Rightarrow> busctl_call \<Rightarrow> bool" where
  "reads profile call =
     (case call of (args, reply) \<Rightarrow> args = get_args \<and> profile_reply reply = Inr profile)"

definition write_calls :: "busctl_call list \<Rightarrow> busctl_call list" where
  "write_calls calls = filter (\<lambda>(args, _). args \<noteq> get_args) calls"

lemma set_args_not_get [simp]: "set_args p \<noteq> get_args" "get_args \<noteq> set_args p"
  by (simp_all add: set_args_def get_args_def)

lemma write_calls_simps [simp]:
  "write_calls [] = []"
  "write_calls ((args, rep) # calls) = (if args = get_args then write_calls calls else (args, rep) # write_calls calls)"
  by (simp_all add: write_calls_def)

text \<open>
  The calls \<open>busctl\<close> answers one after another, from a state \<open>w\<close>: each of the building blocks
  adds one call to the calls and continues from the daemon's next state.
\<close>

lemma run_command:
  "run_state (runPowerProfileCommand busctl args) (w, calls) =
     (snd (busctl w args), (fst (busctl w args), calls @ [(args, snd (busctl w args))]))"
  by (simp add: runPowerProfileCommand_def split: prod.split)

lemma run_read:
  "run_state (readLinuxPowerProfile busctl) (w, calls) =
     (profile_reply (snd (busctl w get_args)),
      (fst (busctl w get_args), calls @ [(get_args, snd (busctl w get_args))]))"
  by (simp add: readLinuxPowerProfile_def run_command run_state_bind run_state_return)

lemma run_finish:
  "run_state (finish busctl e) (w, calls) =
     ((power_state (profile_reply (snd (busctl w get_args))), e),
      (fst (busctl w get_args), calls @ [(get_args, snd (busctl w get_args))]))"
  by (simp add: finish_def getPlatformPowerMode_def run_read run_state_bind run_state_return)

lemmas power_run = run_command run_read run_finish run_state_bind run_state_return


lemma profile_reply_valid:
  "profile_reply r = Inr p \<Longrightarrow> p \<in> {''power-saver'', ''balanced'', ''performance''}"
  by (auto simp: profile_reply_def err_simps Let_def split: prod.splits option.splits if_splits)

text \<open>
  The shapes the calls of \<open>setPlatformPowerMode\<close> can have.  Only the last two contain writes: an
  unconfirmed or confirmed request without rollback, and a request with its rollback.
\<close>

definition set_log_ok :: "bytes \<Rightarrow> gerr \<Rightarrow> busctl_call list \<Rightarrow> bool" where
  "set_log_ok target err calls \<longleftrightarrow>
     (write_calls calls = [] \<and> (err = nil \<longrightarrow> reads target (hd calls))) \<or>
     (\<exists>before r1 w1 rest. before \<noteq> target \<and> reads before r1 \<and> fst w1 = set_args target \<and>
        calls = r1 # w1 # rest \<and>
        ((write_calls rest = [] \<and> (err = nil \<longrightarrow> reads target (hd rest))) \<or>
         (\<exists>r2 r3 w2 r4. rest = [r2, r3, w2, r4] \<and> reads target r3 \<and> fst w2 = set_args before \<and>
            write_calls [r2, r3, r4] = [] \<and> err \<noteq> nil)))"

lemma rollback_log:
  "\<exists>cs. snd (snd (run_state (rollback busctl before target after) (w, calls))) = calls @ cs \<and>
    snd (fst (run_state (rollback busctl before target after) (w, calls))) \<noteq> nil \<and>
    (write_calls cs = [] \<or>
     (\<exists>r3 w2 r4. cs = [r3, w2, r4] \<and> reads target r3 \<and> fst w2 = set_args before \<and>
        write_calls [r3, r4] = []))"
  by (cases "snd (busctl w get_args)") (auto simp: rollback_def power_run reads_def split: sum.split)

text \<open>\<open>setPlatformPowerMode\<close> for the system profile keeps that shape whatever the daemon answers.\<close>

lemma set_log:
  assumes "linuxProfileName x = Inr target"
  shows "set_log_ok target (snd (fst (run_state (setPlatformPowerMode busctl ''SYSTEM'' x) (w, []))))
    (snd (snd (run_state (setPlatformPowerMode busctl ''SYSTEM'' x) (w, []))))"
proof -
  obtain w1 o1 e1 where c1: "busctl w get_args = (w1, o1, e1)" by (metis prod_cases3)
  obtain w2 o2 e2 where c2: "busctl w1 (set_args target) = (w2, o2, e2)" by (metis prod_cases3)
  obtain w3 o3 e3 where c3: "busctl w2 get_args = (w3, o3, e3)" by (metis prod_cases3)
  consider (unreadable) m where "profile_reply (o1, e1) = Inl m"
    | (already) "profile_reply (o1, e1) = Inr target"
    | (change) before where "profile_reply (o1, e1) = Inr before" "before \<noteq> target"
    by (cases "profile_reply (o1, e1)") auto
  then show ?thesis
  proof cases
    case unreadable
    with assms c1 show ?thesis
      by (simp add: setPlatformPowerMode_def power_run set_log_ok_def)
  next
    case already
    with assms c1 show ?thesis
      by (simp add: setPlatformPowerMode_def power_run set_log_ok_def reads_def)
  next
    case change
    show ?thesis
    proof (cases "e2 = nil \<and> profile_reply (o3, e3) \<noteq> Inr target")
      case True
      with assms c1 c2 c3 change rollback_log [of busctl before target "profile_reply (o3, e3)" w3
          "[(get_args, o1, e1), (set_args target, o2, e2), (get_args, o3, e3)]"]
      show ?thesis
        by (auto simp: setPlatformPowerMode_def power_run set_log_ok_def reads_def)
    next
      case False
      with assms c1 c2 c3 change show ?thesis
        by (auto simp: setPlatformPowerMode_def power_run set_log_ok_def reads_def
            getPlatformPowerMode_def Let_def split: option.splits)
    qed
  qed
qed

subsection \<open>Properties\<close>

text \<open>C33: a change of the Linux power profile follows the read, write, confirm protocol whatever the daemon answers.
  Nothing is written unless the current profile was read first and differs from the requested one; the first write
  requests exactly the target; success is reported only if the daemon was read as running the target; and a second
  write happens only as a rollback to the profile read before, right after a read that still showed our target,
  and is then reported as an error.\<close>

theorem power_profile_protocol:
  assumes "linuxProfileName x = Inr target"
  shows "set_log_ok target (snd (fst (run_state (setPlatformPowerMode busctl ''SYSTEM'' x) (w, []))))
    (snd (snd (run_state (setPlatformPowerMode busctl ''SYSTEM'' x) (w, []))))"
  using set_log [OF assms] .

text \<open>A daemon that keeps the profile it was last asked for.\<close>

definition demoDaemon :: "bytes daemon" where
  "demoDaemon w args =
     (if args = get_args then (w, ''s '' @ CHR 0x22 # w @ [CHR 0x22], nil) else (last args, [], nil))"

theorem power_profile_protocol_witness:
  "set_log_ok ''performance''
     (snd (fst (run_state (setPlatformPowerMode demoDaemon ''SYSTEM'' (Fin 100)) (''balanced'', []))))
     (snd (snd (run_state (setPlatformPowerMode demoDaemon ''SYSTEM'' (Fin 100)) (''balanced'', []))))"
proof (rule power_profile_protocol)
  show "linuxProfileName (Fin 100) = Inr ''performance''" by code_simp
qed

text \<open>Separate profiles for mains and battery do not exist on Linux: a request for any supply other than the whole
  system fails and writes nothing, and so does a value that names no profile.\<close>

theorem power_profile_refused:
  assumes "supply \<noteq> ''SYSTEM'' \<or> (\<forall>target. linuxProfileName x \<noteq> Inr target)"
  shows "snd (fst (run_state (setPlatformPowerMode busctl supply x) (w, []))) \<noteq> nil \<and>
    write_calls (snd (snd (run_state (setPlatformPowerMode busctl supply x) (w, [])))) = []"
  using assms by (auto simp: setPlatformPowerMode_def power_run split: sum.split)

theorem power_profile_refused_witness:
  "snd (fst (run_state (setPlatformPowerMode demoDaemon ''AC'' (Fin 100)) (''balanced'', []))) \<noteq> nil"
  using power_profile_refused [of "''AC''" "Fin 100" demoDaemon "''balanced''"] by blast

end
