(* ===== verification/Audio.thy ===== *)
theory Audio
  imports Hardware
begin

text \<open>
  The audio studio request of \<open>main.go\<close>: decoding of the base64 and JSON configuration that a
  \<open>Start Audio Studio\<close> command carries in its target, its validation, and the text line that is
  sent to the native probe.

  Shown here: an accepted request has every parameter in its documented range, and the line
  built from it is one line of exactly 23 fields, so a request cannot smuggle a second command
  or shift a field of the probe's line protocol.
\<close>

subsection \<open>\<open>base64.RawURLEncoding\<close>\<close>

definition b64_val :: "char \<Rightarrow> nat option" where
  "b64_val c =
     (let b = byte c in
      if 65 \<le> b \<and> b \<le> 90 then Some (b - 65)
      else if 97 \<le> b \<and> b \<le> 122 then Some (b - 71)
      else if 48 \<le> b \<and> b \<le> 57 then Some (b + 4)
      else if c = CHR ''-'' then Some 62
      else if c = CHR ''_'' then Some 63
      else None)"

fun b64_groups :: "nat list \<Rightarrow> bytes option" where
  "b64_groups [] = Some []"
| "b64_groups [a] = None"
| "b64_groups [a, b] = Some [char_of (a * 4 + b div 16)]"
| "b64_groups [a, b, c] = Some [char_of (a * 4 + b div 16), char_of (b mod 16 * 16 + c div 4)]"
| "b64_groups (a # b # c # d # r) =
     map_option (\<lambda>s. char_of (a * 4 + b div 16) # char_of (b mod 16 * 16 + c div 4) #
       char_of (c mod 4 * 64 + d) # s) (b64_groups r)"

text \<open>Line breaks are skipped, padding is not part of the alphabet, trailing bits are ignored.\<close>

definition b64_DecodeString :: "bytes \<Rightarrow> bytes option" where
  "b64_DecodeString s =
     (let t = filter (\<lambda>c. c \<noteq> CHR 0x0A \<and> c \<noteq> CHR 0x0D) s in
      if list_all (\<lambda>c. b64_val c \<noteq> None) t then b64_groups (map (the \<circ> b64_val) t) else None)"

subsection \<open>The request\<close>

record audioStudioStartRequest =
  CaptureIndex :: int
  PlaybackIndex :: int
  MonitorOutput :: bool
  InputGain :: float64
  GateThreshold :: float64
  CompressorThreshold :: float64
  CompressorRatio :: float64
  CompressorAttack :: float64
  CompressorRelease :: float64
  CompressorKnee :: float64
  HighPassFrequency :: float64
  LimiterCeiling :: float64
  GateEnabled :: bool
  CompressorEnabled :: bool
  HighPassEnabled :: bool
  LimiterEnabled :: bool
  EQGain :: "float64 list"
  EQFrequency :: "float64 list"

definition emptyRequest :: audioStudioStartRequest where
  "emptyRequest = \<lparr>CaptureIndex = 0, PlaybackIndex = 0, MonitorOutput = False, InputGain = Fin 0,
     GateThreshold = Fin 0, CompressorThreshold = Fin 0, CompressorRatio = Fin 0,
     CompressorAttack = Fin 0, CompressorRelease = Fin 0, CompressorKnee = Fin 0,
     HighPassFrequency = Fin 0, LimiterCeiling = Fin 0, GateEnabled = False,
     CompressorEnabled = False, HighPassEnabled = False, LimiterEnabled = False,
     EQGain = [], EQFrequency = []\<rparr>"

text \<open>The parameter table of \<open>validAudioStudioStartRequest\<close>: name, value, smallest and largest.\<close>

definition audio_ranges :: "audioStudioStartRequest \<Rightarrow> (bytes \<times> float64 \<times> float64 \<times> float64) list" where
  "audio_ranges r =
     [(''input gain'', InputGain r, Fin (- 24), Fin 12),
      (''gate threshold'', GateThreshold r, Fin (- 90), Fin 0),
      (''compressor threshold'', CompressorThreshold r, Fin (- 60), Fin 0),
      (''compressor ratio'', CompressorRatio r, Fin 1, Fin 20),
      (''compressor attack'', CompressorAttack r, fround (1 / 10), Fin 200),
      (''compressor release'', CompressorRelease r, Fin 1, Fin 2000),
      (''compressor knee'', CompressorKnee r, Fin 0, Fin 24),
      (''high-pass frequency'', HighPassFrequency r, Fin 20, Fin 1000),
      (''limiter ceiling'', LimiterCeiling r, Fin (- 24), Fin 0)]"

definition outside :: "float64 \<Rightarrow> float64 \<Rightarrow> float64 \<Rightarrow> bool" where
  "outside v lo hi = (IsNaN v \<or> IsInf v \<or> flt v lo \<or> flt hi v)"

fun check_ranges :: "(bytes \<times> float64 \<times> float64 \<times> float64) list \<Rightarrow> gerr" where
  "check_ranges [] = nil"
| "check_ranges ((name, v, lo, hi) # rs) =
     (if outside v lo hi then Err (''invalid audio '' @ name) else check_ranges rs)"

fun check_bands :: "(float64 \<times> float64) list \<Rightarrow> gerr" where
  "check_bands [] = nil"
| "check_bands ((gain, freq) # bs) =
     (if outside gain (Fin (- 12)) (Fin 12) then Err ''invalid audio EQ gain''
      else if outside freq (Fin 20) (Fin 18000) then Err ''invalid audio EQ frequency''
      else check_bands bs)"

definition validAudioStudioStartRequest :: "audioStudioStartRequest \<Rightarrow> gerr" where
  "validAudioStudioStartRequest r =
     (if CaptureIndex r < 0 \<or> CaptureIndex r > 1024 \<or> PlaybackIndex r < 0 \<or> PlaybackIndex r > 1024
      then Err ''audio device index is outside the allowed range''
      else seq_err (check_ranges (audio_ranges r))
        (if length (EQGain r) \<noteq> 3 \<or> length (EQFrequency r) \<noteq> 3
         then Err ''audio EQ must contain exactly three bands''
         else check_bands (zip (EQGain r) (EQFrequency r))))"

subsection \<open>Decoding\<close>

text \<open>
  Object member names match a struct field exactly or after case folding; besides ASCII letters,
  U+017F folds with \<open>s\<close> and U+212A with \<open>k\<close>.
\<close>

fun fold_name :: "bytes \<Rightarrow> bytes" where
  "fold_name [] = []"
| "fold_name (c # s) =
     (if byte c = 0xC5 \<and> s \<noteq> [] \<and> byte (hd s) = 0xBF then CHR ''s'' # fold_name (tl s)
      else if byte c = 0xE2 \<and> length s \<ge> 2 \<and> byte (hd s) = 0x84 \<and> byte (s ! 1) = 0xAA
      then CHR ''k'' # fold_name (tl (tl s))
      else lower_byte c # fold_name s)"

text \<open>
  An array stored into a \<open>[]float64\<close> reuses the slice's backing array, so that a \<open>null\<close> element
  leaves what an earlier value of the same field put there.  The state of decoding keeps the two
  backing arrays beside the request.
\<close>

record audio_decode =
  adReq :: audioStudioStartRequest
  adGain :: "float64 list"
  adFreq :: "float64 list"

definition elem_float :: "float64 \<Rightarrow> json \<Rightarrow> float64 option" where
  "elem_float old v =
     (case v of
        JNull \<Rightarrow> Some old
      | JNum lit \<Rightarrow> (case ParseFloat lit of (x, ok) \<Rightarrow> if ok then Some x else None)
      | _ \<Rightarrow> None)"

definition elem_int :: "int \<Rightarrow> json \<Rightarrow> int option" where
  "elem_int old v = (case v of JNull \<Rightarrow> Some old | JNum lit \<Rightarrow> Atoi lit | _ \<Rightarrow> None)"

definition elem_bool :: "bool \<Rightarrow> json \<Rightarrow> bool option" where
  "elem_bool old v = (case v of JNull \<Rightarrow> Some old | JBool b \<Rightarrow> Some b | _ \<Rightarrow> None)"

fun fill_slice :: "float64 list \<Rightarrow> json list \<Rightarrow> float64 list option" where
  "fill_slice backing [] = Some backing"
| "fill_slice backing (v # vs) =
     (case elem_float (case backing of [] \<Rightarrow> Fin 0 | x # _ \<Rightarrow> x) v of
        None \<Rightarrow> None
      | Some y \<Rightarrow> map_option ((#) y) (fill_slice (tl backing) vs))"

text \<open>The new backing array and the new slice.\<close>

definition elem_slice :: "float64 list \<Rightarrow> json \<Rightarrow> (float64 list \<times> float64 list) option" where
  "elem_slice backing v =
     (case v of
        JNull \<Rightarrow> Some ([], [])
      | JArr [] \<Rightarrow> Some ([], [])
      | JArr vs \<Rightarrow> map_option (\<lambda>b. (b, take (length vs) b)) (fill_slice backing vs)
      | _ \<Rightarrow> None)"

definition audio_float_fields ::
  "(bytes \<times> (audioStudioStartRequest \<Rightarrow> float64) \<times> (float64 \<Rightarrow> audioStudioStartRequest \<Rightarrow> audioStudioStartRequest)) list" where
  "audio_float_fields =
     [(''inputgain'', InputGain, \<lambda>x. InputGain_update (\<lambda>_. x)),
      (''gatethreshold'', GateThreshold, \<lambda>x. GateThreshold_update (\<lambda>_. x)),
      (''compressorthreshold'', CompressorThreshold, \<lambda>x. CompressorThreshold_update (\<lambda>_. x)),
      (''compressorratio'', CompressorRatio, \<lambda>x. CompressorRatio_update (\<lambda>_. x)),
      (''compressorattack'', CompressorAttack, \<lambda>x. CompressorAttack_update (\<lambda>_. x)),
      (''compressorrelease'', CompressorRelease, \<lambda>x. CompressorRelease_update (\<lambda>_. x)),
      (''compressorknee'', CompressorKnee, \<lambda>x. CompressorKnee_update (\<lambda>_. x)),
      (''highpassfrequency'', HighPassFrequency, \<lambda>x. HighPassFrequency_update (\<lambda>_. x)),
      (''limiterceiling'', LimiterCeiling, \<lambda>x. LimiterCeiling_update (\<lambda>_. x))]"

definition audio_bool_fields ::
  "(bytes \<times> (audioStudioStartRequest \<Rightarrow> bool) \<times> (bool \<Rightarrow> audioStudioStartRequest \<Rightarrow> audioStudioStartRequest)) list" where
  "audio_bool_fields =
     [(''monitoroutput'', MonitorOutput, \<lambda>x. MonitorOutput_update (\<lambda>_. x)),
      (''gateenabled'', GateEnabled, \<lambda>x. GateEnabled_update (\<lambda>_. x)),
      (''compressorenabled'', CompressorEnabled, \<lambda>x. CompressorEnabled_update (\<lambda>_. x)),
      (''highpassenabled'', HighPassEnabled, \<lambda>x. HighPassEnabled_update (\<lambda>_. x)),
      (''limiterenabled'', LimiterEnabled, \<lambda>x. LimiterEnabled_update (\<lambda>_. x))]"

definition audio_int_fields ::
  "(bytes \<times> (audioStudioStartRequest \<Rightarrow> int) \<times> (int \<Rightarrow> audioStudioStartRequest \<Rightarrow> audioStudioStartRequest)) list" where
  "audio_int_fields =
     [(''captureindex'', CaptureIndex, \<lambda>x. CaptureIndex_update (\<lambda>_. x)),
      (''playbackindex'', PlaybackIndex, \<lambda>x. PlaybackIndex_update (\<lambda>_. x))]"

text \<open>One member: unknown names are skipped, a value of the wrong type is an error.\<close>

definition set_audio_field :: "bytes \<times> json \<Rightarrow> audio_decode \<Rightarrow> audio_decode option" where
  "set_audio_field m st =
     (case m of (key, v) \<Rightarrow>
      let k = fold_name key; r = adReq st in
      case map_of audio_int_fields k of
        Some (get, upd) \<Rightarrow> map_option (\<lambda>x. st\<lparr>adReq := upd x r\<rparr>) (elem_int (get r) v)
      | None \<Rightarrow>
      (case map_of audio_bool_fields k of
        Some (get, upd) \<Rightarrow> map_option (\<lambda>x. st\<lparr>adReq := upd x r\<rparr>) (elem_bool (get r) v)
      | None \<Rightarrow>
      (case map_of audio_float_fields k of
        Some (get, upd) \<Rightarrow> map_option (\<lambda>x. st\<lparr>adReq := upd x r\<rparr>) (elem_float (get r) v)
      | None \<Rightarrow>
        if k = ''eqgain'' then
          map_option (\<lambda>(b, s). st\<lparr>adReq := r\<lparr>EQGain := s\<rparr>, adGain := b\<rparr>) (elem_slice (adGain st) v)
        else if k = ''eqfrequency'' then
          map_option (\<lambda>(b, s). st\<lparr>adReq := r\<lparr>EQFrequency := s\<rparr>, adFreq := b\<rparr>) (elem_slice (adFreq st) v)
        else Some st)))"

fun set_audio_fields :: "(bytes \<times> json) list \<Rightarrow> audio_decode \<Rightarrow> audio_decode option" where
  "set_audio_fields [] st = Some st"
| "set_audio_fields (m # ms) st =
     (case set_audio_field m st of None \<Rightarrow> None | Some st' \<Rightarrow> set_audio_fields ms st')"

text \<open>\<open>json.Unmarshal\<close> into the request; \<open>null\<close> leaves the zero value.\<close>

definition unmarshal_request :: "bytes \<Rightarrow> audioStudioStartRequest option" where
  "unmarshal_request raw =
     (case json_decode raw of
        Some JNull \<Rightarrow> Some emptyRequest
      | Some (JObj ms) \<Rightarrow>
          map_option adReq (set_audio_fields ms \<lparr>adReq = emptyRequest, adGain = [], adFreq = []\<rparr>)
      | _ \<Rightarrow> None)"

definition decodeAudioStudioStartTarget :: "bytes \<Rightarrow> audioStudioStartRequest res" where
  "decodeAudioStudioStartTarget target =
     (if target = [] \<or> length target > 8192
      then Inl ''audio start configuration is missing or too large''
      else case b64_DecodeString target of
        None \<Rightarrow> Inl ''invalid audio start configuration encoding''
      | Some raw \<Rightarrow>
          (case unmarshal_request raw of
             None \<Rightarrow> Inl ''invalid audio start configuration''
           | Some request \<Rightarrow>
               (case validAudioStudioStartRequest request of
                  Some e \<Rightarrow> Inl e
                | None \<Rightarrow> Inr request)))"

subsection \<open>The probe's command line\<close>

definition boolNumber :: "bool \<Rightarrow> int" where
  "boolNumber b = (if b then 1 else 0)"

definition audioStudioStartLine :: "audioStudioStartRequest \<Rightarrow> bytes" where
  "audioStudioStartLine r =
     (let values = [InputGain r, GateThreshold r, CompressorThreshold r, CompressorRatio r,
            CompressorAttack r, CompressorRelease r, CompressorKnee r, HighPassFrequency r,
            LimiterCeiling r];
          bands = concat (map (\<lambda>i. [EQFrequency r ! i, EQGain r ! i]) [0, 1, 2])
      in Join ([''start'', FormatInt (CaptureIndex r), FormatInt (PlaybackIndex r),
                FormatInt (boolNumber (MonitorOutput r))]
          @ map FormatShortest values
          @ map (\<lambda>b. FormatInt (boolNumber b))
              [GateEnabled r, CompressorEnabled r, HighPassEnabled r, LimiterEnabled r]
          @ map FormatShortest bands) '' '')"


subsection \<open>What an accepted request looks like\<close>

definition in_range :: "float64 \<Rightarrow> float64 \<Rightarrow> float64 \<Rightarrow> bool" where
  "in_range v lo hi = (is_fin v \<and> fle lo v \<and> fle v hi)"

lemma outside_in_range: "lo \<noteq> NaN \<Longrightarrow> hi \<noteq> NaN \<Longrightarrow> outside v lo hi \<longleftrightarrow> \<not> in_range v lo hi"
  by (auto simp: outside_def in_range_def is_fin_def IsNaN_def fle_not_flt)

lemma fround_not_NaN [simp]: "fround x \<noteq> NaN" "NaN \<noteq> fround x"
  by (simp_all add: fround_def Let_def)

lemma check_ranges_nil:
  "(\<forall>(n, v, lo, hi) \<in> set rs. lo \<noteq> NaN \<and> hi \<noteq> NaN) \<Longrightarrow>
   check_ranges rs = nil \<longleftrightarrow> (\<forall>(n, v, lo, hi) \<in> set rs. in_range v lo hi)"
  by (induction rs rule: check_ranges.induct) (auto simp: outside_in_range)

lemma check_bands_nil:
  "check_bands bs = nil \<longleftrightarrow>
   (\<forall>(gain, freq) \<in> set bs. in_range gain (Fin (- 12)) (Fin 12) \<and> in_range freq (Fin 20) (Fin 18000))"
  by (induction bs rule: check_bands.induct) (auto simp: outside_in_range)

lemma validAudio_nil:
  "validAudioStudioStartRequest r = nil \<longleftrightarrow>
     CaptureIndex r \<in> {0..1024} \<and> PlaybackIndex r \<in> {0..1024} \<and>
     (\<forall>(n, v, lo, hi) \<in> set (audio_ranges r). in_range v lo hi) \<and>
     length (EQGain r) = 3 \<and> length (EQFrequency r) = 3 \<and>
     (\<forall>(gain, freq) \<in> set (zip (EQGain r) (EQFrequency r)).
        in_range gain (Fin (- 12)) (Fin 12) \<and> in_range freq (Fin 20) (Fin 18000))"
proof -
  have "\<forall>(n, v, lo, hi) \<in> set (audio_ranges r). lo \<noteq> NaN \<and> hi \<noteq> NaN"
    by (simp add: audio_ranges_def)
  from check_ranges_nil [OF this] show ?thesis
    by (auto simp: validAudioStudioStartRequest_def check_bands_nil not_less)
qed

lemma decodeAudio_Inr:
  "decodeAudioStudioStartTarget t = Inr r \<Longrightarrow> validAudioStudioStartRequest r = nil"
  by (auto simp: decodeAudioStudioStartTarget_def split: if_splits option.splits)

lemma numeric_field_chars:
  assumes "is_digit c \<or> c = CHR ''.'' \<or> c = CHR ''-''"
  shows "c \<noteq> CHR '' ''" "c \<noteq> CHR 0x0A"
  using assms by (auto simp: is_digit_def)

text \<open>No field of the line contains a space or a line break.\<close>

definition plain_field :: "bytes \<Rightarrow> bool" where
  "plain_field f = (CHR '' '' \<notin> set f \<and> CHR 0x0A \<notin> set f)"

lemma plain_FormatInt: "plain_field (FormatInt i)"
  using FormatInt_chars numeric_field_chars by (auto simp: plain_field_def)

lemma plain_FormatShortest: "is_fin x \<Longrightarrow> plain_field (FormatShortest x)"
  using FormatShortest_chars [of x] numeric_field_chars by (auto simp: plain_field_def)

lemma length3_bands:
  assumes "length gs = 3" "length fs = 3"
    and "\<forall>(gain, freq) \<in> set (zip gs fs). P gain \<and> Q freq"
  shows "i < 3 \<Longrightarrow> P (gs ! i) \<and> Q (fs ! i)"
  using assms by (auto simp: set_zip)

lemma Join_plain_newline:
  "(\<forall>f \<in> set fs. plain_field f) \<Longrightarrow> CHR 0x0A \<notin> set (Join fs '' '')"
proof (induction fs)
  case Nil
  then show ?case by simp
next
  case (Cons f fs)
  then show ?case by (cases fs) (auto simp: plain_field_def)
qed

lemma audioStudioStartLine_fields:
  assumes "validAudioStudioStartRequest r = nil"
  shows "\<exists>fs. audioStudioStartLine r = Join (''start'' # fs) '' '' \<and> length fs = 22 \<and> (\<forall>f \<in> set fs. plain_field f)"
proof -
  note v = assms [unfolded validAudio_nil]
  have fins: "\<forall>x \<in> set [InputGain r, GateThreshold r, CompressorThreshold r, CompressorRatio r,
      CompressorAttack r, CompressorRelease r, CompressorKnee r, HighPassFrequency r, LimiterCeiling r]. is_fin x"
    using v by (simp add: audio_ranges_def in_range_def)
  have bands: "\<forall>i \<in> {0, 1, 2}. is_fin (EQGain r ! i) \<and> is_fin (EQFrequency r ! i)"
    using v length3_bands [of "EQGain r" "EQFrequency r" "\<lambda>g. in_range g (Fin (- 12)) (Fin 12)"
        "\<lambda>f. in_range f (Fin 20) (Fin 18000)"]
    by (simp add: in_range_def)
  from fins bands show ?thesis
    unfolding audioStudioStartLine_def Let_def append_Cons
    by - (rule exI, rule conjI, rule refl, simp add: plain_FormatInt plain_FormatShortest)
qed

subsection \<open>Properties\<close>

text \<open>A decoded audio studio configuration has every parameter in its documented range: device indices from 0
  to 1024, the nine processing parameters inside the limits of the parameter table, and exactly three equaliser
  bands with gains from -12 to 12 and frequencies from 20 to 18000; none is NaN or infinite.\<close>

theorem audio_request_ranges:
  assumes "decodeAudioStudioStartTarget t = Inr r"
  shows "length t \<le> 8192 \<and> CaptureIndex r \<in> {0..1024} \<and> PlaybackIndex r \<in> {0..1024} \<and>
    in_range (InputGain r) (Fin (- 24)) (Fin 12) \<and> in_range (GateThreshold r) (Fin (- 90)) (Fin 0) \<and>
    in_range (CompressorThreshold r) (Fin (- 60)) (Fin 0) \<and> in_range (CompressorRatio r) (Fin 1) (Fin 20) \<and>
    in_range (CompressorAttack r) (fround (1 / 10)) (Fin 200) \<and> in_range (CompressorRelease r) (Fin 1) (Fin 2000) \<and>
    in_range (CompressorKnee r) (Fin 0) (Fin 24) \<and> in_range (HighPassFrequency r) (Fin 20) (Fin 1000) \<and>
    in_range (LimiterCeiling r) (Fin (- 24)) (Fin 0) \<and>
    length (EQGain r) = 3 \<and> length (EQFrequency r) = 3 \<and>
    (\<forall>i < 3. in_range (EQGain r ! i) (Fin (- 12)) (Fin 12) \<and> in_range (EQFrequency r ! i) (Fin 20) (Fin 18000))"
proof -
  note v = decodeAudio_Inr [OF assms, unfolded validAudio_nil]
  have "length t \<le> 8192" using assms by (simp add: decodeAudioStudioStartTarget_def split: if_splits)
  moreover have "\<forall>i < 3. in_range (EQGain r ! i) (Fin (- 12)) (Fin 12) \<and> in_range (EQFrequency r ! i) (Fin 20) (Fin 18000)"
    using v length3_bands [of "EQGain r" "EQFrequency r" "\<lambda>g. in_range g (Fin (- 12)) (Fin 12)"
        "\<lambda>f. in_range f (Fin 20) (Fin 18000)"] by simp
  ultimately show ?thesis using v by (simp add: audio_ranges_def)
qed

definition demoTarget :: bytes where
  "demoTarget = ''eyJjb21wcmVzc29yUmF0aW8iOjIsImNvbXByZXNzb3JBdHRhY2siOjUsImNvbXByZXNzb3JSZWxlYXNlIjo4MCwiaGlnaFBhc3NGcmVxdWVuY3kiOjkwLCJlcUdhaW4iOlswLDMsLTJdLCJlcUZyZXF1ZW5jeSI6WzEwMCwxMDAwLDgwMDBdfQ''"

definition demoRequest :: audioStudioStartRequest where
  "demoRequest = emptyRequest\<lparr>CompressorRatio := Fin 2, CompressorAttack := Fin 5, CompressorRelease := Fin 80,
     HighPassFrequency := Fin 90, EQGain := [Fin 0, Fin 3, Fin (- 2)], EQFrequency := [Fin 100, Fin 1000, Fin 8000]\<rparr>"

definition demoRaw :: bytes where
  "demoRaw = ''{'' @ CHR 0x22 # ''compressorRatio'' @ CHR 0x22 # '':2,'' @ CHR 0x22 # ''compressorAttack'' @ CHR 0x22 # '':5,'' @ CHR 0x22 # ''compressorRelease'' @ CHR 0x22 # '':80,'' @ CHR 0x22 # ''highPassFrequency'' @ CHR 0x22 # '':90,'' @ CHR 0x22 # ''eqGain'' @ CHR 0x22 # '':[0,3,-2],'' @ CHR 0x22 # ''eqFrequency'' @ CHR 0x22 # '':[100,1000,8000]}''"

lemma demoTarget_raw: "b64_DecodeString demoTarget = Some demoRaw"
  by code_simp

lemma demoRaw_json: "json_decode demoRaw = Some (JObj
  [(''compressorRatio'', JNum ''2''), (''compressorAttack'', JNum ''5''), (''compressorRelease'', JNum ''80''),
   (''highPassFrequency'', JNum ''90''), (''eqGain'', JArr [JNum ''0'', JNum ''3'', JNum ''-2'']),
   (''eqFrequency'', JArr [JNum ''100'', JNum ''1000'', JNum ''8000''])])"
  by code_simp

lemma demo_numbers:
  "ParseFloat ''2'' = (Fin 2, True)" "ParseFloat ''5'' = (Fin 5, True)" "ParseFloat ''80'' = (Fin 80, True)"
  "ParseFloat ''90'' = (Fin 90, True)" "ParseFloat ''0'' = (Fin 0, True)" "ParseFloat ''3'' = (Fin 3, True)"
  "ParseFloat ''-2'' = (Fin (- 2), True)" "ParseFloat ''100'' = (Fin 100, True)"
  "ParseFloat ''1000'' = (Fin 1000, True)" "ParseFloat ''8000'' = (Fin 8000, True)"
  by code_simp+

lemma demo_fields: "unmarshal_request demoRaw = Some demoRequest"
proof -
  have k: "fold_name ''compressorRatio'' = ''compressorratio''" "fold_name ''compressorAttack'' = ''compressorattack''"
    "fold_name ''compressorRelease'' = ''compressorrelease''" "fold_name ''highPassFrequency'' = ''highpassfrequency''"
    "fold_name ''eqGain'' = ''eqgain''" "fold_name ''eqFrequency'' = ''eqfrequency''"
    by code_simp+
  show ?thesis
    unfolding unmarshal_request_def demoRaw_json
    by (simp add: set_audio_field_def k audio_int_fields_def audio_bool_fields_def audio_float_fields_def elem_float_def
        elem_slice_def demo_numbers demoRequest_def emptyRequest_def del: fold_name.simps)
qed

lemma demoRequest_valid: "validAudioStudioStartRequest demoRequest = nil"
  by code_simp

lemma demoTarget_decodes: "decodeAudioStudioStartTarget demoTarget = Inr demoRequest"
proof -
  have "demoTarget \<noteq> []" "length demoTarget \<le> 8192" by (simp_all add: demoTarget_def)
  then show ?thesis
    by (simp add: decodeAudioStudioStartTarget_def demoTarget_raw demo_fields demoRequest_valid)
qed

theorem audio_request_ranges_witness: "in_range (EQFrequency demoRequest ! 2) (Fin 20) (Fin 18000)"
  using audio_request_ranges [OF demoTarget_decodes] by auto

text \<open>The line sent to the probe for an accepted configuration is one line of exactly 23 fields separated by
  single spaces, the first of which is \<open>start\<close>; no field contains a space or a line break, so a configuration
  cannot add a command or shift a field of the probe's protocol.\<close>

theorem audio_start_line:
  assumes "decodeAudioStudioStartTarget t = Inr r"
  shows "length (Split (audioStudioStartLine r) (CHR '' '')) = 23 \<and> CHR 0x0A \<notin> set (audioStudioStartLine r) \<and>
    hd (Split (audioStudioStartLine r) (CHR '' '')) = ''start'' \<and>
    (\<forall>f \<in> set (Split (audioStudioStartLine r) (CHR '' '')). plain_field f)"
proof -
  obtain fs where fs: "audioStudioStartLine r = Join (''start'' # fs) '' ''" "length fs = 22" "\<forall>f \<in> set fs. plain_field f"
    using audioStudioStartLine_fields [OF decodeAudio_Inr [OF assms]] by auto
  have start: "plain_field ''start''" by (simp add: plain_field_def)
  have "Split (audioStudioStartLine r) (CHR '' '') = ''start'' # fs"
    unfolding fs(1) using fs(3) start by (intro Split_Join) (auto simp: plain_field_def)
  moreover have "CHR 0x0A \<notin> set (audioStudioStartLine r)"
    unfolding fs(1) using fs(3) start by (intro Join_plain_newline) simp
  ultimately show ?thesis using fs(2,3) start by simp
qed

theorem audio_start_line_witness: "length (Split (audioStudioStartLine demoRequest) (CHR '' '')) = 23"
  using audio_start_line [OF demoTarget_decodes] by blast

end
