(* ===== verification/Commands.thy ===== *)
theory Commands
  imports Protocol FanControl PowerMode Audio
begin

text \<open>
  Validation of a decoded command (\<open>validateCommand\<close> of \<open>main.go\<close>).  \<open>now\<close> is the wall clock in
  nanoseconds since the Unix epoch; a timestamp is in milliseconds.  (\<open>time.Since\<close> saturates for
  durations beyond 292 years, which the comparison with 30 seconds cannot observe.)

  Shown here: what an accepted command is, and that the canonical payload determines every
  signed field of an accepted command.
\<close>

definition actFan :: bytes where
  "actFan = ''Fan H'' @ [CHR 0xC4, CHR 0xB1] @ ''z'' @ [CHR 0xC4, CHR 0xB1]"

definition actAI :: bytes where
  "actAI = ''AI '' @ [CHR 0xC4, CHR 0xB0, CHR 0xC5, CHR 0x9F] @ ''lem G'' @ [CHR 0xC3, CHR 0xBC] @
     ''c'' @ [CHR 0xC3, CHR 0xBC]"

definition readOnlyActions :: "bytes list" where
  "readOnlyActions = [''Get Status'', ''Get Security'', ''Get Diagnostics'', ''Get Health'',
     ''Get Game Mode'', ''Get Update'', ''Get Sensor Health'', ''Get Sensor History'',
     ''Get Fan Channels'', ''Get Fetch Status'', ''Get Audio Devices'', ''Get Audio Studio Status'',
     ''Stop Audio Studio'']"

definition commandClockSkew :: int where
  "commandClockSkew = 30 * 1000000000"

definition maxActionLength :: nat where
  "maxActionLength = 64"

text \<open>The precision check: the six-decimal text must read back as the same number.\<close>

definition precision_ok :: "float64 \<Rightarrow> bool" where
  "precision_ok x =
     (case ParseFloat (FormatFixed 6 x) of (canonicalValue, ok) \<Rightarrow> ok \<and> feq canonicalValue x)"

definition validate_target :: "Command \<Rightarrow> gerr" where
  "validate_target cmd =
     (if cAction cmd = ''Set Fan Channel'' then
        (if \<not> validFanChannelID (cTarget cmd)
         then Err ''Set Fan Channel requires a valid channel identifier''
         else validateFanPercent (cValue cmd))
      else if cAction cmd = ''Start Audio Studio'' then
        (if \<not> feq (cValue cmd) (Fin 0) then Err ''audio start command value must be zero''
         else err_of (decodeAudioStudioStartTarget (cTarget cmd)))
      else if cTarget cmd \<noteq> []
      then Err ''target is only accepted for fan-channel or audio-start commands''
      else nil)"

definition validate_action :: "Command \<Rightarrow> gerr" where
  "validate_action cmd =
     (let action = cAction cmd in
      if action \<in> {actFan, actAI, ''Set Game Mode'', ''Start Audio Studio''} then nil
      else if action = ''Set Fan Channel'' then validateFanPercent (cValue cmd)
      else if action = ''Set Power Mode AC'' \<or> action = ''Set Power Mode DC''
      then validatePowerModeRequest action (cValue cmd)
      else if action = ''Set Power Profile''
      then validatePowerModeRequest ''Set Power Mode AC'' (cValue cmd)
      else if action = ''Get Power Mode'' \<or> action \<in> set readOnlyActions then
        (if \<not> feq (cValue cmd) (Fin 0) then Err ''read-only command value must be zero'' else nil)
      else Err (''unsupported action: '' @ cAction cmd))"

definition validateCommand :: "int \<Rightarrow> Command \<Rightarrow> gerr" where
  "validateCommand now cmd =
     (let action = TrimSpace (cAction cmd); age = now - cTimestamp cmd * 1000000 in
      if action = [] then Err ''action is required''
      else if action \<noteq> cAction cmd then Err ''action must not contain leading or trailing whitespace''
      else if length action > maxActionLength then Err ''action is too long''
      else if IsNaN (cValue cmd) \<or> IsInf (cValue cmd) \<or> flt (cValue cmd) (Fin 0) \<or> flt (Fin 100) (cValue cmd)
      then Err ''value must be between 0 and 100''
      else if \<not> precision_ok (cValue cmd)
      then Err ''value precision exceeds authenticated protocol precision''
      else if cTimestamp cmd \<le> 0 then Err ''timestamp is required''
      else if age > commandClockSkew \<or> age < - commandClockSkew
      then Err ''command timestamp outside allowed window''
      else if length (cNonce cmd) \<noteq> 32 then Err ''nonce must contain 32 hexadecimal characters''
      else if hex_DecodeString (cNonce cmd) = None then Err ''nonce must be hexadecimal''
      else if length (cAuth cmd) \<noteq> 64 then Err ''auth must contain 64 hexadecimal characters''
      else if hex_DecodeString (cAuth cmd) = None then Err ''auth must be hexadecimal''
      else if length (cTarget cmd) > 8192 then Err ''command target is too large''
      else seq_err (validate_target cmd) (validate_action cmd))"

subsection \<open>Accepted commands\<close>

text \<open>Every action the bridge knows; an accepted command's action is one of them.\<close>

definition knownActions :: "bytes list" where
  "knownActions = [actFan, actAI, ''Set Game Mode'', ''Start Audio Studio'', ''Set Fan Channel'',
     ''Set Power Mode AC'', ''Set Power Mode DC'', ''Set Power Profile'', ''Get Power Mode''] @ readOnlyActions"

lemma validate_action_known: "validate_action cmd = nil \<Longrightarrow> cAction cmd \<in> set knownActions"
  by (auto simp: validate_action_def Let_def knownActions_def split: if_splits)

lemma knownActions_plain: "a \<in> set knownActions \<Longrightarrow> newline \<notin> set a"
proof -
  have "list_all (\<lambda>a. newline \<notin> set a) knownActions"
    by (simp add: knownActions_def actFan_def actAI_def readOnlyActions_def)
  then show "a \<in> set knownActions \<Longrightarrow> newline \<notin> set a" by (simp add: list_all_iff)
qed

lemma validateCommand_nil:
  assumes "validateCommand now cmd = nil"
  shows "is_fin (cValue cmd)" "0 \<le> fval (cValue cmd)" "fval (cValue cmd) \<le> 100"
    "precision_ok (cValue cmd)" "0 < cTimestamp cmd"
    "\<bar>now - cTimestamp cmd * 1000000\<bar> \<le> commandClockSkew"
    "length (cNonce cmd) = 32" "hex_DecodeString (cNonce cmd) \<noteq> None"
    "length (cAuth cmd) = 64" "hex_DecodeString (cAuth cmd) \<noteq> None"
    "length (cTarget cmd) \<le> 8192" "validate_target cmd = nil" "validate_action cmd = nil"
    "cAction cmd \<in> set knownActions"
proof -
  note v = assms [unfolded validateCommand_def Let_def]
  show fin: "is_fin (cValue cmd)" using v by (auto simp: is_fin_def split: if_splits)
  show "0 \<le> fval (cValue cmd)" "fval (cValue cmd) \<le> 100"
    using v fin by (auto simp: not_less split: if_splits)
  show "precision_ok (cValue cmd)" "0 < cTimestamp cmd"
    "\<bar>now - cTimestamp cmd * 1000000\<bar> \<le> commandClockSkew"
    "length (cNonce cmd) = 32" "hex_DecodeString (cNonce cmd) \<noteq> None"
    "length (cAuth cmd) = 64" "hex_DecodeString (cAuth cmd) \<noteq> None"
    "length (cTarget cmd) \<le> 8192" "validate_target cmd = nil"
    using v by (auto split: if_splits)
  show act: "validate_action cmd = nil" using v by (auto split: if_splits)
  show "cAction cmd \<in> set knownActions" using validate_action_known [OF act] .
qed

subsection \<open>The payload determines the command\<close>

lemma newline_notin_FormatFixed: "is_fin x \<Longrightarrow> newline \<notin> set (FormatFixed k x)"
  using FormatFixed_chars [of x newline k] by (auto simp: is_digit_def)

lemma precision_feq:
  assumes "precision_ok x" "precision_ok y" "FormatFixed 6 x = FormatFixed 6 y"
  shows "feq x y"
  using assms by (auto simp: precision_ok_def feq_def split: prod.splits)

lemma target_suffix_inject:
  assumes "length (n1 :: bytes) = length n2"
    and "n1 @ (if t1 \<noteq> [] then newline # t1 else []) = n2 @ (if t2 \<noteq> [] then newline # t2 else [])"
  shows "n1 = n2 \<and> t1 = t2"
  using assms by (auto split: if_splits)

lemma commandPayload_alt:
  "commandPayload cmd = cAction cmd @ newline # FormatFixed 6 (cValue cmd) @ newline #
     FormatInt (cTimestamp cmd) @ newline #
     (cNonce cmd @ (if cTarget cmd \<noteq> [] then newline # cTarget cmd else []))"
  by (simp add: commandPayload_def Let_def)

lemma payload_fields:
  assumes v1: "validateCommand t1 c1 = nil" and v2: "validateCommand t2 c2 = nil"
    and eq: "commandPayload c1 = commandPayload c2"
  shows "cAction c1 = cAction c2 \<and> feq (cValue c1) (cValue c2) \<and> cTimestamp c1 = cTimestamp c2 \<and>
    cNonce c1 = cNonce c2 \<and> cTarget c1 = cTarget c2"
proof -
  note a = knownActions_plain [OF validateCommand_nil(14) [OF v1]]
    knownActions_plain [OF validateCommand_nil(14) [OF v2]]
  note f = newline_notin_FormatFixed [OF validateCommand_nil(1) [OF v1]]
    newline_notin_FormatFixed [OF validateCommand_nil(1) [OF v2]]
  note s1 = split_at_sep [OF eq [unfolded commandPayload_alt] a]
  note s2 = split_at_sep [OF conjunct2 [OF s1] f]
  note s3 = split_at_sep [OF conjunct2 [OF s2] newline_notin_FormatInt newline_notin_FormatInt]
  have "length (cNonce c1) = length (cNonce c2)"
    using validateCommand_nil(7) [OF v1] validateCommand_nil(7) [OF v2] by simp
  note s4 = target_suffix_inject [OF this conjunct2 [OF s3]]
  from s2 have "feq (cValue c1) (cValue c2)"
    using precision_feq validateCommand_nil(4) [OF v1] validateCommand_nil(4) [OF v2] by blast
  with s1 s3 s4 show ?thesis by simp
qed

subsection \<open>Properties\<close>

text \<open>An accepted command is complete: a known action, a finite value between 0 and 100 that the signed
  six-decimal text represents exactly, a timestamp within 30 seconds of the clock, a nonce of 16 hexadecimal
  bytes and a tag of 32, and a target of at most 8192 bytes that only fan-channel and audio commands carry.\<close>

theorem accepted_command:
  assumes "validateCommand now cmd = nil"
  shows "cAction cmd \<in> set knownActions \<and> is_fin (cValue cmd) \<and> 0 \<le> fval (cValue cmd) \<and> fval (cValue cmd) \<le> 100 \<and>
    precision_ok (cValue cmd) \<and> \<bar>now - cTimestamp cmd * 1000000\<bar> \<le> 30 * 1000000000 \<and>
    (\<exists>b. hex_DecodeString (cNonce cmd) = Some b \<and> length b = 16) \<and>
    (\<exists>b. hex_DecodeString (cAuth cmd) = Some b \<and> length b = 32) \<and> length (cTarget cmd) \<le> 8192 \<and>
    (cTarget cmd \<noteq> [] \<longrightarrow> cAction cmd = ''Set Fan Channel'' \<or> cAction cmd = ''Start Audio Studio'')"
proof -
  note v = validateCommand_nil [OF assms]
  obtain n a where d: "hex_DecodeString (cNonce cmd) = Some n" "hex_DecodeString (cAuth cmd) = Some a"
    using v(8,10) by blast
  have "length n = 16" "length a = 32"
    using length_hex_Decode [OF d(1)] length_hex_Decode [OF d(2)] v(7,9) by simp_all
  moreover have "cTarget cmd \<noteq> [] \<longrightarrow> cAction cmd = ''Set Fan Channel'' \<or> cAction cmd = ''Start Audio Studio''"
    using v(12) by (auto simp: validate_target_def split: if_splits)
  ultimately show ?thesis using v d by (simp add: commandClockSkew_def)
qed

definition statusCommand :: Command where
  "statusCommand = \<lparr>cAction = ''Get Status'', cValue = Fin 0, cTarget = [], cTimestamp = 1000,
     cNonce = replicate 32 (CHR ''a''), cAuth = replicate 64 (CHR ''0'')\<rparr>"

lemma statusCommand_valid: "validateCommand 2000000000 statusCommand = nil"
  by code_simp

theorem accepted_command_witness: "cAction statusCommand \<in> set knownActions"
  using accepted_command [OF statusCommand_valid] by blast

text \<open>The canonical payload determines an accepted command: two accepted commands with the same payload
  have the same action, value, timestamp, nonce and target, so no signed field can be shifted into another.\<close>

theorem payload_determines_command:
  assumes "validateCommand t1 c1 = nil" and "validateCommand t2 c2 = nil"
    and "commandPayload c1 = commandPayload c2"
  shows "cAction c1 = cAction c2 \<and> feq (cValue c1) (cValue c2) \<and> cTimestamp c1 = cTimestamp c2 \<and>
    cNonce c1 = cNonce c2 \<and> cTarget c1 = cTarget c2"
  using payload_fields [OF assms] .

theorem payload_determines_command_witness: "feq (cValue statusCommand) (cValue statusCommand)"
  using payload_determines_command [OF statusCommand_valid statusCommand_valid refl] by blast

text \<open>C10: a tag binds the command: if two accepted commands authenticate under one secret with the same tag,
  then they agree on every signed field, or their payloads are a collision of HMAC-SHA256 under that secret.\<close>

theorem tag_binds_command:
  assumes "validateCommand t1 c1 = nil" and "validateCommand t2 c2 = nil"
    and "authenticateCommand c1 secret" and "authenticateCommand c2 secret" and "cAuth c1 = cAuth c2"
  shows "(cAction c1 = cAction c2 \<and> feq (cValue c1) (cValue c2) \<and> cTimestamp c1 = cTimestamp c2 \<and>
      cNonce c1 = cNonce c2 \<and> cTarget c1 = cTarget c2) \<or>
    (commandPayload c1 \<noteq> commandPayload c2 \<and>
      hmac_sha256 secret (commandPayload c1) = hmac_sha256 secret (commandPayload c2))"
  using payload_fields [OF assms(1,2)] assms(3-5) by (auto simp: authenticateCommand_iff)

lemma signed_valid:
  assumes "validateCommand now cmd = nil"
  shows "validateCommand now (cmd\<lparr>cAuth := signCommand cmd secret\<rparr>) = nil"
proof -
  have len: "length (signCommand cmd secret) = 64" by (simp add: signCommand_def)
  have hex: "hex_DecodeString (signCommand cmd secret) \<noteq> None" by (simp add: signCommand_def)
  have tgt: "validate_target (cmd\<lparr>cAuth := a\<rparr>) = validate_target cmd" for a by (simp add: validate_target_def)
  have act: "validate_action (cmd\<lparr>cAuth := a\<rparr>) = validate_action cmd" for a by (simp add: validate_action_def Let_def)
  from assms show ?thesis
    unfolding validateCommand_def Let_def tgt act
    by (simp add: len hex split: if_splits)
qed

theorem tag_binds_command_witness:
  "cAction (statusCommand\<lparr>cAuth := signCommand statusCommand ''k''\<rparr>) = ''Get Status''"
  using tag_binds_command [OF signed_valid [OF statusCommand_valid, of "''k''"]
      signed_valid [OF statusCommand_valid, of "''k''"] signCommand_authentic signCommand_authentic refl]
  by (simp add: statusCommand_def)

end
