(* ===== verification/Replay.thy ===== *)
theory Replay
  imports Commands
begin

text \<open>
  Replay protection (\<open>consumeCommandNonce\<close> of \<open>main.go\<close>).  The map \<open>replayNonces\<close> is an
  association list with distinct keys; times are readings of the monotonic clock in
  nanoseconds, which is what Go compares when both operands come from \<open>time.Now\<close>.

  The contract \<open>nonce_guard\<close> says what the connection handler relies on: an accepted nonce stays
  refused for the window, whatever other nonces are offered in between, also when the cache is
  full.  The contract \<open>guard_refinement\<close> relates a guard to the log of all nonces it accepted:
  the decisions of the bounded cache are those that the log, which forgets nothing, would take.
\<close>

type_synonym nonce_cache = "(bytes \<times> int) list"

definition maxReplayNonces :: nat where
  "maxReplayNonces = 4096"

definition drop_expired :: "int \<Rightarrow> nonce_cache \<Rightarrow> nonce_cache" where
  "drop_expired now cache = filter (\<lambda>(key, expiresAt). \<not> now > expiresAt) cache"

definition consumeCommandNonce :: "nonce_cache \<Rightarrow> bytes \<Rightarrow> int \<Rightarrow> bool \<times> nonce_cache" where
  "consumeCommandNonce cache nonce now =
     (let live = drop_expired now cache in
      if nonce \<in> fst ` set live then (False, live)
      else if length live \<ge> maxReplayNonces then (False, live)
      else (True, (nonce, now + commandClockSkew) # live))"

subsection \<open>Well-formed caches\<close>

definition cache_ok :: "nonce_cache \<Rightarrow> bool" where
  "cache_ok cache = (distinct (map fst cache) \<and> length cache \<le> maxReplayNonces)"

lemma distinct_filter_fst: "distinct (map fst xs) \<Longrightarrow> distinct (map fst (filter P xs))"
  by (induction xs) auto

lemma cache_ok_drop: "cache_ok cache \<Longrightarrow> cache_ok (drop_expired now cache)"
  unfolding cache_ok_def drop_expired_def
  by (meson distinct_filter_fst length_filter_le order.trans)

lemma cache_ok_consume: "cache_ok cache \<Longrightarrow> cache_ok (snd (consumeCommandNonce cache nonce now))"
  using cache_ok_drop [of cache now]
  by (auto simp: consumeCommandNonce_def Let_def) (auto simp: cache_ok_def maxReplayNonces_def)

text \<open>Until when a nonce is refused.\<close>

definition expiry :: "nonce_cache \<Rightarrow> bytes \<Rightarrow> int option" where
  "expiry cache nonce = map_of cache nonce"

lemma map_of_drop_expired:
  "distinct (map fst cache) \<Longrightarrow>
   map_of (drop_expired now cache) n = (case map_of cache n of Some e \<Rightarrow> if now \<le> e then Some e else None | None \<Rightarrow> None)"
proof (induction cache)
  case Nil
  then show ?case by (simp add: drop_expired_def)
next
  case (Cons x cache)
  then have "map_of cache (fst x) = None" by (simp add: map_of_eq_None_iff)
  with Cons show ?case by (auto simp: drop_expired_def split: option.splits)
qed

lemma nonce_in_live:
  "nonce \<in> fst ` set (drop_expired now cache) \<longleftrightarrow> map_of (drop_expired now cache) nonce \<noteq> None"
  by (simp add: map_of_eq_None_iff)

subsection \<open>The contract\<close>

text \<open>The requests a guard accepts, out of a sequence of offered nonces with their times.\<close>

fun accepted :: "('s \<Rightarrow> bytes \<Rightarrow> int \<Rightarrow> bool \<times> 's) \<Rightarrow> 's \<Rightarrow> (bytes \<times> int) list \<Rightarrow> (bytes \<times> int) list" where
  "accepted consume s [] = []"
| "accepted consume s ((n, t) # reqs) =
     (case consume s n t of (b, s') \<Rightarrow>
        if b then (n, t) # accepted consume s' reqs else accepted consume s' reqs)"

lemma accepted_subset: "set (accepted consume s reqs) \<subseteq> set reqs"
proof (induction reqs arbitrary: s)
  case Nil
  then show ?case by simp
next
  case (Cons r reqs)
  obtain n t where r: "r = (n, t)" by force
  obtain b s' where "consume s n t = (b, s')" by force
  with r Cons.IH [of s'] show ?case by auto
qed

locale nonce_guard =
  fixes consume :: "'s \<Rightarrow> bytes \<Rightarrow> int \<Rightarrow> bool \<times> 's"
    and blocked :: "'s \<Rightarrow> bytes \<Rightarrow> int option"
    and valid :: "'s \<Rightarrow> bool"
    and window :: int
  assumes keeps_valid: "valid s \<Longrightarrow> valid (snd (consume s n t))"
    and accept_blocks: "valid s \<Longrightarrow> consume s n t = (True, s') \<Longrightarrow> blocked s' n = Some (t + window)"
    and refuses: "valid s \<Longrightarrow> blocked s n = Some e \<Longrightarrow> t \<le> e \<Longrightarrow> \<not> fst (consume s n t)"
    and keeps_blocked: "valid s \<Longrightarrow> blocked s m = Some e \<Longrightarrow> t \<le> e \<Longrightarrow> blocked (snd (consume s n t)) m = Some e"
begin

lemma blocked_not_accepted:
  assumes "valid s" and "blocked s m = Some e"
    and "(m, u) \<in> set (accepted consume s reqs)" and "sorted (map snd reqs)"
  shows "e < u"
  using assms
proof (induction reqs arbitrary: s)
  case Nil
  then show ?case by simp
next
  case (Cons r reqs)
  obtain n t where r: "r = (n, t)" by force
  obtain b s' where c: "consume s n t = (b, s')" by force
  have later: "t \<le> x" if "(k, x) \<in> set (accepted consume s'' reqs)" for k x s''
    using accepted_subset that Cons.prems(4) r by fastforce
  show ?case
  proof (cases "t \<le> e")
    case True
    have "\<not> (b \<and> n = m)" using refuses [OF Cons.prems(1,2) True] c by auto
    with Cons.prems(3) r c have "(m, u) \<in> set (accepted consume s' reqs)"
      by (auto split: if_splits)
    moreover have "valid s'" "blocked s' m = Some e"
      using keeps_valid [OF Cons.prems(1), of n t] keeps_blocked [OF Cons.prems(1,2) True, of n] c by simp_all
    ultimately show ?thesis using Cons.IH [of s'] Cons.prems(4) r by simp
  next
    case False
    have "t \<le> u" using Cons.prems(3) r c later by (auto split: if_splits)
    with False show ?thesis by simp
  qed
qed

text \<open>Two acceptances of one nonce are more than a window apart.\<close>

lemma accepted_apart:
  assumes "valid s" and "sorted (map snd reqs)"
  shows "sorted_wrt (\<lambda>(n, t) (m, u). n = m \<longrightarrow> t + window < u) (accepted consume s reqs)"
  using assms
proof (induction reqs arbitrary: s)
  case Nil
  then show ?case by simp
next
  case (Cons r reqs)
  obtain n t where r: "r = (n, t)" by force
  obtain b s' where c: "consume s n t = (b, s')" by force
  have v: "valid s'" using keeps_valid [OF Cons.prems(1), of n t] c by simp
  have "t + window < u" if "b" "(n, u) \<in> set (accepted consume s' reqs)" for u
    using blocked_not_accepted [OF v _ that(2)] accept_blocks [OF Cons.prems(1)] c that(1) Cons.prems(2) r
    by auto
  with Cons.IH [OF v] Cons.prems(2) r c show ?case by auto
qed

end

interpretation replay: nonce_guard consumeCommandNonce expiry cache_ok commandClockSkew
proof
  fix s n m t e and s' :: nonce_cache
  assume ok: "cache_ok s"
  show "cache_ok (snd (consumeCommandNonce s n t))" using cache_ok_consume [OF ok] .
  show "consumeCommandNonce s n t = (True, s') \<Longrightarrow> expiry s' n = Some (t + commandClockSkew)"
    by (auto simp: consumeCommandNonce_def Let_def expiry_def split: if_splits)
  have dist: "distinct (map fst s)" using ok by (simp add: cache_ok_def)
  show "expiry s n = Some e \<Longrightarrow> t \<le> e \<Longrightarrow> \<not> fst (consumeCommandNonce s n t)"
    using map_of_drop_expired [OF dist, of t n] nonce_in_live [of n t s]
    by (simp add: consumeCommandNonce_def Let_def expiry_def)
  show "expiry s m = Some e \<Longrightarrow> t \<le> e \<Longrightarrow> expiry (snd (consumeCommandNonce s n t)) m = Some e"
    using map_of_drop_expired [OF dist, of t m] nonce_in_live [of n t s]
    by (auto simp: consumeCommandNonce_def Let_def expiry_def)
qed

subsection \<open>The log that the cache stands for\<close>

text \<open>
  The specification of the guard: an unbounded log of the accepted nonces with their times, from which nothing is
  ever removed.  A nonce is refused if the log has it from the last 30 seconds, or has 4096 entries from then.
\<close>

type_synonym nonce_log = "(bytes \<times> int) list"

definition recent :: "int \<Rightarrow> nonce_log \<Rightarrow> nonce_log" where
  "recent now past = filter (\<lambda>(n, t). now \<le> t + 30 * 1000000000) past"

definition log_consume :: "nonce_log \<Rightarrow> bytes \<Rightarrow> int \<Rightarrow> bool \<times> nonce_log" where
  "log_consume past nonce now =
     (if nonce \<in> fst ` set (recent now past) \<or> 4096 \<le> length (recent now past) then (False, past)
      else (True, (nonce, now) # past))"

text \<open>A contract for refinements of guards: from related states both decide alike and lead to related states, as long
  as the clock does not go back.\<close>

locale guard_refinement =
  fixes impl :: "'s \<Rightarrow> bytes \<Rightarrow> int \<Rightarrow> bool \<times> 's"
    and spec :: "'a \<Rightarrow> bytes \<Rightarrow> int \<Rightarrow> bool \<times> 'a"
    and related :: "int \<Rightarrow> 's \<Rightarrow> 'a \<Rightarrow> bool"
  assumes same_decision: "related t s a \<Longrightarrow> t \<le> u \<Longrightarrow> fst (impl s n u) = fst (spec a n u)"
    and keeps_related: "related t s a \<Longrightarrow> t \<le> u \<Longrightarrow> related u (snd (impl s n u)) (snd (spec a n u))"
begin

lemma accepted_eq:
  "related t s a \<Longrightarrow> sorted (t # map snd reqs) \<Longrightarrow> accepted impl s reqs = accepted spec a reqs"
proof (induction reqs arbitrary: t s a)
  case (Cons r reqs)
  obtain n u where r: "r = (n, u)" by force
  with Cons.prems have "t \<le> u" by simp
  note step = same_decision [OF Cons.prems(1) this, of n] keeps_related [OF Cons.prems(1) this, of n]
  from Cons.prems(2) r have "sorted (u # map snd reqs)" by simp
  from Cons.IH [OF step(2) this] step(1) r show ?case by (simp add: case_prod_beta)
qed simp

end

definition cache_log :: "int \<Rightarrow> nonce_cache \<Rightarrow> nonce_log \<Rightarrow> bool" where
  "cache_log now cache past \<longleftrightarrow>
     (\<forall>t \<ge> now. drop_expired t cache = map (\<lambda>(n, u). (n, u + commandClockSkew)) (recent t past))"

lemma drop_expired_twice: "t \<le> u \<Longrightarrow> drop_expired u (drop_expired t cache) = drop_expired u cache"
  by (auto simp: drop_expired_def intro!: filter_cong)

lemma log_Cons:
  "drop_expired t ((n, e) # cache) = (if t \<le> e then (n, e) # drop_expired t cache else drop_expired t cache)"
  "recent t ((n, u) # past) = (if t \<le> u + 30 * 1000000000 then (n, u) # recent t past else recent t past)"
  by (simp_all add: drop_expired_def recent_def)

interpretation replay_log: guard_refinement consumeCommandNonce log_consume cache_log
proof
  fix t u :: int and s :: nonce_cache and a :: nonce_log and n :: bytes
  assume rel: "cache_log t s a" and "t \<le> u"
  then have live: "drop_expired u s = map (\<lambda>(n, u). (n, u + commandClockSkew)) (recent u a)" by (simp add: cache_log_def)
  then have "fst ` set (drop_expired u s) = fst ` set (recent u a)" "length (drop_expired u s) = length (recent u a)"
    by (simp_all add: image_image case_prod_beta)
  then have dec: "fst (consumeCommandNonce s n u) = fst (log_consume a n u)"
    by (simp add: consumeCommandNonce_def log_consume_def Let_def maxReplayNonces_def)
  then show "fst (consumeCommandNonce s n u) = fst (log_consume a n u)" .
  have later: "drop_expired v (drop_expired u s) = map (\<lambda>(n, u). (n, u + commandClockSkew)) (recent v a)" if "u \<le> v" for v
    using rel \<open>t \<le> u\<close> that unfolding drop_expired_twice [OF that] by (simp add: cache_log_def)
  show "cache_log u (snd (consumeCommandNonce s n u)) (snd (log_consume a n u))"
  proof (cases "fst (consumeCommandNonce s n u)")
    case True
    then have "snd (consumeCommandNonce s n u) = (n, u + commandClockSkew) # drop_expired u s" "snd (log_consume a n u) = (n, u) # a"
      using dec by (auto simp: consumeCommandNonce_def log_consume_def Let_def split: if_splits)
    with later show ?thesis
      by (simp add: cache_log_def log_Cons commandClockSkew_def)
  next
    case False
    then have "snd (consumeCommandNonce s n u) = drop_expired u s" "snd (log_consume a n u) = a"
      using dec by (auto simp: consumeCommandNonce_def log_consume_def Let_def split: if_splits)
    with later show ?thesis by (simp add: cache_log_def)
  qed
qed

subsection \<open>Properties\<close>

text \<open>C8: the bounded cache decides like an unbounded log: for any sequence of offered nonces with clock readings that do
  not decrease, the requests that the pruned cache of the service accepts are exactly those that a log of everything
  accepted so far would accept, which forgets nothing, refuses what it accepted in the last 30 seconds, and admits at
  most 4096 nonces in that time.\<close>

theorem cache_refines_log:
  assumes "sorted (map snd reqs)"
  shows "accepted consumeCommandNonce [] reqs = accepted log_consume [] reqs"
proof (cases reqs)
  case (Cons r rs)
  have "cache_log (snd r) [] []" by (simp add: cache_log_def drop_expired_def recent_def)
  moreover have "sorted (snd r # map snd reqs)" using assms Cons by simp
  ultimately show ?thesis by (rule replay_log.accepted_eq)
qed simp

theorem cache_refines_log_witness:
  "accepted log_consume [] [(''a'', 0), (''b'', 5), (''a'', 7), (''a'', 31000000000)] = [(''a'', 0), (''b'', 5), (''a'', 31000000000)]"
proof -
  have "accepted consumeCommandNonce [] [(''a'', 0), (''b'', 5), (''a'', 7), (''a'', 31000000000)] = [(''a'', 0), (''b'', 5), (''a'', 31000000000)]"
    by code_simp
  with cache_refines_log [of "[(''a'', 0), (''b'', 5), (''a'', 7), (''a'', 31000000000)]"] show ?thesis by simp
qed

text \<open>In any sequence of offered nonces with non-decreasing clock readings, starting from a well-formed
  cache, two acceptances of one nonce are more than 30 seconds apart, also when the cache fills up.\<close>

theorem replay_window:
  assumes "cache_ok cache" and "sorted (map snd reqs)"
  shows "sorted_wrt (\<lambda>(n, t) (m, u). n = m \<longrightarrow> t + 30 * 1000000000 < u) (accepted consumeCommandNonce cache reqs)"
  using replay.accepted_apart [OF assms] by (simp add: commandClockSkew_def)

theorem replay_window_witness:
  "sorted_wrt (\<lambda>(n, t) (m, u). n = m \<longrightarrow> t + 30 * 1000000000 < u)
     (accepted consumeCommandNonce [] [(''a'', 0), (''b'', 5), (''a'', 7)])"
  using replay_window [of "[]" "[(''a'', 0), (''b'', 5), (''a'', 7)]"] by (simp add: cache_ok_def)

text \<open>The replay cache never holds more than 4096 nonces nor one nonce twice; an expired nonce is dropped,
  a live one is never evicted, and at 4096 live nonces every new one is refused.\<close>

theorem replay_cache_bounded:
  assumes "cache_ok cache"
  shows "cache_ok (snd (consumeCommandNonce cache nonce now)) \<and>
    (\<forall>(n, e) \<in> set cache. now \<le> e \<longrightarrow> (n, e) \<in> set (snd (consumeCommandNonce cache nonce now))) \<and>
    (fst (consumeCommandNonce cache nonce now) \<longleftrightarrow>
       (\<forall>(n, e) \<in> set cache. n = nonce \<longrightarrow> e < now) \<and> length (filter (\<lambda>(n, e). now \<le> e) cache) < 4096)"
proof -
  have d: "drop_expired now cache = filter (\<lambda>(n, e). now \<le> e) cache"
    by (simp add: drop_expired_def not_less)
  have "nonce \<in> fst ` set (drop_expired now cache) \<longleftrightarrow> (\<exists>e. (nonce, e) \<in> set cache \<and> now \<le> e)"
    unfolding d by (auto intro: rev_image_eqI)
  also have "\<dots> \<longleftrightarrow> \<not> (\<forall>(n, e) \<in> set cache. n = nonce \<longrightarrow> e < now)"
    unfolding not_less [symmetric] by blast
  finally have "nonce \<in> fst ` set (drop_expired now cache) \<longleftrightarrow>
      \<not> (\<forall>(n, e) \<in> set cache. n = nonce \<longrightarrow> e < now)" .
  then have acc: "fst (consumeCommandNonce cache nonce now) \<longleftrightarrow>
      (\<forall>(n, e) \<in> set cache. n = nonce \<longrightarrow> e < now) \<and> length (filter (\<lambda>(n, e). now \<le> e) cache) < 4096"
    by (simp add: consumeCommandNonce_def Let_def d [symmetric] maxReplayNonces_def)
  have "set (drop_expired now cache) \<subseteq> set (snd (consumeCommandNonce cache nonce now))"
    by (auto simp: consumeCommandNonce_def Let_def)
  then have "\<forall>(n, e) \<in> set cache. now \<le> e \<longrightarrow> (n, e) \<in> set (snd (consumeCommandNonce cache nonce now))"
    by (auto simp: d)
  with acc cache_ok_consume [OF assms, of nonce now] show ?thesis by blast
qed

theorem replay_cache_bounded_witness: "fst (consumeCommandNonce [(''a'', 5)] ''b'' 3)"
  using replay_cache_bounded [of "[(''a'', 5)]" "''b''" 3] by (simp add: cache_ok_def maxReplayNonces_def)

text \<open>A command whose timestamp is not in the future cannot be replayed: once it was accepted, it is
  refused later by the timestamp window or by the cache, when wall and monotonic clock advance together and
  the cache has handled any other nonces in between.\<close>

theorem no_replay_of_past_command:
  assumes "cache_ok cache" and "validateCommand w1 cmd = nil" and "cTimestamp cmd * 1000000 \<le> w1"
    and "consumeCommandNonce cache (cNonce cmd) m1 = (True, cache1)" and "sorted (m1 # map snd reqs)"
    and "(cNonce cmd, m2) \<in> set (accepted consumeCommandNonce cache1 reqs)" and "w2 - w1 = m2 - m1"
  shows "validateCommand w2 cmd \<noteq> nil"
proof
  assume again: "validateCommand w2 cmd = nil"
  have "cache_ok cache1" using cache_ok_consume [OF assms(1), of "cNonce cmd" m1] assms(4) by simp
  with replay.accept_blocks [OF assms(1,4)] assms(5,6) have "m1 + commandClockSkew < m2"
    using replay.blocked_not_accepted [of cache1 "cNonce cmd" "m1 + commandClockSkew" m2 reqs] by simp
  with assms(3,7) have "w2 - cTimestamp cmd * 1000000 > commandClockSkew" by linarith
  with validateCommand_nil(6) [OF again] show False by simp
qed

theorem no_replay_of_past_command_witness: "validateCommand 33000000000 statusCommand \<noteq> nil"
proof -
  let ?n = "cNonce statusCommand"
  have a: "consumeCommandNonce [] ?n 0 = (True, [(?n, 30000000000)])"
    by (simp add: consumeCommandNonce_def drop_expired_def maxReplayNonces_def commandClockSkew_def)
  have b: "(?n, 31000000000) \<in> set (accepted consumeCommandNonce [(?n, 30000000000)] [(?n, 31000000000)])"
    by (simp add: consumeCommandNonce_def drop_expired_def maxReplayNonces_def)
  have "cTimestamp statusCommand * 1000000 \<le> 2000000000" by (simp add: statusCommand_def)
  from no_replay_of_past_command [OF _ statusCommand_valid this a _ b, of 33000000000] show ?thesis
    by (simp add: cache_ok_def)
qed


end
