(* ===== verification/Paths.thy ===== *)
theory Paths
  imports GoStrings
begin

text \<open>
  \<open>path/filepath\<close> on Unix: lexical cleaning of a path, its last element and directory, joining,
  and the relative path between two names.  A cleaned path is the list of its components;
  \<open>..\<close> is resolved against the components before it, and is dropped at the root.
\<close>

abbreviation slash :: char where "slash \<equiv> CHR ''/''"

definition IsAbs :: "bytes \<Rightarrow> bool" where
  "IsAbs p = HasPrefix p [slash]"

text \<open>The components of a path after cleaning, most recent first while scanning.\<close>

fun clean_step :: "bool \<Rightarrow> bytes list \<Rightarrow> bytes list \<Rightarrow> bytes list" where
  "clean_step rooted st [] = rev st"
| "clean_step rooted st (c # cs) =
     (if c = [] \<or> c = ''.'' then clean_step rooted st cs
      else if c = ''..'' then
        (case st of
           [] \<Rightarrow> if rooted then clean_step rooted [] cs else clean_step rooted [c] cs
         | d # ds \<Rightarrow> if d = ''..'' then clean_step rooted (c # st) cs else clean_step rooted ds cs)
      else clean_step rooted (c # st) cs)"

definition clean_comps :: "bytes \<Rightarrow> bytes list" where
  "clean_comps p = clean_step (IsAbs p) [] (Split p slash)"

definition path_text :: "bool \<Rightarrow> bytes list \<Rightarrow> bytes" where
  "path_text rooted cs =
     (let body = (if rooted then [slash] else []) @ Join cs [slash]
      in if body = [] then ''.'' else body)"

definition Clean :: "bytes \<Rightarrow> bytes" where
  "Clean p = path_text (IsAbs p) (clean_comps p)"

text \<open>\<open>filepath.Base\<close>: trailing slashes stripped, then everything after the last slash.\<close>

definition Base :: "bytes \<Rightarrow> bytes" where
  "Base p =
     (if p = [] then ''.''
      else let q = rev (dropWhile (\<lambda>c. c = slash) (rev p)) in
        if q = [] then [slash] else last (Split q slash))"

text \<open>\<open>filepath.Dir\<close>: everything up to the last slash, cleaned.\<close>

definition Dir :: "bytes \<Rightarrow> bytes" where
  "Dir p = Clean (rev (dropWhile (\<lambda>c. c \<noteq> slash) (rev p)))"

text \<open>\<open>filepath.Join\<close>: empty elements ignored, the rest joined and cleaned.\<close>

definition JoinPath :: "bytes list \<Rightarrow> bytes" where
  "JoinPath es =
     (let ne = filter (\<lambda>e. e \<noteq> []) es in if ne = [] then [] else Clean (Join ne [slash]))"

fun strip_common :: "bytes list \<Rightarrow> bytes list \<Rightarrow> bytes list \<times> bytes list" where
  "strip_common (a # as) (b # bs) = (if a = b then strip_common as bs else (a # as, b # bs))"
| "strip_common as bs = (as, bs)"

text \<open>\<open>filepath.Rel\<close>: \<open>None\<close> is the error result.\<close>

definition Rel :: "bytes \<Rightarrow> bytes \<Rightarrow> bytes option" where
  "Rel base targ =
     (if Clean base = Clean targ then Some ''.''
      else if IsAbs base \<noteq> IsAbs targ then None
      else (case strip_common (clean_comps base) (clean_comps targ) of (rb, rt) \<Rightarrow>
        if rb \<noteq> [] \<and> hd rb = ''..'' then None
        else Some (Join (map (\<lambda>_. ''..'') rb @ rt) [slash])))"

subsection \<open>Laws\<close>

text \<open>Every component of a cleaned path is a proper name, except leading \<open>..\<close> of a relative path.\<close>

definition comp_ok :: "bytes \<Rightarrow> bool" where
  "comp_ok c = (c \<noteq> [] \<and> c \<noteq> ''.'' \<and> slash \<notin> set c)"

lemma clean_step_ok:
  "list_all (\<lambda>c. slash \<notin> set c) cs \<Longrightarrow> list_all comp_ok st \<Longrightarrow>
   list_all comp_ok (clean_step rooted st cs)"
proof (induction cs arbitrary: st)
  case Nil
  then show ?case by simp
next
  case (Cons c cs)
  then show ?case by (cases st; cases rooted) (simp_all add: comp_ok_def)
qed

lemma clean_comps_ok: "c \<in> set (clean_comps p) \<Longrightarrow> comp_ok c"
proof -
  have "list_all comp_ok (clean_comps p)"
    unfolding clean_comps_def using Split_no_sep by (intro clean_step_ok) (auto simp: list_all_iff)
  then show "c \<in> set (clean_comps p) \<Longrightarrow> comp_ok c" by (simp add: list_all_iff)
qed

lemma clean_step_no_up:
  "list_all (\<lambda>c. c \<noteq> ''..'') st \<Longrightarrow> list_all (\<lambda>c. c \<noteq> ''..'') (clean_step True st cs)"
proof (induction cs arbitrary: st)
  case Nil
  then show ?case by simp
next
  case (Cons c cs)
  then show ?case by (cases st) simp_all
qed

lemma clean_comps_no_up: "IsAbs p \<Longrightarrow> ''..'' \<notin> set (clean_comps p)"
  using clean_step_no_up [of "[]" "Split p slash"] by (auto simp: clean_comps_def list_all_iff)

lemma strip_common_append:
  "strip_common as bs = (ra, rb) \<Longrightarrow> \<exists>pre. as = pre @ ra \<and> bs = pre @ rb"
proof (induction as bs rule: strip_common.induct)
  case (1 a as b bs)
  show ?case
  proof (cases "a = b")
    case True
    with 1 obtain pre where "as = pre @ ra \<and> bs = pre @ rb" by auto
    with True show ?thesis by (intro exI [of _ "a # pre"]) simp
  next
    case False
    with 1 show ?thesis by (intro exI [of _ "[]"]) auto
  qed
qed auto

lemma clean_step_plain:
  "(\<forall>c \<in> set cs. comp_ok c \<and> c \<noteq> ''..'') \<Longrightarrow> clean_step rooted st cs = rev st @ cs"
  by (induction cs arbitrary: st) (auto simp: comp_ok_def)

lemma IsAbs_slash [simp]: "IsAbs (slash # s)"
  by (simp add: IsAbs_def HasPrefix_def)

lemma Clean_abs: "IsAbs p \<Longrightarrow> Clean p = slash # Join (clean_comps p) [slash]"
  by (simp add: Clean_def path_text_def Let_def)

text \<open>Cleaning an absolute path keeps its components.\<close>

lemma clean_comps_Clean:
  assumes "IsAbs p"
  shows "clean_comps (Clean p) = clean_comps p"
proof -
  let ?cs = "clean_comps p"
  have ok: "\<forall>c \<in> set ?cs. comp_ok c \<and> c \<noteq> ''..''"
    using clean_comps_ok clean_comps_no_up [OF assms] by metis
  have split: "Split (Join ?cs [slash]) slash = (if ?cs = [] then [[]] else ?cs)"
    using ok by (simp add: Split_Join comp_ok_def)
  have "clean_comps (slash # t) = clean_step True [] (Split t slash)" for t
    by (simp add: clean_comps_def)
  then have "clean_comps (Clean p) = clean_step True [] (Split (Join ?cs [slash]) slash)"
    unfolding Clean_abs [OF assms] .
  also have "\<dots> = ?cs"
    using clean_step_plain [OF ok, of True "[]"] by (simp add: split)
  finally show ?thesis .
qed

lemma Join_not_abs:
  assumes "\<forall>c \<in> set cs. comp_ok c"
  shows "\<not> IsAbs (Join cs [slash])"
proof (cases cs)
  case Nil
  then show ?thesis by (simp add: IsAbs_def HasPrefix_def)
next
  case (Cons c ds)
  with assms obtain x c' where c: "c = x # c'" "x \<noteq> slash"
    by (cases c) (auto simp: comp_ok_def)
  obtain t where "Join cs [slash] = x # t"
    unfolding Cons c(1) by (cases ds) auto
  with c(2) show ?thesis by (simp add: IsAbs_def HasPrefix_def)
qed

lemma IsAbs_Clean [simp]: "IsAbs (Clean p) = IsAbs p"
proof (cases "IsAbs p")
  case True
  then show ?thesis by (simp add: Clean_abs)
next
  case False
  have "\<not> IsAbs (Join (clean_comps p) [slash])"
    using clean_comps_ok by (intro Join_not_abs) blast
  with False show ?thesis
    by (simp add: Clean_def path_text_def Let_def) (simp add: IsAbs_def HasPrefix_def)
qed

end
