(* ===== verification/FanLinux.thy ===== *)
theory FanLinux
  imports FanControl Paths FloatText Sha256 "HOL-Library.List_Lexorder" "HOL-Library.Char_ord"
begin

text \<open>
  The Linux hwmon fan backend (\<open>fan_control_linux.go\<close>).  The operating system is a record of
  what each system call answers at the time of the command: environment variables, file
  contents, which files exist or open for writing, symbolic links, the sorted or unsorted glob
  results, and the error a write returns.  The writes an operation makes are returned as a list.

  Shown here: discovered targets lie inside the hwmon class directory, no target is listed
  twice, a supported target is in manual mode with a matching RPM sensor, and the backend keeps
  the contract \<open>fan_backend\<close>: the duty cycle written is always between 0 and 255.
\<close>

record os_view =
  osGetenv :: "bytes \<Rightarrow> bytes"
  osReadFile :: "bytes \<Rightarrow> bytes option"
  osStat :: "bytes \<Rightarrow> bool"
  osOpenWrite :: "bytes \<Rightarrow> bool"
  osEvalSymlinks :: "bytes \<Rightarrow> bytes option"
  osReadlink :: "bytes \<Rightarrow> bytes option"
  osGlob :: "bytes \<Rightarrow> bytes list option"
  osWriteErr :: "bytes \<Rightarrow> gerr"

record linuxFanTarget =
  tId :: bytes
  tPwmPath :: bytes
  tFanInput :: bytes
  tName :: bytes
  tSupported :: bool
  tReason :: bytes
  tFanRPM :: float64
  tRpmAvailable :: bool
  tFanPercent :: float64
  tPercentAvailable :: bool

subsection \<open>Paths and identities\<close>

definition canonicalLinuxHwmonDevicePath :: "bytes \<Rightarrow> bytes" where
  "canonicalLinuxHwmonDevicePath devicePath =
     (let resolved = Clean devicePath; hwmonName = Base resolved in
      if HasPrefix hwmonName ''hwmon'' \<and> Atoi (TrimPrefix hwmonName ''hwmon'') \<noteq> None
         \<and> Base (Dir resolved) = ''hwmon''
      then Dir (Dir resolved)
      else resolved)"

definition stableLinuxFanChannelID :: "bytes \<Rightarrow> int \<Rightarrow> bytes" where
  "stableLinuxFanChannelID devicePath pwmNumber =
     hex_EncodeToString (take 8 (sha256 (Clean devicePath @ ''#pwm'' @ FormatInt pwmNumber)))"

definition parseLinuxPWMNumber :: "bytes \<Rightarrow> int option" where
  "parseLinuxPWMNumber pwmPath =
     (let base = Base pwmPath in
      if \<not> HasPrefix base ''pwm'' then None
      else case Atoi (TrimPrefix base ''pwm'') of
             None \<Rightarrow> None
           | Some number \<Rightarrow> if 0 < number then Some number else None)"

definition pathWithinRoot :: "bytes \<Rightarrow> bytes \<Rightarrow> bool" where
  "pathWithinRoot rootDir path =
     (case Rel (Clean rootDir) (Clean path) of
        None \<Rightarrow> False
      | Some relative \<Rightarrow> relative \<noteq> ''.'' \<and> relative \<noteq> ''..''
          \<and> \<not> HasPrefix relative (''..'' @ [slash]) \<and> HasPrefix relative ''hwmon'')"

subsection \<open>Configured targets\<close>

text \<open>The loop over the configured paths; \<open>acc\<close> is \<open>cleanPaths\<close>, whose elements are also the
  keys of \<open>unique\<close>.\<close>

fun configured_loop :: "bytes \<Rightarrow> bytes list \<Rightarrow> bytes list \<Rightarrow> bytes list res" where
  "configured_loop rootDir [] acc = Inr acc"
| "configured_loop rootDir (p # ps) acc =
     (let path = Clean (TrimSpace p) in
      if path = ''.'' \<or> \<not> IsAbs path \<or> \<not> pathWithinRoot rootDir path
      then Inl (''configured PWM targets must be absolute paths inside '' @ rootDir)
      else if path \<in> set acc then configured_loop rootDir ps acc
      else configured_loop rootDir ps (acc @ [path]))"

definition linuxConfiguredPWMPaths :: "os_view \<Rightarrow> bytes \<Rightarrow> bytes list \<times> bool \<times> gerr" where
  "linuxConfiguredPWMPaths v rootDir =
     (let multiple = TrimSpace (osGetenv v ''HWCONTROL_HWMON_PWMS'');
          single = TrimSpace (osGetenv v ''HWCONTROL_HWMON_PWM'');
          configured = (if multiple = [] then single else multiple)
      in if configured = [] then ([], False, nil)
         else case configured_loop rootDir (Split configured (CHR '','')) [] of
                Inl e \<Rightarrow> ([], True, Err e)
              | Inr cleanPaths \<Rightarrow>
                  if cleanPaths = [] then ([], True, Err ''no valid PWM targets configured'')
                  else (cleanPaths, True, nil))"

subsection \<open>Discovery\<close>

text \<open>Whether a target accepts writes, and otherwise why not (the chain of checks in the loop
  body): the RPM sensor, the control mode, and a trial open for writing.\<close>

definition target_support :: "os_view \<Rightarrow> bytes \<Rightarrow> bytes \<Rightarrow> bytes \<Rightarrow> int \<Rightarrow> bool \<times> bytes" where
  "target_support v deviceDir pwmPath fanInput number =
     (if \<not> osStat v fanInput then
        (False, ''matching fan'' @ FormatInt number @ ''_input RPM sensor is unavailable'')
      else case osReadFile v (JoinPath [deviceDir, ''pwm'' @ FormatInt number @ ''_enable'']) of
        None \<Rightarrow> (False, ''PWM control mode cannot be read'')
      | Some data \<Rightarrow>
          (case Atoi (TrimSpace data) of
             None \<Rightarrow> (False, ''PWM control mode is invalid'')
           | Some enable \<Rightarrow>
               if enable \<noteq> 1 then
                 (False, ''PWM is not in manual mode (pwm'' @ FormatInt number @ ''_enable='' @
                    FormatInt enable @ ''); the application will not switch modes automatically'')
               else if \<not> osOpenWrite v pwmPath then
                 (False, ''PWM control target is not writable by the bridge service'')
               else (True, [])))"

definition read_rpm :: "os_view \<Rightarrow> bytes \<Rightarrow> float64 option" where
  "read_rpm v fanInput =
     (case osReadFile v fanInput of
        None \<Rightarrow> None
      | Some data \<Rightarrow>
          (case ParseFloat (TrimSpace data) of (rpm, ok) \<Rightarrow>
             if ok \<and> isFiniteNonNegative rpm then Some rpm else None))"

definition read_percent :: "os_view \<Rightarrow> bytes \<Rightarrow> float64 option" where
  "read_percent v pwmPath =
     (case osReadFile v pwmPath of
        None \<Rightarrow> None
      | Some data \<Rightarrow>
          (case Atoi (TrimSpace data) of
             None \<Rightarrow> None
           | Some pwm \<Rightarrow>
               if 0 \<le> pwm \<and> pwm \<le> 255
               then Some (fdiv (fmul (fof_int pwm) (Fin 100)) (Fin 255)) else None))"

definition read_name :: "os_view \<Rightarrow> bytes \<Rightarrow> bytes" where
  "read_name v deviceDir =
     (case osReadFile v (JoinPath [deviceDir, ''name'']) of
        None \<Rightarrow> ''hwmon''
      | Some data \<Rightarrow> if TrimSpace data = [] then ''hwmon'' else TrimSpace data)"

definition make_target :: "os_view \<Rightarrow> bytes set \<Rightarrow> bytes \<Rightarrow> int \<Rightarrow> linuxFanTarget" where
  "make_target v seenIDs pwmPath number =
     (let deviceDir = Dir pwmPath;
          idPath = (case osEvalSymlinks v deviceDir of None \<Rightarrow> deviceDir | Some p \<Rightarrow> p);
          fanInput = JoinPath [deviceDir, ''fan'' @ FormatInt number @ ''_input''];
          name = read_name v deviceDir;
          id1 = stableLinuxFanChannelID (canonicalLinuxHwmonDevicePath idPath @ ''#'' @ name) number;
          id' = (if id1 \<in> seenIDs then stableLinuxFanChannelID (idPath @ ''#'' @ name) number else id1);
          sup = target_support v deviceDir pwmPath fanInput number;
          rpm = read_rpm v fanInput;
          percent = read_percent v pwmPath
      in \<lparr>tId = id', tPwmPath = pwmPath, tFanInput = fanInput, tName = name,
          tSupported = fst sup, tReason = snd sup,
          tFanRPM = (case rpm of None \<Rightarrow> Fin 0 | Some r \<Rightarrow> r), tRpmAvailable = (rpm \<noteq> None),
          tFanPercent = (case percent of None \<Rightarrow> Fin 0 | Some p \<Rightarrow> p),
          tPercentAvailable = (percent \<noteq> None)\<rparr>)"

fun discover_loop ::
  "os_view \<Rightarrow> bytes \<Rightarrow> bytes list \<Rightarrow> bytes set \<Rightarrow> bytes set \<Rightarrow> linuxFanTarget list" where
  "discover_loop v rootDir [] seenPaths seenIDs = []"
| "discover_loop v rootDir (entry # entries) seenPaths seenIDs =
     (let pwmPath = Clean entry in
      if \<not> pathWithinRoot rootDir pwmPath then discover_loop v rootDir entries seenPaths seenIDs
      else if pwmPath \<in> seenPaths then discover_loop v rootDir entries seenPaths seenIDs
      else case parseLinuxPWMNumber pwmPath of
             None \<Rightarrow> discover_loop v rootDir entries (insert pwmPath seenPaths) seenIDs
           | Some number \<Rightarrow>
               let target = make_target v seenIDs pwmPath number in
               target # discover_loop v rootDir entries (insert pwmPath seenPaths)
                          (insert (tId target) seenIDs))"

definition discoverLinuxFanTargets :: "os_view \<Rightarrow> bytes \<Rightarrow> bytes list option \<Rightarrow> linuxFanTarget list" where
  "discoverLinuxFanTargets v rootDir0 configured =
     (let rootDir = Clean rootDir0 in
      case (case configured of
              Some cs \<Rightarrow> Some cs
            | None \<Rightarrow> osGlob v (JoinPath [rootDir, ''hwmon*'', ''pwm[0-9]*''])) of
        None \<Rightarrow> []
      | Some entries \<Rightarrow> discover_loop v rootDir (sort entries) {} {})"

definition hwmonRoot :: bytes where
  "hwmonRoot = ''/sys/class/hwmon''"

definition linuxFanChannelTargets :: "os_view \<Rightarrow> linuxFanTarget list" where
  "linuxFanChannelTargets v =
     (case linuxConfiguredPWMPaths v hwmonRoot of (configured, hasConfiguration, err) \<Rightarrow>
        if err \<noteq> nil then []
        else if hasConfiguration then discoverLinuxFanTargets v hwmonRoot (Some configured)
        else discoverLinuxFanTargets v hwmonRoot None)"

definition linuxFanTargets :: "os_view \<Rightarrow> linuxFanTarget list" where
  "linuxFanTargets v = filter tSupported (linuxFanChannelTargets v)"

subsection \<open>The backend operations\<close>

definition target_channel :: "linuxFanTarget \<Rightarrow> FanChannel" where
  "target_channel t =
     \<lparr>chID = tId t,
      chName = tName t @ '' PWM '' @ TrimPrefix (Base (tPwmPath t)) ''pwm'',
      chBackend = ''linux-hwmon'', chSupported = tSupported t, chFanRPM = tFanRPM t,
      chRPMAvailable = tRpmAvailable t, chFanPercent = tFanPercent t,
      chPercentAvailable = tPercentAvailable t, chReason = tReason t\<rparr>"

definition listFanChannels :: "os_view \<Rightarrow> FanChannel list" where
  "listFanChannels v = map target_channel (linuxFanChannelTargets v)"

definition detectFanControl :: "os_view \<Rightarrow> FanControlInfo" where
  "detectFanControl v =
     (case linuxFanTargets v of
        [] \<Rightarrow> fanControlUnavailable ''no writable manual-mode hwmon PWM target with a matching RPM sensor''
      | [t] \<Rightarrow> \<lparr>fciSupported = True, fciBackend = ''linux-hwmon'', fciHandle = tPwmPath t, fciReason = tName t\<rparr>
      | _ \<Rightarrow> fanControlUnavailable ''multiple fan channels detected; use individual fan-channel control'')"

text \<open>\<open>int(percent * 255.0 / 100.0)\<close>; a value that does not fit a 64-bit integer converts to
  the smallest one, as on amd64.\<close>

definition pwm_of_percent :: "float64 \<Rightarrow> int" where
  "pwm_of_percent percent =
     (case fto_int (fdiv (fmul percent (Fin 255)) (Fin 100)) of Some n \<Rightarrow> n | None \<Rightarrow> - (2 ^ 63))"

definition writeLinuxFanTarget :: "os_view \<Rightarrow> linuxFanTarget \<Rightarrow> float64 \<Rightarrow> gerr \<times> writes" where
  "writeLinuxFanTarget v target percent =
     (let value = pwm_of_percent percent;
          value = (if value < 0 then 0 else value);
          value = (if value > 255 then 255 else value)
      in (case osWriteErr v (tPwmPath target) of
            Some e \<Rightarrow> Err (''write '' @ Base (tPwmPath target) @ '': '' @ e)
          | None \<Rightarrow> nil,
          [(tPwmPath target, FormatInt value @ [CHR 0x0A])]))"

fun set_channel_loop :: "os_view \<Rightarrow> linuxFanTarget list \<Rightarrow> bytes \<Rightarrow> float64 \<Rightarrow> gerr \<times> writes" where
  "set_channel_loop v [] i percent =
     (Err ''fan channel is not currently supported or its hardware mapping changed'', [])"
| "set_channel_loop v (target # targets) i percent =
     (if tId target \<noteq> i then set_channel_loop v targets i percent
      else if \<not> tSupported target
      then (Err (''fan channel is monitor-only: '' @ tReason target), [])
      else writeLinuxFanTarget v target percent)"

definition setLinuxFanControlChannel ::
  "os_view \<Rightarrow> linuxFanTarget list \<Rightarrow> bytes \<Rightarrow> float64 \<Rightarrow> gerr \<times> writes" where
  "setLinuxFanControlChannel v targets i percent =
     (case validateFanPercent percent of
        Some e \<Rightarrow> (Err e, [])
      | None \<Rightarrow>
          if \<not> validFanChannelID i then (Err ''invalid fan-channel identifier'', [])
          else set_channel_loop v targets i percent)"

definition setFanControlChannel :: "os_view \<Rightarrow> bytes \<Rightarrow> float64 \<Rightarrow> gerr \<times> writes" where
  "setFanControlChannel v i percent = setLinuxFanControlChannel v (linuxFanTargets v) i percent"

definition setFanControl :: "os_view \<Rightarrow> float64 \<Rightarrow> gerr \<times> writes" where
  "setFanControl v percent =
     (case validateFanPercent percent of
        Some e \<Rightarrow> (Err e, [])
      | None \<Rightarrow>
          let info = detectFanControl v in
          if \<not> fciSupported info \<or> fciHandle info = []
          then (Err (''linux hwmon fan control unavailable: '' @ fciReason info), [])
          else (osWriteErr v (fciHandle info),
                [(fciHandle info, FormatInt (pwm_of_percent percent) @ [CHR 0x0A])]))"

definition linux_ops :: "os_view fan_ops" where
  "linux_ops = \<lparr>opDetect = detectFanControl, opSet = setFanControl,
     opList = listFanChannels, opSetChannel = setFanControlChannel\<rparr>"


subsection \<open>Containment in the hwmon class directory\<close>

text \<open>A path is inside \<open>rootDir\<close> when its components extend those of \<open>rootDir\<close>, with a first
  component that starts with \<open>hwmon\<close>.\<close>

definition inside :: "bytes \<Rightarrow> bytes \<Rightarrow> bool" where
  "inside rootDir path =
     (let r = clean_comps rootDir; p = clean_comps path in
      length r < length p \<and> take (length r) p = r \<and> HasPrefix (p ! length r) ''hwmon'')"

lemma Join_updirs:
  "rb \<noteq> [] \<Longrightarrow> Join (map (\<lambda>_. ''..'') rb @ rt) [slash] = ''..'' \<or>
   HasPrefix (Join (map (\<lambda>_. ''..'') rb @ rt) [slash]) (''..'' @ [slash])"
  by (cases rb; cases "tl rb"; cases rt) (simp_all add: HasPrefix_def)

lemma HasPrefix_Join_hd:
  assumes "HasPrefix (Join rt [sep]) p" and "sep \<notin> set p" and "p \<noteq> []"
  shows "rt \<noteq> [] \<and> HasPrefix (hd rt) p"
proof (cases rt)
  case Nil
  with assms show ?thesis by (simp add: HasPrefix_def)
next
  case (Cons c cs)
  show ?thesis
  proof (cases cs)
    case Nil
    with Cons assms show ?thesis by simp
  next
    case (Cons d ds)
    with \<open>rt = c # cs\<close> assms(1) have pre: "take (length p) (c @ sep # Join cs [sep]) = p"
      by (simp add: HasPrefix_def)
    have "length p \<le> length c"
    proof (rule ccontr)
      assume "\<not> length p \<le> length c"
      then obtain m where "length p - length c = Suc m" by (cases "length p - length c") auto
      then have "sep \<in> set (take (length p) (c @ sep # Join cs [sep]))" by simp
      with pre assms(2) show False by simp
    qed
    with pre show ?thesis using \<open>rt = c # cs\<close> by (simp add: HasPrefix_def)
  qed
qed

lemma pathWithinRoot_inside:
  assumes "pathWithinRoot rootDir path" and "IsAbs rootDir"
  shows "IsAbs path \<and> inside rootDir path"
proof -
  obtain rel where rel: "Rel (Clean rootDir) (Clean path) = Some rel" "rel \<noteq> ''.''" "rel \<noteq> ''..''"
    "\<not> HasPrefix rel (''..'' @ [slash])" "HasPrefix rel ''hwmon''"
    using assms(1) by (auto simp: pathWithinRoot_def split: option.splits)
  have abs: "IsAbs path"
    using rel(1,2) assms(2) by (auto simp: Rel_def split: if_splits)
  obtain rb rt where st: "strip_common (clean_comps rootDir) (clean_comps path) = (rb, rt)"
    by fastforce
  have join: "rel = Join (map (\<lambda>_. ''..'') rb @ rt) [slash]"
    using rel(1,2) st abs assms(2) by (auto simp: Rel_def clean_comps_Clean split: if_splits)
  with Join_updirs [of rb rt] rel(3,4) have "rb = []" by blast
  moreover from this join rel(5) have "rt \<noteq> [] \<and> HasPrefix (hd rt) ''hwmon''"
    by (intro HasPrefix_Join_hd [of rt slash]) auto
  moreover obtain pre where "clean_comps rootDir = pre @ rb" "clean_comps path = pre @ rt"
    using strip_common_append [OF st] by blast
  ultimately have "inside rootDir path"
    by (cases rt) (simp_all add: inside_def Let_def)
  with abs show ?thesis by simp
qed

lemma discover_loop_member:
  "t \<in> set (discover_loop v rootDir es sp si) \<Longrightarrow>
   pathWithinRoot rootDir (tPwmPath t) \<and> tPwmPath t \<notin> sp \<and>
   (\<exists>ids number. parseLinuxPWMNumber (tPwmPath t) = Some number \<and> t = make_target v ids (tPwmPath t) number)"
proof (induction es arbitrary: sp si)
  case Nil
  then show ?case by simp
next
  case (Cons e es)
  have path: "tPwmPath (make_target v ids p n) = p" for ids p n
    by (simp add: make_target_def Let_def)
  from Cons show ?case
    by (fastforce simp: Let_def path split: if_splits option.splits)
qed

lemma discover_loop_distinct: "distinct (map tPwmPath (discover_loop v rootDir es sp si))"
proof (induction es arbitrary: sp si)
  case Nil
  then show ?case by simp
next
  case (Cons e es)
  have "Clean e \<notin> tPwmPath ` set (discover_loop v rootDir es (insert (Clean e) sp) si')" for si'
    using discover_loop_member [of _ v rootDir es "insert (Clean e) sp" si'] by fastforce
  moreover have "tPwmPath (make_target v si (Clean e) n) = Clean e" for n
    by (simp add: make_target_def Let_def)
  ultimately show ?case using Cons by (simp add: Let_def split: option.split)
qed

lemma discover_member:
  "t \<in> set (discoverLinuxFanTargets v rootDir c) \<Longrightarrow>
   pathWithinRoot (Clean rootDir) (tPwmPath t) \<and>
   (\<exists>ids number. parseLinuxPWMNumber (tPwmPath t) = Some number \<and> t = make_target v ids (tPwmPath t) number)"
  by (auto simp: discoverLinuxFanTargets_def Let_def dest: discover_loop_member split: option.splits)

lemma discover_distinct: "distinct (map tPwmPath (discoverLinuxFanTargets v rootDir c))"
  by (auto simp: discoverLinuxFanTargets_def Let_def discover_loop_distinct split: option.splits)

lemma channel_targets_discover:
  "linuxFanChannelTargets v = [] \<or> (\<exists>c. linuxFanChannelTargets v = discoverLinuxFanTargets v hwmonRoot c)"
  by (auto simp: linuxFanChannelTargets_def split: prod.splits)

lemma linuxFanTargets_subset: "t \<in> set (linuxFanTargets v) \<longleftrightarrow> t \<in> set (linuxFanChannelTargets v) \<and> tSupported t"
  by (simp add: linuxFanTargets_def conj_commute)

lemma channel_target_member:
  assumes "t \<in> set (linuxFanChannelTargets v)"
  shows "inside hwmonRoot (tPwmPath t) \<and>
    (\<exists>ids number. parseLinuxPWMNumber (tPwmPath t) = Some number \<and> t = make_target v ids (tPwmPath t) number)"
proof -
  have "IsAbs hwmonRoot" by (simp add: hwmonRoot_def)
  moreover have "inside (Clean hwmonRoot) p = inside hwmonRoot p" for p
    using \<open>IsAbs hwmonRoot\<close> by (simp add: inside_def clean_comps_Clean)
  ultimately show ?thesis
    using channel_targets_discover [of v] assms discover_member [of t v hwmonRoot]
      pathWithinRoot_inside [of "Clean hwmonRoot" "tPwmPath t"]
    by fastforce
qed

text \<open>What being supported means: the sensor exists, the mode file says 1, the file opens.\<close>

lemma target_support_True:
  "fst (target_support v d p fi n) \<longleftrightarrow>
   osStat v fi \<and> osOpenWrite v p \<and>
   (\<exists>data. osReadFile v (JoinPath [d, ''pwm'' @ FormatInt n @ ''_enable'']) = Some data \<and>
           Atoi (TrimSpace data) = Some 1)"
  by (auto simp: target_support_def split: option.splits)

subsection \<open>Duty cycles\<close>

lemma trunc_rat_bounds: "0 \<le> r \<Longrightarrow> r \<le> of_int n \<Longrightarrow> 0 \<le> trunc_rat r \<and> trunc_rat r \<le> n"
  using floor_mono [of r "of_int n"] by (simp add: trunc_rat_def)

text \<open>A percentage between 0 and 100 scaled to a duty cycle, in the rounded arithmetic.\<close>

lemma scaled_percent_bounds:
  assumes "is_fin p" "0 < fval p" "fval p \<le> of_int k" "k \<le> 100"
  shows "is_fin (fmul p (Fin 255))" "0 \<le> fval (fmul p (Fin 255))" "fval (fmul p (Fin 255)) \<le> of_int (255 * k)"
proof -
  have k: "(of_int k :: rat) \<le> 100" using assms(4) by (metis of_int_le_iff of_int_numeral)
  have small: "\<bar>fval p * 255\<bar> < 2 ^ 53" using assms(2,3) k by simp
  have hi: "fval p * 255 \<le> of_int (255 * k)" using assms(3) by simp
  have lo: "of_int 0 \<le> fval p * 255" using assms(2) by simp
  have eq: "fmul p (Fin 255) = fround (fval p * 255)" using assms by (simp add: fmul_fin)
  show "is_fin (fmul p (Fin 255))" "fval (fmul p (Fin 255)) \<le> of_int (255 * k)"
    unfolding eq by (rule fround_le_int [OF small hi])+
  show "0 \<le> fval (fmul p (Fin 255))"
    unfolding eq using fround_ge_int [OF small lo] by simp
qed

lemma fdiv_100_bounds:
  assumes "is_fin x" "0 \<le> fval x" "fval x \<le> of_int (100 * m)" "m \<le> 255"
  shows "is_fin (fdiv x (Fin 100)) \<and> 0 \<le> fval (fdiv x (Fin 100)) \<and> fval (fdiv x (Fin 100)) \<le> of_int m"
proof (cases "fval x = 0")
  case True
  with assms have "fdiv x (Fin 100) = fzero (fneg_sign x)"
    by (simp add: fdiv_def Let_def is_fin_def IsNaN_def IsInf_def)
  moreover have "m \<ge> 0" using assms(2,3) by (metis of_int_0_le_iff order.trans zero_le_mult_iff zero_less_numeral not_less)
  ultimately show ?thesis by simp
next
  case False
  have m: "(of_int m :: rat) \<le> 255" using assms(4) by (metis of_int_le_iff of_int_numeral)
  have hi: "fval x / 100 \<le> of_int m" using assms(3) by simp
  have lo: "of_int 0 \<le> fval x / 100" using assms(2) by simp
  have small: "\<bar>fval x / 100\<bar> < 2 ^ 53" using lo hi m by simp
  from False assms have eq: "fdiv x (Fin 100) = fround (fval x / 100)" by (simp add: fdiv_fin)
  show ?thesis
    unfolding eq using fround_le_int [OF small hi] fround_ge_int [OF small lo] by simp
qed

lemma fto_int_bounds:
  assumes "is_fin x" "0 \<le> fval x" "fval x \<le> of_int m" "m \<le> 255"
  shows "fto_int x = Some (trunc_rat (fval x)) \<and> 0 \<le> trunc_rat (fval x) \<and> trunc_rat (fval x) \<le> m"
  using trunc_rat_bounds [OF assms(2,3)] assms(1,4) by (simp add: fto_int_def)

lemma pwm_of_percent_bounds:
  assumes "validateFanPercent p = nil"
  shows "0 \<le> pwm_of_percent p \<and> pwm_of_percent p \<le> 255"
proof -
  from assms have p: "is_fin p" "0 < fval p" "fval p \<le> of_int 100"
    by (simp_all add: err_simps)
  have "fval (fmul p (Fin 255)) \<le> of_int (100 * 255)" using scaled_percent_bounds(3) [OF p] by simp
  then have "is_fin (fdiv (fmul p (Fin 255)) (Fin 100)) \<and> 0 \<le> fval (fdiv (fmul p (Fin 255)) (Fin 100)) \<and>
    fval (fdiv (fmul p (Fin 255)) (Fin 100)) \<le> of_int 255"
    using scaled_percent_bounds [OF p] by (intro fdiv_100_bounds) simp_all
  then show ?thesis
    using fto_int_bounds [of "fdiv (fmul p (Fin 255)) (Fin 100)" 255] by (simp add: pwm_of_percent_def)
qed

subsection \<open>The contract\<close>

lemma writeLinux_writes:
  "snd (writeLinuxFanTarget v t p) =
     [(tPwmPath t, FormatInt (min 255 (max 0 (pwm_of_percent p))) @ [CHR 0x0A])]"
  by (simp add: writeLinuxFanTarget_def Let_def min_def max_def)

lemma set_channel_loop_writes:
  assumes "snd (set_channel_loop v ts i p) \<noteq> []"
  shows "\<exists>t \<in> set ts. tId t = i \<and> tSupported t \<and> set_channel_loop v ts i p = writeLinuxFanTarget v t p"
  using assms by (induction ts) (auto split: if_splits)

lemma set_channel_loop_nil:
  "fst (set_channel_loop v ts i p) = nil \<Longrightarrow> snd (set_channel_loop v ts i p) \<noteq> []"
  by (induction ts) (auto simp: writeLinux_writes split: if_splits)

lemma setChannel_writes:
  assumes "snd (setFanControlChannel v i p) \<noteq> []"
  shows "validateFanPercent p = nil \<and> validFanChannelID i \<and>
    (\<exists>t \<in> set (linuxFanTargets v). tId t = i \<and> setFanControlChannel v i p = writeLinuxFanTarget v t p)"
  using assms set_channel_loop_writes [of v "linuxFanTargets v" i p]
  by (auto simp: setFanControlChannel_def setLinuxFanControlChannel_def split: option.splits if_splits)

lemma setFanControl_writes:
  assumes "snd (setFanControl v p) \<noteq> []"
  shows "validateFanPercent p = nil \<and> (\<exists>t. linuxFanTargets v = [t] \<and>
    snd (setFanControl v p) = [(tPwmPath t, FormatInt (pwm_of_percent p) @ [CHR 0x0A])])"
  using assms
  by (auto simp: setFanControl_def Let_def detectFanControl_def fanControlUnavailable_def
      split: option.splits if_splits list.splits)

text \<open>Whatever the backend writes, it writes inside the hwmon class directory.\<close>

lemma setFanControl_inside: "(path, t) \<in> set (snd (setFanControl v p)) \<Longrightarrow> inside hwmonRoot path"
proof -
  assume w: "(path, t) \<in> set (snd (setFanControl v p))"
  then have "snd (setFanControl v p) \<noteq> []" by auto
  from setFanControl_writes [OF this] w obtain x where "linuxFanTargets v = [x]" "path = tPwmPath x"
    by auto
  with channel_target_member [of x v] linuxFanTargets_subset [of x v] show ?thesis by simp
qed

lemma setFanControlChannel_inside:
  "(path, t) \<in> set (snd (setFanControlChannel v i p)) \<Longrightarrow> inside hwmonRoot path"
proof -
  assume w: "(path, t) \<in> set (snd (setFanControlChannel v i p))"
  then have "snd (setFanControlChannel v i p) \<noteq> []" by auto
  from setChannel_writes [OF this] w obtain x where "x \<in> set (linuxFanTargets v)" "path = tPwmPath x"
    by (auto simp: writeLinux_writes)
  with channel_target_member [of x v] linuxFanTargets_subset [of x v] show ?thesis by simp
qed

interpretation linux: fan_backend linux_ops
proof
  fix v p i and path t :: bytes
  show "snd (opSet linux_ops v p) \<noteq> [] \<Longrightarrow> validateFanPercent p = nil"
    using setFanControl_writes by (simp add: linux_ops_def)
  show "(path, t) \<in> set (snd (opSet linux_ops v p)) \<Longrightarrow> pwm_text t"
    using setFanControl_writes [of v p] pwm_of_percent_bounds [of p]
    by (cases "snd (setFanControl v p)") (auto simp: linux_ops_def intro: pwm_textI)
  show "snd (opSet linux_ops v p) \<noteq> [] \<Longrightarrow> fciSupported (opDetect linux_ops v)"
    using setFanControl_writes [of v p] by (auto simp: linux_ops_def detectFanControl_def)
  show "fst (opSet linux_ops v p) = nil \<Longrightarrow> snd (opSet linux_ops v p) \<noteq> []"
    by (auto simp: linux_ops_def setFanControl_def Let_def split: option.splits if_splits)
  show "snd (opSetChannel linux_ops v i p) \<noteq> [] \<Longrightarrow> validateFanPercent p = nil"
    using setChannel_writes by (simp add: linux_ops_def)
  show "(path, t) \<in> set (snd (opSetChannel linux_ops v i p)) \<Longrightarrow> pwm_text t"
    using setChannel_writes [of v i p]
    by (cases "snd (setFanControlChannel v i p)")
      (auto simp: linux_ops_def writeLinux_writes intro!: pwm_textI)
  show "snd (opSetChannel linux_ops v i p) \<noteq> [] \<Longrightarrow>
      \<exists>ch \<in> set (opList linux_ops v). chID ch = i \<and> chSupported ch"
    using setChannel_writes [of v i p]
    by (force simp: linux_ops_def listFanChannels_def target_channel_def linuxFanTargets_subset)
  show "fst (opSetChannel linux_ops v i p) = nil \<Longrightarrow> snd (opSetChannel linux_ops v i p) \<noteq> []"
    using set_channel_loop_nil
    by (auto simp: linux_ops_def setFanControlChannel_def setLinuxFanControlChannel_def
        split: option.splits if_splits)
  show "fciSupported (opDetect linux_ops v) \<Longrightarrow>
      fciBackend (opDetect linux_ops v) \<noteq> [] \<and> fciBackend (opDetect linux_ops v) \<noteq> ''monitor-only''"
    by (auto simp: linux_ops_def detectFanControl_def fanControlUnavailable_def split: list.splits)
qed

subsection \<open>Rounding below one\<close>

lemma ulp_exp_below_one:
  assumes "0 < x" "x < 1"
  shows "ulp_exp x \<le> - 53"
proof -
  have "(2::rat) powi (ilog2 x) < 2 powi 0" using ilog2_bounds [OF assms(1)] assms(2) by simp
  then have "ilog2 x < 0" by (metis not_less power_int_increasing one_le_numeral leD)
  with assms show ?thesis by (simp add: ulp_exp_def)
qed

lemma fround_below_one:
  assumes "0 \<le> x" "x \<le> 249 / 256"
  shows "is_fin (fround x) \<and> 0 \<le> fval (fround x) \<and> fval (fround x) \<le> 249 / 256"
proof (cases "x = 0")
  case True
  then show ?thesis by (simp add: fround_def)
next
  case False
  let ?e = "ulp_exp x"
  from False assms have e: "?e \<le> - 53" by (intro ulp_exp_below_one) simp_all
  have small: "\<bar>x\<bar> < 2 ^ 53" using assms by simp
  note f = fround_mag [OF False small]
  have sh: "(2::rat) powi (?e + 8) = 2 powi ?e * 256" by (simp add: power_int_add)
  have "of_int (rhe (256 * x / 2 powi (?e + 8))) * 2 powi (?e + 8) \<le> (of_int 249 :: rat)"
    using assms e by (intro scaled_rhe_le) simp_all
  then have "of_int (rhe (x / 2 powi ?e)) * 2 powi ?e * 256 \<le> (249 :: rat)"
    by (simp add: sh mult.assoc)
  with f fround_ge_int [OF small, of 0] assms(1) show ?thesis by simp
qed

lemma pwm_small_percent:
  assumes "is_fin p" "0 < fval p" "fval p \<le> 38 / 100"
  shows "pwm_of_percent p = 0"
proof -
  let ?x = "fmul p (Fin 255)"
  have eq: "?x = fround (fval p * 255)" using assms by (simp add: fmul_fin)
  have small: "\<bar>fval p * 255\<bar> < 2 ^ 53" and hi: "fval p * 255 \<le> of_int 97" and lo: "of_int 0 \<le> fval p * 255"
    using assms by simp_all
  have x: "is_fin ?x" "0 \<le> fval ?x" "fval ?x \<le> 97"
    unfolding eq using fround_le_int [OF small hi] fround_ge_int [OF small lo] by simp_all
  have "is_fin (fdiv ?x (Fin 100)) \<and> 0 \<le> fval (fdiv ?x (Fin 100)) \<and> fval (fdiv ?x (Fin 100)) < 1"
  proof (cases "fval ?x = 0")
    case True
    with x(1) have "fdiv ?x (Fin 100) = fzero (fneg_sign ?x)"
      by (simp add: fdiv_def Let_def is_fin_def IsNaN_def IsInf_def)
    then show ?thesis by simp
  next
    case False
    with x(1) have "fdiv ?x (Fin 100) = fround (fval ?x / 100)" by (simp add: fdiv_fin)
    with fround_below_one [of "fval ?x / 100"] x(2,3) show ?thesis by auto
  qed
  then have "fto_int (fdiv ?x (Fin 100)) = Some 0" by (simp add: fto_int_def trunc_rat_def floor_eq_iff)
  then show ?thesis by (simp add: pwm_of_percent_def)
qed

subsection \<open>Properties\<close>

text \<open>A machine with one fan in manual mode, for the examples.\<close>

definition demoView :: os_view where
  "demoView = \<lparr>osGetenv = (\<lambda>_. []),
     osReadFile = (\<lambda>p. if p = ''/sys/class/hwmon/hwmon0/pwm1_enable'' then Some ''1'' else None),
     osStat = (\<lambda>_. True), osOpenWrite = (\<lambda>_. True), osEvalSymlinks = (\<lambda>_. None), osReadlink = (\<lambda>_. None),
     osGlob = (\<lambda>p. if p = ''/sys/class/hwmon/hwmon*/pwm[0-9]*'' then Some [''/sys/class/hwmon/hwmon0/pwm1''] else None),
     osWriteErr = (\<lambda>_. None)\<rparr>"

lemma demoView_targets:
  "linuxFanTargets demoView = [make_target demoView {} ''/sys/class/hwmon/hwmon0/pwm1'' 1]"
proof -
  let ?p = "''/sys/class/hwmon/hwmon0/pwm1''"
  have conf: "linuxConfiguredPWMPaths demoView hwmonRoot = ([], False, None)"
    by (simp add: linuxConfiguredPWMPaths_def demoView_def TrimSpace_def)
  have ev: "Clean hwmonRoot = hwmonRoot" "Clean ?p = ?p" "pathWithinRoot hwmonRoot ?p" "parseLinuxPWMNumber ?p = Some 1"
    "JoinPath [hwmonRoot, ''hwmon*'', ''pwm[0-9]*''] = ''/sys/class/hwmon/hwmon*/pwm[0-9]*''"
    by code_simp+
  have sup: "target_support demoView (Dir ?p) ?p (JoinPath [Dir ?p, ''fan'' @ FormatInt 1 @ ''_input'']) 1 = (True, [])"
    by code_simp
  have glob: "osGlob demoView ''/sys/class/hwmon/hwmon*/pwm[0-9]*'' = Some [?p]" by (simp add: demoView_def)
  have "linuxFanChannelTargets demoView = [make_target demoView {} ?p 1]"
    by (simp add: linuxFanChannelTargets_def conf discoverLinuxFanTargets_def Let_def ev glob)
  moreover have "tSupported (make_target demoView {} ?p 1)" 
    by (simp only: make_target_def Let_def linuxFanTarget.simps sup fst_conv)
  ultimately show ?thesis by (simp add: linuxFanTargets_def)
qed

lemma demoView_write:
  "setFanControl demoView (Fin 50) = (None, [(''/sys/class/hwmon/hwmon0/pwm1'', ''127'' @ [CHR 0x0A])])"
proof -
  have "pwm_of_percent (Fin 50) = 127" "FormatInt 127 = ''127''" by code_simp+
  moreover have "osWriteErr demoView p = None" for p by (simp add: demoView_def)
  moreover have "validateFanPercent (Fin 50) = None" by (simp add: err_simps)
  ultimately show ?thesis
    by (simp add: setFanControl_def detectFanControl_def demoView_targets Let_def make_target_def)
qed

text \<open>C15: every discovered fan target lies inside \<open>/sys/class/hwmon\<close> below a component that starts with
  \<open>hwmon\<close>, whatever paths were configured or globbed; no file is listed twice; and a target is supported
  only if its RPM sensor exists, its mode file says manual and the file opened for writing.\<close>

theorem discovered_targets:
  assumes "t \<in> set (linuxFanChannelTargets v)"
  shows "inside hwmonRoot (tPwmPath t) \<and> distinct (map tPwmPath (linuxFanChannelTargets v)) \<and>
    (tSupported t \<longrightarrow> osStat v (tFanInput t) \<and> osOpenWrite v (tPwmPath t) \<and>
      (\<exists>n data. parseLinuxPWMNumber (tPwmPath t) = Some n \<and> Atoi (TrimSpace data) = Some 1 \<and>
        osReadFile v (JoinPath [Dir (tPwmPath t), ''pwm'' @ FormatInt n @ ''_enable'']) = Some data))"
proof -
  obtain ids n where n: "parseLinuxPWMNumber (tPwmPath t) = Some n" and t: "t = make_target v ids (tPwmPath t) n"
    using channel_target_member [OF assms] by blast
  have sup: "tSupported t = fst (target_support v (Dir (tPwmPath t)) (tPwmPath t) (tFanInput t) n)"
    by (subst t, subst (3) t) (simp add: make_target_def Let_def)
  have "distinct (map tPwmPath (linuxFanChannelTargets v))"
    using channel_targets_discover [of v] discover_distinct by auto
  with channel_target_member [OF assms] sup n show ?thesis by (auto simp: target_support_True)
qed

theorem discovered_targets_witness: "inside hwmonRoot ''/sys/class/hwmon/hwmon0/pwm1''"
proof -
  let ?t = "make_target demoView {} ''/sys/class/hwmon/hwmon0/pwm1'' 1"
  have "?t \<in> set (linuxFanTargets demoView)" by (simp add: demoView_targets)
  then have "?t \<in> set (linuxFanChannelTargets demoView)" by (simp only: linuxFanTargets_subset)
  from discovered_targets [OF this] show ?thesis by (simp add: make_target_def Let_def)
qed

text \<open>Whatever the machine reports and whatever percentage is requested, the Linux backend only writes
  decimal duty cycles from 0 to 255 to files inside \<open>/sys/class/hwmon\<close>, and only for a finite percentage
  above 0 and at most 100.\<close>

theorem linux_fan_writes:
  assumes "(path, t) \<in> set (snd (setFanControl v p)) \<or> (path, t) \<in> set (snd (setFanControlChannel v i p))"
  shows "inside hwmonRoot path \<and> (\<exists>n. 0 \<le> n \<and> n \<le> 255 \<and> t = FormatInt n @ [CHR 0x0A]) \<and>
    is_fin p \<and> 0 < fval p \<and> fval p \<le> 100"
proof -
  have ops: "opSet linux_ops = setFanControl" "opSetChannel linux_ops = setFanControlChannel"
    by (simp_all add: linux_ops_def)
  have "inside hwmonRoot path" using assms setFanControl_inside setFanControlChannel_inside by blast
  moreover have "pwm_text t" using assms linux.set_pwm linux.chan_pwm unfolding ops by blast
  moreover have "snd (setFanControl v p) \<noteq> [] \<or> snd (setFanControlChannel v i p) \<noteq> []" using assms by auto
  then have "validateFanPercent p = nil" using linux.set_valid [of v p] linux.chan_valid [of v i p] unfolding ops by blast
  ultimately show ?thesis by (simp add: pwm_text_iff err_simps)
qed

theorem linux_fan_writes_witness: "\<exists>n. 0 \<le> n \<and> n \<le> 255 \<and> ''127'' @ [CHR 0x0A] = FormatInt n @ [CHR 0x0A]"
proof -
  have "(''/sys/class/hwmon/hwmon0/pwm1'', ''127'' @ [CHR 0x0A]) \<in> set (snd (setFanControl demoView (Fin 50)))"
    by (simp add: demoView_write)
  then show ?thesis
    using linux_fan_writes [of "''/sys/class/hwmon/hwmon0/pwm1''" "''127'' @ [CHR 0x0A]" demoView "Fin 50" "[]"] by blast
qed

text \<open>A percentage that validation accepts because it is above zero can still stop the fan: every
  percentage up to 0.38 is truncated to the duty cycle 0.\<close>

theorem small_percent_stops_fan:
  assumes "is_fin p" and "0 < fval p" and "fval p \<le> 38 / 100"
  shows "validateFanPercent p = nil \<and>
    snd (writeLinuxFanTarget v target p) = [(tPwmPath target, ''0'' @ [CHR 0x0A])]"
proof -
  have "FormatInt 0 = ''0''" by code_simp
  then show ?thesis
    using assms pwm_small_percent [OF assms] by (simp add: writeLinux_writes err_simps)
qed

theorem small_percent_stops_fan_witness: "validateFanPercent (Fin (1 / 4)) = nil"
  using small_percent_stops_fan [of "Fin (1 / 4)"] by simp

end
