(* ===== verification/Safety.thy ===== *)
theory Safety
  imports Commands FanLinux
begin

text \<open>
  The thermal safety gate in front of every fan write (\<open>main.go\<close>), the telemetry it is based
  on, and the Linux GPU telemetry (\<open>platform_metrics_linux.go\<close>).  The readings of
  \<open>host.SensorsTemperatures\<close> (gopsutil) and the output of \<open>nvidia-smi\<close> are inputs; \<open>None\<close> is an
  error of the call.  \<open>lowerU\<close> stands for the Unicode case mapping of a string that is not
  pure ASCII.

  Shown here: what the gate accepts, and that it accepts a target below 100\% only when no
  temperature in the telemetry is critical.
\<close>

definition ToLower :: "(bytes \<Rightarrow> bytes) \<Rightarrow> bytes \<Rightarrow> bytes" where
  "ToLower lowerU s = (if list_all (\<lambda>c. byte c < 128) s then map lower_byte s else lowerU s)"

subsection \<open>Linux GPU telemetry\<close>

definition readFloatFile :: "os_view \<Rightarrow> bytes \<Rightarrow> float64 option" where
  "readFloatFile v path =
     (case osReadFile v path of
        None \<Rightarrow> None
      | Some data \<Rightarrow> (case ParseFloat (TrimSpace data) of (x, ok) \<Rightarrow> if ok then Some x else None))"

definition readUintFile :: "os_view \<Rightarrow> bytes \<Rightarrow> 64 word option" where
  "readUintFile v path =
     (case osReadFile v path of
        None \<Rightarrow> None
      | Some data \<Rightarrow> map_option word_of_int (ParseUint (TrimSpace data)))"

definition readFirstLine :: "os_view \<Rightarrow> bytes \<Rightarrow> bytes" where
  "readFirstLine v path =
     (case osReadFile v path of
        None \<Rightarrow> []
      | Some data \<Rightarrow> TrimSpace (takeWhile (\<lambda>c. c \<noteq> newline) data))"

definition upd :: "'a option \<Rightarrow> ('a \<Rightarrow> 'b \<Rightarrow> 'b) \<Rightarrow> 'b \<Rightarrow> 'b" where
  "upd x f m = (case x of None \<Rightarrow> m | Some y \<Rightarrow> f y m)"

definition merge_hwmon :: "os_view \<Rightarrow> bytes \<Rightarrow> HardwareMetrics \<Rightarrow> HardwareMetrics" where
  "merge_hwmon v hwmon m =
     (let m1 = upd (readFloatFile v (JoinPath [hwmon, ''temp1_input'']))
                 (\<lambda>x m. let temperature = fdiv x (Fin 1000) in
                    if isValidTemperature temperature \<and> flt (Fin 0) temperature
                    then m\<lparr>GPUTemperature := temperature, GPUTemperatureSource := ''Linux amdgpu sysfs''\<rparr>
                    else m) m
      in upd (readFloatFile v (JoinPath [hwmon, ''fan1_input'']))
           (\<lambda>x m. if isFinitePositive x
                  then m\<lparr>FanRPM := x, FanRPMSource := ''Linux amdgpu sysfs''\<rparr> else m) m1)"

definition merge_card :: "os_view \<Rightarrow> bytes \<Rightarrow> HardwareMetrics \<Rightarrow> HardwareMetrics" where
  "merge_card v device m =
     (let m1 = upd (readFloatFile v (JoinPath [device, ''gpu_busy_percent''])) (\<lambda>x m. m\<lparr>GPUUsage := x\<rparr>) m;
          m2 = upd (readUintFile v (JoinPath [device, ''mem_info_vram_used''])) (\<lambda>x m. m\<lparr>GPUMemoryUsedBytes := x\<rparr>) m1;
          m3 = upd (readUintFile v (JoinPath [device, ''mem_info_vram_total''])) (\<lambda>x m. m\<lparr>GPUMemoryTotalBytes := x\<rparr>) m2;
          m4 = upd (readFloatFile v (JoinPath [device, ''power1_average''])) (\<lambda>x m. m\<lparr>PowerWatts := fdiv x (Fin 1000000)\<rparr>) m3;
          hwmons = (case osGlob v (JoinPath [device, ''hwmon'', ''hwmon*'']) of None \<Rightarrow> [] | Some hs \<Rightarrow> hs);
          m5 = (fold (merge_hwmon v) hwmons m4)\<lparr>GPUVendor := ''AMD'', SensorSource := ''Linux amdgpu sysfs''\<rparr>
      in if GPUName m5 = [] then m5\<lparr>GPUName := readFirstLine v (JoinPath [device, ''uevent''])\<rparr> else m5)"

fun merge_cards :: "os_view \<Rightarrow> bytes list \<Rightarrow> HardwareMetrics \<Rightarrow> HardwareMetrics" where
  "merge_cards v [] m = m"
| "merge_cards v (c # cards) m =
     (let device = JoinPath [c, ''device''] in
      if readFirstLine v (JoinPath [device, ''vendor'']) \<noteq> ''0x1002'' then merge_cards v cards m
      else merge_card v device m)"

definition mergePlatformMetrics :: "os_view \<Rightarrow> HardwareMetrics \<Rightarrow> HardwareMetrics" where
  "mergePlatformMetrics v m =
     merge_cards v (case osGlob v ''/sys/class/drm/card[0-9]*'' of None \<Rightarrow> [] | Some cs \<Rightarrow> cs) m"

subsection \<open>Safety telemetry\<close>

record sensor =
  SensorKey :: bytes
  Temperature :: float64

text \<open>A platform: its fan backend, its part of the telemetry and its power modes.\<close>

record ('v, 'w) platform =
  plFan :: "'v fan_ops"
  plMerge :: "'v \<Rightarrow> HardwareMetrics \<Rightarrow> HardwareMetrics"
  plPower :: "bytes \<Rightarrow> float64 \<Rightarrow> 'w \<Rightarrow> (PowerModeState \<times> gerr) \<times> 'w"
  plGetPower :: "'w \<Rightarrow> PowerModeState \<times> 'w"

text \<open>What each call of one collection of safety metrics sees.\<close>

record 'v safety_env =
  seTemps :: "sensor list option"
  seNvidia :: "bytes option"
  seMerge :: 'v
  seList :: 'v
  seDetect :: 'v

definition nvidia_step :: "bytes \<Rightarrow> float64 \<times> bool \<Rightarrow> float64 \<times> bool" where
  "nvidia_step line acc =
     (case ParseFloat (TrimSpace line) of (x, ok) \<Rightarrow>
        if \<not> ok \<or> \<not> isValidTemperature x \<or> fle x (Fin 0) then acc
        else (case acc of (highest, found) \<Rightarrow> if \<not> found \<or> flt highest x then (x, True) else acc))"

definition maxNvidiaGPUTemperature :: "bytes \<Rightarrow> float64 \<times> bool" where
  "maxNvidiaGPUTemperature output = fold nvidia_step (Split output newline) (Fin 0, False)"

definition sensor_step :: "(bytes \<Rightarrow> bytes) \<Rightarrow> sensor \<Rightarrow> HardwareMetrics \<Rightarrow> HardwareMetrics" where
  "sensor_step lowerU s m =
     (let key = ToLower lowerU (SensorKey s);
          ok = (isValidTemperature (Temperature s) \<and> flt (Fin 0) (Temperature s));
          source = ''gopsutil-host-sensors:'' @ SensorKey s;
          m1 = (if (Contains key ''cpu'' \<or> Contains key ''package'' \<or> Contains key ''core'') \<and> ok
                then m\<lparr>CPUTemperature := Temperature s, CPUTemperatureSource := source\<rparr> else m)
      in if (Contains key ''gpu'' \<or> Contains key ''graphics'') \<and> ok
         then m1\<lparr>GPUTemperature := Temperature s, GPUTemperatureSource := source\<rparr> else m1)"

definition thermal_available :: "HardwareMetrics \<Rightarrow> bool" where
  "thermal_available m =
     ((CPUTemperatureSource m \<noteq> [] \<and> isValidTemperature (CPUTemperature m) \<and> flt (Fin 0) (CPUTemperature m)) \<or>
      (GPUTemperatureSource m \<noteq> [] \<and> isValidTemperature (GPUTemperature m) \<and> flt (Fin 0) (GPUTemperature m)))"

definition safety_readings :: "(bytes \<Rightarrow> bytes) \<Rightarrow> ('v, 'w) platform \<Rightarrow> 'v safety_env \<Rightarrow> HardwareMetrics" where
  "safety_readings lowerU pl env =
     (let m0 = emptyMetrics;
          m1 = (case seTemps env of None \<Rightarrow> m0 | Some ts \<Rightarrow> fold (sensor_step lowerU) ts m0);
          m2 = (case seNvidia env of
                  None \<Rightarrow> m1
                | Some output \<Rightarrow>
                    (case maxNvidiaGPUTemperature output of (x, available) \<Rightarrow>
                       if available
                       then m1\<lparr>GPUTemperature := x, GPUTemperatureSource := ''nvidia-smi:max-gpu-temperature'',
                               SensorSource := ''nvidia-smi''\<rparr>
                       else m1))
      in plMerge pl (seMerge env) m2)"

definition label_cpu :: "HardwareMetrics \<Rightarrow> HardwareMetrics" where
  "label_cpu m =
     (if CPUTemperatureSource m = [] \<and> flt (Fin 0) (CPUTemperature m)
         \<and> isValidTemperature (CPUTemperature m) \<and> SensorSource m \<noteq> []
      then m\<lparr>CPUTemperatureSource := SensorSource m\<rparr> else m)"

definition label_gpu :: "HardwareMetrics \<Rightarrow> HardwareMetrics" where
  "label_gpu m =
     (if GPUTemperatureSource m = [] \<and> flt (Fin 0) (GPUTemperature m)
         \<and> isValidTemperature (GPUTemperature m) \<and> SensorSource m \<noteq> []
      then m\<lparr>GPUTemperatureSource := SensorSource m\<rparr> else m)"

definition label_source :: "HardwareMetrics \<Rightarrow> HardwareMetrics" where
  "label_source m =
     (if SensorSource m = [] then
        (if CPUTemperatureSource m \<noteq> [] then m\<lparr>SensorSource := ''gopsutil-host-sensors''\<rparr>
         else if GPUTemperatureSource m \<noteq> [] then m\<lparr>SensorSource := GPUTemperatureSource m\<rparr>
         else m)
      else m)"

definition collectHardwareControlSafetyMetrics ::
  "(bytes \<Rightarrow> bytes) \<Rightarrow> ('v, 'w) platform \<Rightarrow> 'v safety_env \<Rightarrow> HardwareMetrics" where
  "collectHardwareControlSafetyMetrics lowerU pl env =
     (let m = label_source (label_gpu (label_cpu (safety_readings lowerU pl env)));
          m7 = m\<lparr>ThermalSafetyAvailable := thermal_available m,
                 FanChannels := opList (plFan pl) (seList env)\<rparr>;
          fanControl = opDetect (plFan pl) (seDetect env)
      in m7\<lparr>FanControlSupported := fciSupported fanControl, FanControlBackend := fciBackend fanControl\<rparr>)"

subsection \<open>The gate\<close>

definition validateThermalTelemetry :: "HardwareMetrics \<Rightarrow> gerr" where
  "validateThermalTelemetry m =
     (if \<not> ThermalSafetyAvailable m
      then Err ''hardware control blocked: no valid thermal telemetry available''
      else if \<not> feq (CPUTemperature m) (Fin 0) \<and> \<not> isValidTemperature (CPUTemperature m)
      then Err ''hardware control blocked: CPU temperature telemetry is invalid''
      else if \<not> feq (GPUTemperature m) (Fin 0) \<and> \<not> isValidTemperature (GPUTemperature m)
      then Err ''hardware control blocked: GPU temperature telemetry is invalid''
      else nil)"

definition hasCriticalThermalState :: "HardwareMetrics \<Rightarrow> bool" where
  "hasCriticalThermalState m = (fle (Fin 95) (CPUTemperature m) \<or> fle (Fin 95) (GPUTemperature m))"

definition hardwareControlSafetyError :: "HardwareMetrics \<Rightarrow> gerr" where
  "hardwareControlSafetyError m =
     seq_err (validateThermalTelemetry m)
       (if hasCriticalThermalState m
        then Err ''hardware control blocked: critical temperature detected'' else nil)"

definition criticalTarget :: bytes where
  "criticalTarget = ''critical temperature detected; only the 100% emergency cooling target is allowed''"

definition validateFanControlRequest :: "Command \<Rightarrow> HardwareMetrics \<Rightarrow> gerr" where
  "validateFanControlRequest cmd m =
     (if cAction cmd \<noteq> actFan then nil
      else seq_err (validateThermalTelemetry m)
        (if \<not> FanControlSupported m \<or> FanControlBackend m = [] \<or> FanControlBackend m = ''monitor-only''
         then Err ''hardware fan control is unavailable''
         else if hasCriticalThermalState m \<and> flt (cValue cmd) (Fin 100) then Err criticalTarget
         else nil))"

text \<open>The search for the channel: it stops at the first channel with the identifier.\<close>

fun find_channel :: "FanChannel list \<Rightarrow> bytes \<Rightarrow> gerr" where
  "find_channel [] target =
     Err ''fan channel was not detected; refresh hardware capabilities and try again''"
| "find_channel (ch # chs) target =
     (if chID ch \<noteq> target then find_channel chs target
      else if \<not> chSupported ch \<or> chBackend ch = [] \<or> chBackend ch = ''monitor-only''
      then Err (''fan channel is monitor-only: '' @ chReason ch)
      else nil)"

definition validateFanChannelControlRequest :: "Command \<Rightarrow> HardwareMetrics \<Rightarrow> gerr" where
  "validateFanChannelControlRequest cmd m =
     (if cAction cmd \<noteq> ''Set Fan Channel'' then nil
      else if \<not> validFanChannelID (cTarget cmd) then Err ''invalid fan-channel identifier''
      else seq_err (validateFanPercent (cValue cmd))
        (seq_err (validateThermalTelemetry m)
          (seq_err (find_channel (FanChannels m) (cTarget cmd))
            (if hasCriticalThermalState m \<and> flt (cValue cmd) (Fin 100) then Err criticalTarget else nil))))"

subsection \<open>What the gate accepts\<close>

definition temperature_known :: "float64 \<Rightarrow> bool" where
  "temperature_known x = (is_fin x \<and> (fval x = 0 \<or> (- 20 \<le> fval x \<and> fval x \<le> 125)))"

lemma thermal_telemetry_nil [err_simps]:
  "validateThermalTelemetry m = nil \<longleftrightarrow>
     ThermalSafetyAvailable m \<and> temperature_known (CPUTemperature m) \<and> temperature_known (GPUTemperature m)"
proof -
  have "feq x (Fin 0) \<or> isValidTemperature x \<longleftrightarrow> temperature_known x" for x
    by (cases x) (auto simp: feq_def isValidTemperature_iff temperature_known_def)
  then show ?thesis by (auto simp: validateThermalTelemetry_def)
qed

lemma find_channel_nil:
  "find_channel chs target = nil \<Longrightarrow> \<exists>ch \<in> set chs. chID ch = target \<and> chSupported ch \<and>
     chBackend ch \<noteq> [] \<and> chBackend ch \<noteq> ''monitor-only''"
  by (induction chs) (auto split: if_splits)

text \<open>A target that lets a hot machine cool less than it can is refused.\<close>

definition cooling_ok :: "float64 \<Rightarrow> HardwareMetrics \<Rightarrow> bool" where
  "cooling_ok x m = (hasCriticalThermalState m \<longrightarrow> \<not> flt x (Fin 100))"

lemma fan_request_nil:
  assumes "validateFanControlRequest cmd m = nil" and "cAction cmd = actFan"
  shows "validateThermalTelemetry m = nil \<and> FanControlSupported m \<and> cooling_ok (cValue cmd) m"
  using assms by (auto simp: validateFanControlRequest_def cooling_ok_def split: if_splits)

lemma channel_request_nil:
  assumes "validateFanChannelControlRequest cmd m = nil" and "cAction cmd = ''Set Fan Channel''"
  shows "validateThermalTelemetry m = nil \<and> validFanChannelID (cTarget cmd) \<and>
    validateFanPercent (cValue cmd) = nil \<and> cooling_ok (cValue cmd) m \<and>
    (\<exists>ch \<in> set (FanChannels m). chID ch = cTarget cmd \<and> chSupported ch)"
proof -
  from assms have req: "validFanChannelID (cTarget cmd)" "validateFanPercent (cValue cmd) = nil"
    "validateThermalTelemetry m = nil" "find_channel (FanChannels m) (cTarget cmd) = nil"
    "cooling_ok (cValue cmd) m"
    by (auto simp: validateFanChannelControlRequest_def cooling_ok_def split: if_splits)
  from find_channel_nil [OF req(4)] req show ?thesis by blast
qed

subsection \<open>The platform merge and the CPU sensors\<close>

lemma upd_cpu: "(\<And>y m. CPUTemperature (f y m) = CPUTemperature m) \<Longrightarrow> CPUTemperature (upd x f m) = CPUTemperature m"
  by (simp add: upd_def split: option.split)

lemma merge_hwmon_cpu [simp]: "CPUTemperature (merge_hwmon v h m) = CPUTemperature m"
  by (simp add: merge_hwmon_def upd_cpu Let_def)

lemma fold_hwmon_cpu [simp]: "CPUTemperature (fold (merge_hwmon v) hs m) = CPUTemperature m"
  by (induction hs arbitrary: m) simp_all

lemma merge_card_cpu [simp]: "CPUTemperature (merge_card v d m) = CPUTemperature m"
  by (simp add: merge_card_def upd_cpu Let_def)

lemma mergePlatform_cpu [simp]: "CPUTemperature (mergePlatformMetrics v m) = CPUTemperature m"
proof -
  have "CPUTemperature (merge_cards v cs m) = CPUTemperature m" for cs by (induction cs) (simp_all add: Let_def)
  then show ?thesis by (simp add: mergePlatformMetrics_def)
qed

text \<open>The labels leave the temperatures as they are.\<close>

lemma label_temperature [simp]:
  "CPUTemperature (label_cpu m) = CPUTemperature m" "CPUTemperature (label_gpu m) = CPUTemperature m"
  "CPUTemperature (label_source m) = CPUTemperature m"
  "GPUTemperature (label_cpu m) = GPUTemperature m" "GPUTemperature (label_gpu m) = GPUTemperature m"
  "GPUTemperature (label_source m) = GPUTemperature m"
  by (simp_all add: label_cpu_def label_gpu_def label_source_def)

lemma collect_temperature [simp]:
  "CPUTemperature (collectHardwareControlSafetyMetrics lowerU pl env) = CPUTemperature (safety_readings lowerU pl env)"
  "GPUTemperature (collectHardwareControlSafetyMetrics lowerU pl env) = GPUTemperature (safety_readings lowerU pl env)"
  by (simp_all add: collectHardwareControlSafetyMetrics_def Let_def)

lemma collect_available:
  assumes "ThermalSafetyAvailable (collectHardwareControlSafetyMetrics lowerU pl env)"
  shows "thermal_available (collectHardwareControlSafetyMetrics lowerU pl env)"
  using assms by (simp add: collectHardwareControlSafetyMetrics_def Let_def thermal_available_def)

lemma sensor_step_cpu:
  assumes "Contains (ToLower lowerU (SensorKey s)) ''cpu''" "isValidTemperature (Temperature s)" "flt (Fin 0) (Temperature s)"
  shows "CPUTemperature (sensor_step lowerU s m) = Temperature s"
  using assms by (simp add: sensor_step_def Let_def)

subsection \<open>Properties\<close>

text \<open>C14: the gate of the single-fan command accepts exactly when thermal telemetry is available, both temperatures
  are unset or plausible, the fan control has a real backend, and either no temperature has reached 95 degrees
  or the requested target is at least 100 percent.\<close>

theorem fan_gate:
  assumes "cAction cmd = actFan"
  shows "validateFanControlRequest cmd m = nil \<longleftrightarrow>
    ThermalSafetyAvailable m \<and> temperature_known (CPUTemperature m) \<and> temperature_known (GPUTemperature m) \<and>
    FanControlSupported m \<and> FanControlBackend m \<notin> {[], ''monitor-only''} \<and>
    ((fval (CPUTemperature m) < 95 \<and> fval (GPUTemperature m) < 95) \<or> \<not> flt (cValue cmd) (Fin 100))"
proof -
  have "temperature_known x \<Longrightarrow> fle (Fin 95) x \<longleftrightarrow> 95 \<le> fval x" for x by (simp add: temperature_known_def)
  with assms show ?thesis
    by (auto simp: validateFanControlRequest_def thermal_telemetry_nil hasCriticalThermalState_def not_le not_less)
qed

definition hotMetrics :: HardwareMetrics where
  "hotMetrics = emptyMetrics\<lparr>CPUTemperature := Fin 98, ThermalSafetyAvailable := True,
     FanControlSupported := True, FanControlBackend := ''Linux hwmon''\<rparr>"

theorem fan_gate_witness:
  "validateFanControlRequest (statusCommand\<lparr>cAction := actFan, cValue := Fin 100\<rparr>) hotMetrics = nil \<and>
   validateFanControlRequest (statusCommand\<lparr>cAction := actFan, cValue := Fin 99\<rparr>) hotMetrics \<noteq> nil"
proof -
  have act: "cAction (statusCommand\<lparr>cAction := actFan, cValue := x\<rparr>) = actFan" for x by simp
  show ?thesis
    unfolding fan_gate [OF act]
    by (simp add: hotMetrics_def emptyMetrics_def temperature_known_def)
qed

text \<open>A channel command passes the gate only for a channel that is listed as supported with a real backend, for
  a percentage above 0 and at most 100, with available and plausible thermal telemetry; and once either temperature
  has reached 95 degrees only the 100 percent target passes.\<close>

theorem channel_gate:
  assumes "cAction cmd = ''Set Fan Channel''" and "validateFanChannelControlRequest cmd m = nil"
  shows "(\<exists>ch \<in> set (FanChannels m). chID ch = cTarget cmd \<and> chSupported ch) \<and>
    is_fin (cValue cmd) \<and> 0 < fval (cValue cmd) \<and> fval (cValue cmd) \<le> 100 \<and> ThermalSafetyAvailable m \<and>
    temperature_known (CPUTemperature m) \<and> temperature_known (GPUTemperature m) \<and>
    (95 \<le> fval (CPUTemperature m) \<or> 95 \<le> fval (GPUTemperature m) \<longrightarrow> fval (cValue cmd) = 100)"
proof -
  note c = channel_request_nil [OF assms(2,1)]
  have "temperature_known x \<Longrightarrow> 95 \<le> fval x \<Longrightarrow> fle (Fin 95) x" for x by (simp add: temperature_known_def)
  with c show ?thesis
    by (auto simp: thermal_telemetry_nil validateFanPercent_nil cooling_ok_def hasCriticalThermalState_def)
qed

definition channelCommand :: "float64 \<Rightarrow> Command" where
  "channelCommand x = statusCommand\<lparr>cAction := ''Set Fan Channel'', cTarget := ''00112233aabbccdd'', cValue := x\<rparr>"

definition hotChannels :: HardwareMetrics where
  "hotChannels = hotMetrics\<lparr>FanChannels :=
     [\<lparr>chID = ''00112233aabbccdd'', chName = ''pwm1'', chBackend = ''Linux hwmon'', chSupported = True, chFanRPM = Fin 900,
       chRPMAvailable = True, chFanPercent = Fin 40, chPercentAvailable = True, chReason = []\<rparr>]\<rparr>"

theorem channel_gate_witness: "fval (cValue (channelCommand (Fin 100))) = 100 \<and> 95 \<le> fval (CPUTemperature hotChannels)"
proof -
  have "validateFanChannelControlRequest (channelCommand (Fin 100)) hotChannels = nil" by code_simp
  moreover have "cAction (channelCommand (Fin 100)) = ''Set Fan Channel''" by (simp add: channelCommand_def)
  moreover have "95 \<le> fval (CPUTemperature hotChannels)" by (simp add: hotChannels_def hotMetrics_def)
  ultimately show ?thesis using channel_gate by blast
qed

text \<open>Safety telemetry never claims to be available without a reading: if the collected metrics say so, the CPU
  or the GPU temperature has a named source and lies above 0 and at most 125 degrees, on every platform.\<close>

theorem telemetry_available:
  assumes "ThermalSafetyAvailable (collectHardwareControlSafetyMetrics lowerU pl env)"
  defines "m \<equiv> collectHardwareControlSafetyMetrics lowerU pl env"
  shows "(CPUTemperatureSource m \<noteq> [] \<and> is_fin (CPUTemperature m) \<and> 0 < fval (CPUTemperature m) \<and> fval (CPUTemperature m) \<le> 125) \<or>
    (GPUTemperatureSource m \<noteq> [] \<and> is_fin (GPUTemperature m) \<and> 0 < fval (GPUTemperature m) \<and> fval (GPUTemperature m) \<le> 125)"
  using collect_available [OF assms(1)] unfolding m_def thermal_available_def by (auto simp: isValidTemperature_iff)

definition demoPlatform :: "(os_view, unit) platform" where
  "demoPlatform = \<lparr>plFan = linux_ops, plMerge = mergePlatformMetrics,
     plPower = (\<lambda>_ _ w. (otherSetPlatformPowerMode ''linux'' [] (Fin 0), w)),
     plGetPower = (\<lambda>w. (otherGetPlatformPowerMode ''linux'', w))\<rparr>"

definition demoSafety :: "sensor list \<Rightarrow> os_view safety_env" where
  "demoSafety ts = \<lparr>seTemps = Some ts, seNvidia = None, seMerge = demoView, seList = demoView, seDetect = demoView\<rparr>"

definition cpuSensor :: "rat \<Rightarrow> sensor" where
  "cpuSensor t = \<lparr>SensorKey = ''cpu'', Temperature = Fin t\<rparr>"


lemma demoView_merge [simp]: "mergePlatformMetrics demoView m = m"
  by (simp add: mergePlatformMetrics_def demoView_def)

lemma cpuSensor_ok:
  assumes "0 < t" "t \<le> 125"
  shows "Contains (ToLower lowerU (SensorKey (cpuSensor t))) ''cpu''" "isValidTemperature (Temperature (cpuSensor t))"
    "flt (Fin 0) (Temperature (cpuSensor t))"
proof -
  have "ToLower lowerU ''cpu'' = ''cpu''" "Contains ''cpu'' ''cpu''" by code_simp+
  then show "Contains (ToLower lowerU (SensorKey (cpuSensor t))) ''cpu''" by (simp add: cpuSensor_def)
  show "isValidTemperature (Temperature (cpuSensor t))" "flt (Fin 0) (Temperature (cpuSensor t))"
    using assms by (simp_all add: cpuSensor_def isValidTemperature_iff)
qed

lemma cpuSensor_step:
  assumes "0 < t" "t \<le> 125"
  shows "sensor_step lowerU (cpuSensor t) m =
    m\<lparr>CPUTemperature := Fin t, CPUTemperatureSource := ''gopsutil-host-sensors:cpu''\<rparr>"
proof -
  have "ToLower lowerU ''cpu'' = ''cpu''" "\<not> Contains ''cpu'' ''gpu''" "\<not> Contains ''cpu'' ''graphics''"
    "Contains ''cpu'' ''cpu''" by code_simp+
  then show ?thesis using assms by (simp add: sensor_step_def Let_def cpuSensor_def isValidTemperature_iff)
qed

lemma demoSafety_available:
  assumes "0 < t" "t \<le> 125" "plMerge pl = mergePlatformMetrics"
  shows "safety_readings lowerU pl (demoSafety [cpuSensor t]) =
      emptyMetrics\<lparr>CPUTemperature := Fin t, CPUTemperatureSource := ''gopsutil-host-sensors:cpu''\<rparr>"
    and "ThermalSafetyAvailable (collectHardwareControlSafetyMetrics lowerU pl (demoSafety [cpuSensor t]))"
proof -
  let ?m = "emptyMetrics\<lparr>CPUTemperature := Fin t, CPUTemperatureSource := ''gopsutil-host-sensors:cpu''\<rparr>"
  show "safety_readings lowerU pl (demoSafety [cpuSensor t]) = ?m"
    using assms by (simp add: safety_readings_def demoSafety_def cpuSensor_step)
  moreover have "CPUTemperatureSource (label_source (label_gpu (label_cpu ?m))) \<noteq> []"
    by (simp add: label_source_def label_gpu_def label_cpu_def)
  ultimately show "ThermalSafetyAvailable (collectHardwareControlSafetyMetrics lowerU pl (demoSafety [cpuSensor t]))"
    using assms by (simp add: collectHardwareControlSafetyMetrics_def Let_def thermal_available_def isValidTemperature_iff)
qed

theorem telemetry_available_witness:
  "let m = collectHardwareControlSafetyMetrics id demoPlatform (demoSafety [cpuSensor 60]) in
   (CPUTemperatureSource m \<noteq> [] \<and> is_fin (CPUTemperature m) \<and> 0 < fval (CPUTemperature m) \<and> fval (CPUTemperature m) \<le> 125) \<or>
   (GPUTemperatureSource m \<noteq> [] \<and> is_fin (GPUTemperature m) \<and> 0 < fval (GPUTemperature m) \<and> fval (GPUTemperature m) \<le> 125)"
  unfolding Let_def by (rule telemetry_available [OF demoSafety_available(2)]) (simp_all add: demoPlatform_def)

text \<open>Of several CPU sensors the gate only sees the last one: the CPU temperature that Linux safety telemetry
  reports is the reading of the last sensor whose key contains \<open>cpu\<close>, however hot the earlier ones are.\<close>

theorem last_cpu_sensor_wins:
  assumes "plMerge pl = mergePlatformMetrics" and "seTemps env = Some (ts @ [s])"
    and "Contains (ToLower lowerU (SensorKey s)) ''cpu''"
    and "isValidTemperature (Temperature s)" and "flt (Fin 0) (Temperature s)"
  shows "CPUTemperature (collectHardwareControlSafetyMetrics lowerU pl env) = Temperature s"
  using assms sensor_step_cpu [OF assms(3-5)] by (simp add: safety_readings_def Let_def split: option.split prod.split)

theorem last_cpu_sensor_wins_witness:
  "CPUTemperature (collectHardwareControlSafetyMetrics id demoPlatform (demoSafety [cpuSensor 98, cpuSensor 70])) = Fin 70"
proof -
  have "plMerge demoPlatform = mergePlatformMetrics" by (simp add: demoPlatform_def)
  moreover have "seTemps (demoSafety [cpuSensor 98, cpuSensor 70]) = Some ([cpuSensor 98] @ [cpuSensor 70])"
    by (simp add: demoSafety_def)
  ultimately have "CPUTemperature (collectHardwareControlSafetyMetrics id demoPlatform
      (demoSafety [cpuSensor 98, cpuSensor 70])) = Temperature (cpuSensor 70)"
    by (rule last_cpu_sensor_wins) (rule cpuSensor_ok; simp)+
  then show ?thesis by (simp add: cpuSensor_def)
qed

end
