(* ===== verification/Execute.thy ===== *)
theory Execute
  imports Safety
begin

text \<open>
  Execution of a hardware-control command (\<open>executeHardwareCommand\<close> of \<open>main.go\<close>) with the
  panic state it consults (\<open>panicModeActive\<close> of \<open>fetch_status_service.go\<close>).  The command runs on
  a platform (fan backend, telemetry, power modes); the environment says what each call sees,
  one entry per call, so the machine may change between the safety check and the write.  The
  result is the error, the files written, and the state that the command may change: the
  game-mode flag and the power daemon.

  Shown here, from the contract of the fan backend: whatever is written, was written outside
  panic mode, with valid thermal telemetry, and with full cooling if a temperature is critical.
\<close>

subsection \<open>Panic state\<close>

text \<open>The \<open>panic\<close> member of the state file, as \<open>json.Unmarshal\<close> stores it; \<open>None\<close> is an error.\<close>

fun panic_member :: "(bytes \<times> json) list \<Rightarrow> bool \<Rightarrow> bool option" where
  "panic_member [] p = Some p"
| "panic_member ((k, v) # ms) p =
     (if fold_name k = ''panic'' then
        (case elem_bool p v of None \<Rightarrow> None | Some b \<Rightarrow> panic_member ms b)
      else panic_member ms p)"

text \<open>\<open>contents\<close> is what reading the panic state file returns.\<close>

definition panicModeActive :: "bytes option \<Rightarrow> bool" where
  "panicModeActive contents =
     (case contents of
        None \<Rightarrow> False
      | Some d \<Rightarrow>
          (case json_decode d of
             Some (JObj ms) \<Rightarrow> panic_member ms False = Some True
           | _ \<Rightarrow> False))"

subsection \<open>The command\<close>

record 'w exec_state =
  esGameMode :: bool
  esPower :: 'w

record 'v exec_env =
  xePanicFile :: "bytes option"
  xeList :: 'v
  xeSafety :: "'v safety_env"
  xeSet :: 'v

definition panicDenied :: bytes where
  "panicDenied = ''hardware control blocked: security panic mode active''"

definition set_power ::
  "('v, 'w) platform \<Rightarrow> bytes \<Rightarrow> float64 \<Rightarrow> 'w exec_state \<Rightarrow> gerr \<times> writes \<times> 'w exec_state" where
  "set_power pl supply x st =
     (case plPower pl supply x (esPower st) of ((_, err), w') \<Rightarrow> (err, [], st\<lparr>esPower := w'\<rparr>))"

definition with_writes :: "gerr \<times> writes \<Rightarrow> 'w exec_state \<Rightarrow> gerr \<times> writes \<times> 'w exec_state" where
  "with_writes r st = (fst r, snd r, st)"

definition executeHardwareCommand ::
  "(bytes \<Rightarrow> bytes) \<Rightarrow> ('v, 'w) platform \<Rightarrow> 'v exec_env \<Rightarrow> Command \<Rightarrow> 'w exec_state \<Rightarrow>
   gerr \<times> writes \<times> 'w exec_state" where
  "executeHardwareCommand lowerU pl env cmd st =
     (let action = cAction cmd;
          panic = panicModeActive (xePanicFile env);
          metrics = collectHardwareControlSafetyMetrics lowerU pl (xeSafety env)
      in if action = actFan then
           (if panic then (Err panicDenied, [], st)
            else case validateFanControlRequest cmd metrics of
                   Some e \<Rightarrow> (Err e, [], st)
                 | None \<Rightarrow> with_writes (opSet (plFan pl) (xeSet env) (cValue cmd)) st)
         else if action = ''Set Fan Channel'' then
           (if panic then (Err panicDenied, [], st)
            else if \<not> list_ex (\<lambda>ch. chID ch = cTarget cmd \<and> chSupported ch) (opList (plFan pl) (xeList env))
            then (Err ''fan channel was not detected or is monitor-only'', [], st)
            else case validateFanChannelControlRequest cmd metrics of
                   Some e \<Rightarrow> (Err e, [], st)
                 | None \<Rightarrow> with_writes (opSetChannel (plFan pl) (xeSet env) (cTarget cmd) (cValue cmd)) st)
         else if action = actAI then
           (if panic then (Err panicDenied, [], st)
            else (Err ''hardware control backend is not available on this build'', [], st))
         else if action = ''Set Game Mode'' then
           (if panic then (Err panicDenied, [], st)
            else (nil, [], st\<lparr>esGameMode := fle (Fin 50) (cValue cmd)\<rparr>))
         else if action = ''Set Power Mode AC'' \<or> action = ''Set Power Mode DC'' then
           (if panic then (Err panicDenied, [], st)
            else case validatePowerModeRequest action (cValue cmd) of
                   Some e \<Rightarrow> (Err e, [], st)
                 | None \<Rightarrow> set_power pl (if action = ''Set Power Mode DC'' then ''DC'' else ''AC'') (cValue cmd) st)
         else if action = ''Set Power Profile'' then
           (if panic then (Err panicDenied, [], st)
            else case validatePowerModeRequest ''Set Power Mode AC'' (cValue cmd) of
                   Some e \<Rightarrow> (Err e, [], st)
                 | None \<Rightarrow> set_power pl ''SYSTEM'' (cValue cmd) st)
         else (Err (''action cannot be executed: '' @ action), [], st))"

definition linux_platform :: "'w daemon \<Rightarrow> (os_view, 'w \<times> busctl_call list) platform" where
  "linux_platform busctl = \<lparr>plFan = linux_ops, plMerge = mergePlatformMetrics,
     plPower = (\<lambda>supply x. run_state (setPlatformPowerMode busctl supply x)),
     plGetPower = run_state (getPlatformPowerMode busctl)\<rparr>"

definition darwin_platform :: "('v, 'w) platform" where
  "darwin_platform = \<lparr>plFan = darwin_ops, plMerge = (\<lambda>v m. m),
     plPower = (\<lambda>supply x w. (otherSetPlatformPowerMode ''darwin'' supply x, w)),
     plGetPower = (\<lambda>w. (otherGetPlatformPowerMode ''darwin'', w))\<rparr>"

subsection \<open>Panic mode denies control\<close>

lemma execute_panic:
  assumes "panicModeActive (xePanicFile env)"
  shows "\<exists>e. executeHardwareCommand lowerU pl env cmd st = (Err e, [], st)"
  using assms by (simp add: executeHardwareCommand_def Let_def)

subsection \<open>The effect of a command on the hardware\<close>

text \<open>What a write is allowed to rest on.\<close>

definition safe_write ::
  "(bytes \<Rightarrow> bytes) \<Rightarrow> ('v, 'w) platform \<Rightarrow> 'v exec_env \<Rightarrow> Command \<Rightarrow> bool" where
  "safe_write lowerU pl env cmd =
     (let m = collectHardwareControlSafetyMetrics lowerU pl (xeSafety env) in
      cAction cmd \<in> {actFan, ''Set Fan Channel''} \<and> \<not> panicModeActive (xePanicFile env) \<and>
      validateFanPercent (cValue cmd) = nil \<and> validateThermalTelemetry m = nil \<and> cooling_ok (cValue cmd) m)"

lemma act_distinct [simp]:
  "actFan \<noteq> ''Set Fan Channel''" "''Set Fan Channel'' \<noteq> actFan" "actAI \<noteq> actFan" "actFan \<noteq> actAI"
  "actAI \<noteq> ''Set Fan Channel''" "''Set Fan Channel'' \<noteq> actAI"
  by (simp_all add: actFan_def actAI_def)

lemma set_power_writes [simp]: "fst (snd (set_power pl s x st)) = []"
  by (simp add: set_power_def split: prod.split)

text \<open>The only writes of a command are those of the backend call it makes.\<close>

lemma execute_writes:
  assumes "fst (snd (executeHardwareCommand lowerU pl env cmd st)) = ws" and "ws \<noteq> []"
  defines "m \<equiv> collectHardwareControlSafetyMetrics lowerU pl (xeSafety env)"
  shows "\<not> panicModeActive (xePanicFile env) \<and>
    ((cAction cmd = actFan \<and> validateFanControlRequest cmd m = nil \<and>
      ws = snd (opSet (plFan pl) (xeSet env) (cValue cmd))) \<or>
     (cAction cmd = ''Set Fan Channel'' \<and> validateFanChannelControlRequest cmd m = nil \<and>
      ws = snd (opSetChannel (plFan pl) (xeSet env) (cTarget cmd) (cValue cmd))))"
  using assms(1,2) unfolding executeHardwareCommand_def Let_def m_def [symmetric]
  by (auto simp: with_writes_def split: if_splits option.splits)

context fan_backend
begin

lemma execute_safe:
  assumes "fst (snd (executeHardwareCommand lowerU pl env cmd st)) = ws" and "ws \<noteq> []"
    and "plFan pl = ops"
  shows "safe_write lowerU pl env cmd \<and> (\<forall>(path, t) \<in> set ws. pwm_text t)"
proof -
  let ?m = "collectHardwareControlSafetyMetrics lowerU pl (xeSafety env)"
  from execute_writes [OF assms(1,2)] assms(3) consider
      (fan) "cAction cmd = actFan" "validateFanControlRequest cmd ?m = nil"
        "ws = snd (opSet ops (xeSet env) (cValue cmd))" "\<not> panicModeActive (xePanicFile env)"
    | (chan) "cAction cmd = ''Set Fan Channel''" "validateFanChannelControlRequest cmd ?m = nil"
        "ws = snd (opSetChannel ops (xeSet env) (cTarget cmd) (cValue cmd))"
        "\<not> panicModeActive (xePanicFile env)"
    by auto
  then show ?thesis
  proof cases
    case fan
    with assms(2) have "validateFanPercent (cValue cmd) = nil" using set_valid by simp
    with fan fan_request_nil [OF fan(2,1)] set_pwm show ?thesis
      by (auto simp: safe_write_def Let_def)
  next
    case chan
    with assms(2) have "validateFanPercent (cValue cmd) = nil" using chan_valid by simp
    with chan channel_request_nil [OF chan(2,1)] chan_pwm show ?thesis
      by (auto simp: safe_write_def Let_def)
  qed
qed

text \<open>A fan command that reports success has made its write, so it was safe.\<close>

lemma execute_success:
  assumes "fst (executeHardwareCommand lowerU pl env cmd st) = nil"
    and "cAction cmd \<in> {actFan, ''Set Fan Channel''}" and "plFan pl = ops"
  shows "fst (snd (executeHardwareCommand lowerU pl env cmd st)) \<noteq> [] \<and> safe_write lowerU pl env cmd"
proof -
  have "fst (snd (executeHardwareCommand lowerU pl env cmd st)) \<noteq> []"
    using assms set_acts chan_acts
    by (auto simp: executeHardwareCommand_def Let_def with_writes_def split: if_splits option.splits)
  with execute_safe [OF refl _ assms(3)] show ?thesis by blast
qed

end

subsection \<open>Properties\<close>

text \<open>In panic mode no command controls the hardware: on every platform, for every command, execution returns
  an error, writes no file, and leaves the game mode and the power daemon as they were.\<close>

theorem panic_denies_control:
  assumes "panicModeActive (xePanicFile env)"
  shows "\<exists>e. executeHardwareCommand lowerU pl env cmd st = (Err e, [], st)"
  using execute_panic [OF assms] .

definition demoExec :: "bytes option \<Rightarrow> rat \<Rightarrow> os_view exec_env" where
  "demoExec panic temp = \<lparr>xePanicFile = panic, xeList = demoView, xeSafety = demoSafety [cpuSensor temp], xeSet = demoView\<rparr>"

definition demoState :: "unit exec_state" where
  "demoState = \<lparr>esGameMode = False, esPower = ()\<rparr>"

definition fanCommand :: "float64 \<Rightarrow> Command" where
  "fanCommand x = statusCommand\<lparr>cAction := actFan, cValue := x\<rparr>"

definition panicText :: bytes where
  "panicText = CHR ''{'' # CHR 0x22 # ''panic'' @ CHR 0x22 # '':true}''"

lemma panicText_active: "panicModeActive (Some panicText)"
  by code_simp

theorem panic_denies_control_witness:
  "\<exists>e. executeHardwareCommand id demoPlatform (demoExec (Some panicText) 60) (fanCommand (Fin 50)) demoState =
    (Err e, [], demoState)"
  by (rule panic_denies_control) (simp add: demoExec_def panicText_active)

text \<open>Whatever the machine reports at each call, a command on Linux writes only duty cycles from 0 to 255 to files
  inside \<open>/sys/class/hwmon\<close>, and only for a fan command outside panic mode with a percentage above 0 and at most
  100, with valid thermal telemetry, and with the 100 percent target once a temperature in that telemetry has
  reached 95 degrees.\<close>

theorem linux_writes_safe:
  assumes "(path, t) \<in> set (fst (snd (executeHardwareCommand lowerU (linux_platform busctl) env cmd st)))"
  defines "m \<equiv> collectHardwareControlSafetyMetrics lowerU (linux_platform busctl) (xeSafety env)"
  shows "inside hwmonRoot path \<and> (\<exists>n. 0 \<le> n \<and> n \<le> 255 \<and> t = FormatInt n @ [CHR 0x0A]) \<and>
    cAction cmd \<in> {actFan, ''Set Fan Channel''} \<and> \<not> panicModeActive (xePanicFile env) \<and>
    0 < fval (cValue cmd) \<and> fval (cValue cmd) \<le> 100 \<and> ThermalSafetyAvailable m \<and>
    (95 \<le> fval (CPUTemperature m) \<or> 95 \<le> fval (GPUTemperature m) \<longrightarrow> fval (cValue cmd) = 100)"
proof -
  let ?pl = "linux_platform busctl"
  let ?ws = "fst (snd (executeHardwareCommand lowerU ?pl env cmd st))"
  have ne: "?ws \<noteq> []" using assms(1) by auto
  have fan: "plFan ?pl = linux_ops" by (simp add: linux_platform_def)
  have safe: "safe_write lowerU ?pl env cmd" and pwm: "pwm_text t"
    using linux.execute_safe [OF refl ne fan] assms(1) by auto
  have "inside hwmonRoot path"
    using execute_writes [OF refl ne] assms(1) setFanControl_inside setFanControlChannel_inside
    by (auto simp: fan linux_ops_def)
  moreover have "temperature_known x \<Longrightarrow> 95 \<le> fval x \<Longrightarrow> fle (Fin 95) x" for x by (simp add: temperature_known_def)
  ultimately show ?thesis
    using safe pwm unfolding m_def
    by (auto simp: safe_write_def Let_def pwm_text_iff err_simps cooling_ok_def hasCriticalThermalState_def
        simp del: collect_temperature)
qed

text \<open>A machine at 60 degrees with one fan: the command of 50 percent reaches the duty-cycle file.\<close>

definition quietDaemon :: "unit daemon" where
  "quietDaemon w args = (w, [], Err ''busctl: not found'')"

abbreviation demoLinux :: "(os_view, unit \<times> busctl_call list) platform" where
  "demoLinux \<equiv> linux_platform quietDaemon"

definition demoPower :: "(unit \<times> busctl_call list) exec_state" where
  "demoPower = \<lparr>esGameMode = False, esPower = ((), [])\<rparr>"

lemma demo_fan_command:
  "executeHardwareCommand id demoLinux (demoExec None 60) (fanCommand (Fin 50)) demoPower =
     (nil, [(''/sys/class/hwmon/hwmon0/pwm1'', ''127'' @ [CHR 0x0A])], demoPower)"
proof -
  let ?m = "collectHardwareControlSafetyMetrics id demoLinux (demoSafety [cpuSensor 60])"
  have merge: "plMerge demoLinux = mergePlatformMetrics" and fan: "plFan demoLinux = linux_ops"
    by (simp_all add: linux_platform_def)
  have det: "fciSupported (detectFanControl demoView)" "fciBackend (detectFanControl demoView) \<notin> {[], ''monitor-only''}"
    using linux.set_detected [of demoView "Fin 50"] linux.detect_backend [of demoView] demoView_write
    by (auto simp: linux_ops_def)
  have "FanControlSupported ?m" "FanControlBackend ?m \<notin> {[], ''monitor-only''}"
    using det by (simp_all add: collectHardwareControlSafetyMetrics_def Let_def fan linux_ops_def demoSafety_def)
  then have "validateFanControlRequest (fanCommand (Fin 50)) ?m = nil"
    using demoSafety_available [OF _ _ merge, of 60 id]
    by (auto simp: validateFanControlRequest_def fanCommand_def thermal_telemetry_nil temperature_known_def
        hasCriticalThermalState_def emptyMetrics_def)
  then show ?thesis
    by (simp add: executeHardwareCommand_def Let_def fanCommand_def demoExec_def panicModeActive_def with_writes_def
        fan linux_ops_def demoView_write)
qed

theorem linux_writes_safe_witness:
  "ThermalSafetyAvailable (collectHardwareControlSafetyMetrics id demoLinux (xeSafety (demoExec None 60)))"
proof -
  have "(''/sys/class/hwmon/hwmon0/pwm1'', ''127'' @ [CHR 0x0A]) \<in>
      set (fst (snd (executeHardwareCommand id demoLinux (demoExec None 60) (fanCommand (Fin 50)) demoPower)))"
    by (simp add: demo_fan_command)
  from linux_writes_safe [OF this] show ?thesis by blast
qed

text \<open>A fan command that reports success on Linux has reached the hardware: at least one duty-cycle file was
  written, and the write was allowed.\<close>

theorem linux_fan_success:
  assumes "fst (executeHardwareCommand lowerU (linux_platform busctl) env cmd st) = nil"
    and "cAction cmd \<in> {actFan, ''Set Fan Channel''}"
  shows "fst (snd (executeHardwareCommand lowerU (linux_platform busctl) env cmd st)) \<noteq> [] \<and>
    safe_write lowerU (linux_platform busctl) env cmd"
proof -
  have "plFan (linux_platform busctl) = linux_ops" by (simp add: linux_platform_def)
  from linux.execute_success [OF assms this] show ?thesis .
qed

theorem linux_fan_success_witness: "safe_write id demoLinux (demoExec None 60) (fanCommand (Fin 50))"
  using linux_fan_success [of id quietDaemon "demoExec None 60" "fanCommand (Fin 50)" demoPower]
  by (simp add: demo_fan_command) (simp add: fanCommand_def)

text \<open>On macOS, Windows and every platform without a validated backend no command writes anything, and every fan
  command fails.\<close>

theorem unvalidated_platforms_write_nothing:
  assumes "plFan pl \<in> {darwin_ops, windows_ops, other_ops}"
  shows "fst (snd (executeHardwareCommand lowerU pl env cmd st)) = [] \<and>
    (cAction cmd \<in> {actFan, ''Set Fan Channel''} \<longrightarrow> fst (executeHardwareCommand lowerU pl env cmd st) \<noteq> nil)"
proof -
  obtain a b c where ops: "plFan pl = unavailable_ops a b c"
    using assms by (auto simp: darwin_ops_def windows_ops_def other_ops_def)
  have quiet: "opSet (plFan pl) v p = (Err (asError (fanControlUnavailable b)), [])"
    "opSetChannel (plFan pl) v i p = (Err (asError (fanControlUnavailable c)), [])" for v p i
    by (simp_all add: ops unavailable_ops_def)
  have "fst (snd (executeHardwareCommand lowerU pl env cmd st)) = []"
    using execute_writes [of lowerU pl env cmd st] quiet by fastforce
  moreover have "fst (executeHardwareCommand lowerU pl env cmd st) \<noteq> nil" if "cAction cmd \<in> {actFan, ''Set Fan Channel''}"
    using that quiet
    by (auto simp: executeHardwareCommand_def Let_def with_writes_def split: option.splits)
  ultimately show ?thesis by blast
qed

theorem unvalidated_platforms_write_nothing_witness:
  "fst (executeHardwareCommand id (darwin_platform :: (os_view, unit) platform) (demoExec None 60) (fanCommand (Fin 50)) demoState) \<noteq> nil"
proof -
  have "plFan (darwin_platform :: (os_view, unit) platform) \<in> {darwin_ops, windows_ops, other_ops}"
    by (simp add: darwin_platform_def)
  from unvalidated_platforms_write_nothing [OF this, of id "demoExec None 60" "fanCommand (Fin 50)" demoState]
  show ?thesis by (simp add: fanCommand_def)
qed

end
