(* ===== verification/GoTime.thy ===== *)
theory GoTime
  imports GoStrings
begin

text \<open>
  \<open>time.Time\<close> values as nanoseconds since the Unix epoch, and their text in UTC in the layouts
  \<open>time.RFC3339\<close> and \<open>time.RFC3339Nano\<close> (years 0 to 9999).
\<close>

abbreviation second :: int where "second \<equiv> 1000000000"

text \<open>Days since the epoch to year, month and day, counting from 1 March of year 0.\<close>

definition civil :: "int \<Rightarrow> int \<times> int \<times> int" where
  "civil days =
     (let z = days + 719468;
          era = z div 146097;
          doe = z mod 146097;
          yoe = (doe - doe div 1460 + doe div 36524 - doe div 146096) div 365;
          doy = doe - (365 * yoe + yoe div 4 - yoe div 100);
          mp = (5 * doy + 2) div 153;
          d = doy - (153 * mp + 2) div 5 + 1;
          m = (if mp < 10 then mp + 3 else mp - 9)
      in (yoe + era * 400 + (if m \<le> 2 then 1 else 0), m, d))"

definition pad :: "nat \<Rightarrow> int \<Rightarrow> bytes" where
  "pad k n = replicate (k - length (digits_of n)) (CHR ''0'') @ digits_of n"

definition date_time :: "int \<Rightarrow> bytes" where
  "date_time secs =
     (case civil (secs div 86400) of (y, m, d) \<Rightarrow>
      let s = secs mod 86400 in
      pad 4 y @ ''-'' @ pad 2 m @ ''-'' @ pad 2 d @ ''T'' @
      pad 2 (s div 3600) @ '':'' @ pad 2 (s div 60 mod 60) @ '':'' @ pad 2 (s mod 60))"

definition rfc3339 :: "int \<Rightarrow> bytes" where
  "rfc3339 t = date_time (t div second) @ ''Z''"

text \<open>The fraction without trailing zeros, and nothing when it is zero.\<close>

definition rfc3339nano :: "int \<Rightarrow> bytes" where
  "rfc3339nano t =
     (let f = rev (dropWhile (\<lambda>c. c = CHR ''0'') (rev (pad 9 (t mod second))))
      in date_time (t div second) @ (if f = [] then [] else CHR ''.'' # f) @ ''Z'')"

lemma date_time_not_Nil [simp]: "rfc3339 t \<noteq> []" "rfc3339nano t \<noteq> []"
  by (simp_all add: rfc3339_def rfc3339nano_def Let_def)

end
