(* ===== verification/JsonText.thy ===== *)
theory JsonText
  imports Json
begin

text \<open>
  \<open>json.Marshal\<close> and \<open>json.MarshalIndent\<close>, and the law that connects them with the decoder: a
  value whose strings are valid UTF-8 and whose numbers are number literals is read back
  unchanged from either form.  Both are instances of one writer, \<open>layout\<close>, that is given the way
  strings are quoted and the white space between the tokens.
\<close>

subsection \<open>Writers\<close>

text \<open>\<open>json.Marshal\<close>: HTML characters, which occur only inside strings, are escaped.\<close>

definition html_escape :: "bytes \<Rightarrow> bytes" where
  "html_escape s = concat (map (\<lambda>c.
     if c = CHR ''<'' then CHR 0x5C # ''u003c''
     else if c = CHR ''>'' then CHR 0x5C # ''u003e''
     else if c = CHR 0x26 then CHR 0x5C # ''u0026''
     else [c]) s)"

definition html_quote :: "bytes \<Rightarrow> bytes" where
  "html_quote s = html_escape (quote s)"

text \<open>A separator is put between the elements, which start and end on lines of their own.\<close>

definition bracket :: "char \<Rightarrow> char \<Rightarrow> bytes \<Rightarrow> bytes \<Rightarrow> bytes list \<Rightarrow> bytes" where
  "bracket l r inner outer es =
     (if es = [] then [l, r] else l # inner @ Join es (CHR '','' # inner) @ outer @ [r])"

fun layout :: "(bytes \<Rightarrow> bytes) \<Rightarrow> (nat \<Rightarrow> bytes) \<Rightarrow> bytes \<Rightarrow> nat \<Rightarrow> json \<Rightarrow> bytes res" where
  "layout q nl gap d JNull = Inr ''null''"
| "layout q nl gap d (JBool b) = Inr (if b then ''true'' else ''false'')"
| "layout q nl gap d (JNum v) = Inr v"
| "layout q nl gap d (JStr s) = Inr (q s)"
| "layout q nl gap d (JArr vs) =
     rbind (res_all (map (layout q nl gap (Suc d)) vs))
       (\<lambda>es. Inr (bracket (CHR ''['') (CHR '']'') (nl (Suc d)) (nl d) es))"
| "layout q nl gap d (JObj ms) =
     rbind (res_all (map (\<lambda>(k, v). rbind (layout q nl gap (Suc d) v) (\<lambda>e. Inr (q k @ CHR '':'' # gap @ e))) ms))
       (\<lambda>es. Inr (bracket (CHR ''{'') (CHR ''}'') (nl (Suc d)) (nl d) es))"
| "layout q nl gap d (JUnsupported t) = Inl (''json: unsupported value: '' @ t)"

definition json_marshal :: "json \<Rightarrow> bytes res" where
  "json_marshal = layout html_quote (\<lambda>_. []) [] 0"

text \<open>\<open>json.MarshalIndent(v, "", "  ")\<close>.\<close>

definition json_marshal_indent :: "json \<Rightarrow> bytes res" where
  "json_marshal_indent = layout html_quote (\<lambda>d. CHR 0x0A # replicate (2 * d) (CHR '' '')) '' '' 0"

subsection \<open>Strings\<close>

function valid_utf8 :: "bytes \<Rightarrow> bool" where
  "valid_utf8 [] = True"
| "valid_utf8 (c # s) = (rune_len (c # s) \<noteq> 0 \<and> valid_utf8 (drop (rune_len (c # s) - 1) s))"
  by pat_completeness auto
termination
  by (relation "measure length") auto

declare valid_utf8.simps [simp del]

lemma valid_utf8_Nil [simp]: "valid_utf8 []"
  by (simp add: valid_utf8.simps)

lemma valid_utf8_ascii: "list_all (\<lambda>c. byte c < 0x80) s \<Longrightarrow> valid_utf8 s"
  by (induction s) (auto simp: valid_utf8.simps rune_len_def)

text \<open>A text that the lexer reads as the bytes \<open>d\<close> whatever follows it.\<close>

definition chunk :: "bytes \<Rightarrow> bytes \<Rightarrow> bool" where
  "chunk e d = (\<forall>r. lex_string (e @ r) = map_option (\<lambda>(v, rest). (d @ v, rest)) (lex_string r))"

lemma chunk_Nil: "chunk [] []"
  by (simp add: chunk_def option.map_ident split_def)

lemma chunk_append: "chunk e d \<Longrightarrow> chunk e' d' \<Longrightarrow> chunk (e @ e') (d @ d')"
  by (simp add: chunk_def option.map_comp comp_def split_def)

lemma chunk_close: "chunk e d \<Longrightarrow> lex_string (e @ CHR 0x22 # r) = Some (d, r)"
  by (simp add: chunk_def lex_string.simps)

lemma utf8_ascii: "r < 0x80 \<Longrightarrow> utf8_encode r = [char_of r]"
  by (simp add: utf8_encode_def)

lemma hex_val_0: "hex_val (CHR ''0'') = Some 0"
  by code_simp

lemma hex4_hex2: "n < 256 \<Longrightarrow> hex4 (CHR ''0'' # CHR ''0'' # hex2 n @ r) = Some n"
  by (simp add: hex4_def hex2_def hex_val_0)

lemma chunk_u00:
  assumes "byte c < 0x80"
  shows "chunk (CHR 0x5C # CHR ''u'' # CHR ''0'' # CHR ''0'' # hex2 (byte c)) [c]"
proof -
  have "drop 4 (CHR ''0'' # CHR ''0'' # hex2 (byte c) @ r) = r" for r by (simp add: hex2_def)
  moreover have "hex4 (CHR ''0'' # CHR ''0'' # hex2 (byte c) @ r) = Some (byte c)" for r
    by (rule hex4_hex2) simp
  ultimately show ?thesis using assms
    by (simp add: chunk_def lex_string.simps(2) unicode_escape_def utf8_ascii)
qed

lemma chunk_simple: "simple_escape e = Some c \<Longrightarrow> chunk [CHR 0x5C, e] [c]"
  by (auto simp: chunk_def lex_string.simps(2) simple_escape_def split: if_splits)

lemma chunk_plain: "plain_char c \<Longrightarrow> chunk [c] [c]"
  by (simp add: chunk_def lex_string.simps(2) rune_len_def plain_char_def)

lemma chunk_escape_byte:
  assumes "byte c < 0x80"
  shows "chunk (escape_byte c) [c]"
proof -
  have esc: "simple_escape (CHR ''b'') = Some (CHR 0x08)" "simple_escape (CHR ''f'') = Some (CHR 0x0C)"
    "simple_escape (CHR ''n'') = Some (CHR 0x0A)" "simple_escape (CHR ''r'') = Some (CHR 0x0D)"
    "simple_escape (CHR ''t'') = Some (CHR 0x09)"
    "simple_escape (CHR 0x22) = Some (CHR 0x22)" "simple_escape (CHR 0x5C) = Some (CHR 0x5C)"
    by code_simp+
  consider "c = CHR 0x22 \<or> c = CHR 0x5C" | "byte c \<in> {0x08, 0x0C, 0x0A, 0x0D, 0x09}"
    | "byte c < 0x20" "byte c \<notin> {0x08, 0x0C, 0x0A, 0x0D, 0x09}"
    | "plain_char c"
    using assms unfolding plain_char_def by (metis linorder_not_le)
  then show ?thesis
  proof cases
    case 1
    then show ?thesis using esc by (auto simp: escape_byte_def intro: chunk_simple)
  next
    case 2
    then have "c \<in> {CHR 0x08, CHR 0x0C, CHR 0x0A, CHR 0x0D, CHR 0x09}" by (simp flip: byte_inject)
    then show ?thesis using esc [THEN chunk_simple] by (auto simp: escape_byte_def)
  next
    case 3
    then have "c \<noteq> CHR 0x22" "c \<noteq> CHR 0x5C" by auto
    with 3 chunk_u00 [of c] show ?thesis by (simp add: escape_byte_def)
  next
    case 4
    then show ?thesis by (auto simp: escape_byte_def plain_char_def intro: chunk_plain)
  qed
qed

lemma html_escape_append [simp]: "html_escape (s @ t) = html_escape s @ html_escape t"
  by (simp add: html_escape_def)

lemma html_escape_plain:
  "list_all (\<lambda>c. c \<noteq> CHR ''<'' \<and> c \<noteq> CHR ''>'' \<and> c \<noteq> CHR 0x26) s \<Longrightarrow> html_escape s = s"
  by (induction s) (auto simp: html_escape_def)

lemma hex_val_html: "c \<in> {CHR ''<'', CHR ''>'', CHR 0x26} \<Longrightarrow> hex_val c = None"
  by (elim insertE emptyE) (simp_all, code_simp+)

lemma chunk_html_byte:
  assumes "byte c < 0x80"
  shows "chunk (html_escape (escape_byte c)) [c]"
proof (cases "c \<in> {CHR ''<'', CHR ''>'', CHR 0x26}")
  case True
  then have "html_escape (escape_byte c) = CHR 0x5C # CHR ''u'' # CHR ''0'' # CHR ''0'' # hex2 (byte c)"
    by (elim insertE emptyE) (simp_all, code_simp+)
  then show ?thesis using chunk_u00 [OF assms] by simp
next
  case False
  have "html_escape (escape_byte c) = escape_byte c"
  proof (rule html_escape_plain)
    have "hex_digit n \<notin> {CHR ''<'', CHR ''>'', CHR 0x26}" if "n < 16" for n
      using that by (metis hex_val_digit hex_val_html option.distinct(1))
    then show "list_all (\<lambda>c. c \<noteq> CHR ''<'' \<and> c \<noteq> CHR ''>'' \<and> c \<noteq> CHR 0x26) (escape_byte c)"
      using False assms by (auto simp: escape_byte_def hex2_def)
  qed
  then show ?thesis using chunk_escape_byte [OF assms] by simp
qed

lemma rune_multi:
  assumes "rune_len (c # s) = Suc n" and "\<not> byte c < 0x80"
  shows "rune_len (c # take n s @ r) = Suc n \<and> length (take n s) = n \<and>
    list_all (\<lambda>b. 0x80 \<le> byte b) (c # take n s)"
proof -
  consider b t where "n = 1" "s = b # t" "cont_byte b" "0xC2 \<le> byte c" "byte c \<le> 0xDF"
    | b d t where "n = 2" "s = b # d # t" "cont_byte b" "cont_byte d" "0xE0 \<le> byte c" "byte c \<le> 0xEF"
        "byte c = 0xE0 \<longrightarrow> 0xA0 \<le> byte b" "byte c = 0xED \<longrightarrow> byte b \<le> 0x9F"
    | b d e t where "n = 3" "s = b # d # e # t" "cont_byte b" "cont_byte d" "cont_byte e" "0xF0 \<le> byte c" "byte c \<le> 0xF4"
        "byte c = 0xF0 \<longrightarrow> 0x90 \<le> byte b" "byte c = 0xF4 \<longrightarrow> byte b \<le> 0x8F"
    using assms unfolding rune_len_def by (auto split: if_splits list.splits)
  then show ?thesis
    by cases (simp_all add: rune_len_def cont_byte_def numeral_2_eq_2 numeral_3_eq_3)
qed

lemma chunk_rune:
  assumes "rune_len (c # s) = Suc n" and "\<not> byte c < 0x80"
  shows "chunk (c # take n s) (c # take n s)"
proof -
  have "c \<noteq> CHR 0x22" "c \<noteq> CHR 0x5C" using assms(2) by auto
  moreover have "take n (take n s @ r) = take n s" "drop n (take n s @ r) = r" for r
    using rune_multi [OF assms] by simp_all
  ultimately show ?thesis using rune_multi [OF assms] assms(2)
    by (simp add: chunk_def lex_string.simps(2) split_def)
qed

lemma chunk_separators:
  "chunk (CHR 0x5C # ''u2028'') [CHR 0xE2, CHR 0x80, CHR 0xA8]"
  "chunk (CHR 0x5C # ''u2029'') [CHR 0xE2, CHR 0x80, CHR 0xA9]"
proof -
  have "hex4 (''2028'' @ r) = Some 0x2028" "hex4 (''2029'' @ r) = Some 0x2029" for r
    by (simp_all add: hex4_def hex_val_def)
  moreover have "utf8_encode 0x2028 = [CHR 0xE2, CHR 0x80, CHR 0xA8]" "utf8_encode 0x2029 = [CHR 0xE2, CHR 0x80, CHR 0xA9]"
    by (simp_all add: utf8_encode_def flip: byte_inject)
  ultimately show "chunk (CHR 0x5C # ''u2028'') [CHR 0xE2, CHR 0x80, CHR 0xA8]"
    "chunk (CHR 0x5C # ''u2029'') [CHR 0xE2, CHR 0x80, CHR 0xA9]"
    by (simp_all add: chunk_def lex_string.simps(2) unicode_escape_def)
qed

text \<open>Valid strings are read back, with or without HTML escaping.\<close>

lemma chunk_string:
  assumes "h [] = []" and "\<And>x y. h (x @ y) = h x @ h y"
    and "\<And>c. byte c < 0x80 \<Longrightarrow> chunk (h (escape_byte c)) [c]"
    and "\<And>r. list_all (\<lambda>b. 0x80 \<le> byte b) r \<Longrightarrow> h r = r"
    and "h (CHR 0x5C # ''u2028'') = CHR 0x5C # ''u2028''" "h (CHR 0x5C # ''u2029'') = CHR 0x5C # ''u2029''"
    and "valid_utf8 s"
  shows "chunk (h (escape_string s)) s"
  using assms(7)
proof (induction s rule: escape_string.induct)
  case 1
  then show ?case by (simp add: assms(1) escape_string.simps chunk_Nil)
next
  case (2 c s)
  show ?case
  proof (cases "byte c < 0x80")
    case True
    with "2.IH"(1) "2.prems" have "chunk (h (escape_string s)) s" by (simp add: valid_utf8.simps(2) rune_len_def)
    from chunk_append [OF assms(3) [OF True] this] True show ?thesis
      by (simp add: escape_string.simps(2) assms(2))
  next
    case False
    have "rune_len (c # s) \<noteq> 0" using "2.prems" by (simp add: valid_utf8.simps(2))
    then obtain n where n: "rune_len (c # s) = Suc n" using not0_implies_Suc by blast
    with "2.prems" have v: "valid_utf8 (drop n s)" by (simp add: valid_utf8.simps(2))
    from "2.IH"(3) [OF False n refl] v have rest: "chunk (h (escape_string (drop n s))) (drop n s)" by simp
    have hi: "h (c # take n s) = c # take n s"
      using rune_multi [OF n False] by (intro assms(4)) simp
    define r where "r = (if c # take n s = [CHR 0xE2, CHR 0x80, CHR 0xA8] then CHR 0x5C # ''u2028''
      else if c # take n s = [CHR 0xE2, CHR 0x80, CHR 0xA9] then CHR 0x5C # ''u2029'' else c # take n s)"
    have "chunk (h r) (c # take n s)"
      using chunk_separators chunk_rune [OF n False] hi by (simp add: r_def assms(5,6))
    from chunk_append [OF this rest] have "chunk (h (r @ escape_string (drop n s))) (c # s)"
      by (simp add: assms(2))
    moreover have "escape_string (c # s) = r @ escape_string (drop n s)"
      using False n by (simp add: escape_string.simps(2) r_def Let_def)
    ultimately show ?thesis by simp
  qed
qed

text \<open>What the proofs below need of a quoting function.\<close>

definition quotes :: "(bytes \<Rightarrow> bytes) \<Rightarrow> bool" where
  "quotes q = (\<forall>s. valid_utf8 s \<longrightarrow> (\<exists>e. q s = CHR 0x22 # e \<and> (\<forall>r. lex_string (e @ r) = Some (s, r))))"

lemma quotes_quote: "quotes quote"
proof -
  have "chunk (escape_string s) s" if "valid_utf8 s" for s
    using chunk_string [of "\<lambda>x. x" s] chunk_escape_byte that by simp
  then show ?thesis by (auto simp: quotes_def quote_def chunk_close)
qed

lemma html_escape_quote: "html_escape (CHR 0x22 # s @ [CHR 0x22]) = CHR 0x22 # html_escape s @ [CHR 0x22]"
  by (simp add: html_escape_def)

lemma quotes_html_quote: "quotes html_quote"
proof -
  have "chunk (html_escape (escape_string s)) s" if "valid_utf8 s" for s
  proof (rule chunk_string [OF _ _ chunk_html_byte _ _ _ that])
    show "html_escape r = r" if "list_all (\<lambda>b. 0x80 \<le> byte b) r" for r
      by (rule html_escape_plain) (use that in \<open>auto simp: list_all_iff\<close>)
  qed (simp_all add: html_escape_def)
  then show ?thesis
    using html_escape_quote by (auto simp: quotes_def html_quote_def quote_def chunk_close)
qed

subsection \<open>Numbers and tokens\<close>

text \<open>After a number no byte may follow that would belong to it.\<close>

definition delimited :: "bytes \<Rightarrow> bool" where
  "delimited r = (case r of [] \<Rightarrow> True | c # _ \<Rightarrow> \<not> is_digit c \<and> c \<noteq> CHR ''.'' \<and> lower_byte c \<noteq> CHR ''e'')"

definition number_ok :: "bytes \<Rightarrow> bool" where
  "number_ok v = (v \<noteq> [] \<and> (hd v = CHR ''-'' \<or> is_digit (hd v)) \<and> (\<forall>r. delimited r \<longrightarrow> lex_number (v @ r) = Some (v, r)))"

lemma delimited_span:
  "list_all is_digit ds \<Longrightarrow> delimited r \<Longrightarrow> span_digits (ds @ r) = (ds, r)"
  by (cases r) (auto simp: span_digits_def delimited_def list_all_iff takeWhile_append dropWhile_append
      takeWhile_eq_all_conv dropWhile_eq_Nil_conv)

lemma lex_tail: "delimited r \<Longrightarrow> lex_frac r = Some ([], r) \<and> lex_exp r = Some ([], r)"
  by (cases r) (auto simp: delimited_def lex_frac_def lex_exp_def)

lemma digits_lead: "0 < n \<Longrightarrow> hd (digits_of n) \<noteq> CHR ''0''"
proof (induction n rule: digits_of.induct)
  case (1 n)
  show ?case
  proof (cases "n < 10")
    case True
    with 1(2) have "byte (char_of (48 + nat n)) \<noteq> byte (CHR ''0'')" by simp
    then have "char_of (48 + nat n) \<noteq> CHR ''0''" by metis
    with True show ?thesis by (subst digits_of.simps) simp
  next
    case False
    with 1 show ?thesis by (subst digits_of.simps) (simp add: hd_append)
  qed
qed

lemma lex_int_digits:
  assumes "0 \<le> n" and "delimited r"
  shows "lex_int (digits_of n @ r) = Some (digits_of n, r)"
proof (cases "n = 0")
  case True
  have "char_of (48 :: nat) = CHR ''0''" by (simp flip: byte_inject)
  with True show ?thesis by (simp add: digits_of.simps lex_int_def)
next
  case False
  obtain c t where d: "digits_of n = c # t" by (cases "digits_of n") auto
  with False assms(1) have "c \<noteq> CHR ''0''" using digits_lead [of n] by simp
  moreover have "list_all is_digit (c # t)" using digits_of_digits [of n] d by simp
  ultimately show ?thesis using delimited_span [of "c # t" r] assms(2) d by (simp add: lex_int_def)
qed

lemma digits_head: "is_digit (hd (digits_of n))" "hd (digits_of n) \<noteq> CHR ''-''"
proof -
  show d: "is_digit (hd (digits_of n))"
    using digits_of_digits [of n] digits_of_not_Nil [of n] by (cases "digits_of n") auto
  then show "hd (digits_of n) \<noteq> CHR ''-''" by (auto simp: is_digit_def)
qed

lemma number_ok_FormatInt: "number_ok (FormatInt i)"
proof (cases "i < 0")
  case True
  then show ?thesis
    using lex_int_digits [of "- i"] lex_tail by (auto simp: number_ok_def FormatInt_def lex_number_def)
next
  case False
  obtain c t where d: "digits_of i = c # t" by (cases "digits_of i") auto
  with digits_head [of i] False lex_int_digits [of i] lex_tail show ?thesis
    by (auto simp: number_ok_def FormatInt_def lex_number_def)
qed

lemma lex_string_shorter: "lex_string s = Some (v, r) \<Longrightarrow> length r < length s"
proof (induction s arbitrary: v rule: length_induct)
  case (1 s)
  show ?case
  proof (cases s)
    case Nil
    with 1(2) show ?thesis by (simp add: lex_string.simps)
  next
    case (Cons c t)
    have IH: "length r < Suc (length t)" if "lex_string u = Some (a, r)" "length u \<le> length t" for u a
    proof -
      have "length u < length s" using that(2) Cons by simp
      with 1(1) that(1) have "length r < length u" by blast
      with that(2) show ?thesis by simp
    qed
    from 1(2) show ?thesis
      unfolding Cons lex_string.simps(2)
      by (auto split: if_splits list.splits option.splits nat.splits prod.splits dest!: IH)
  qed
qed

lemma lex_number_shorter: "lex_number s = Some (v, r) \<Longrightarrow> length r < length s"
proof -
  have int: "lex_int t = Some (i, u) \<Longrightarrow> length u < length t" for t i u
    using length_dropWhile_le [of is_digit "tl t"]
    by (auto simp: lex_int_def span_digits_def split: list.splits if_splits)
  have frac: "lex_frac t = Some (i, u) \<Longrightarrow> length u \<le> length t" for t i u
    using length_dropWhile_le [of is_digit "tl t"]
    by (auto simp: lex_frac_def span_digits_def split: list.splits if_splits)
  have ex: "lex_exp t = Some (i, u) \<Longrightarrow> length u \<le> length t" for t i u
    using length_dropWhile_le [of is_digit "tl t"] length_dropWhile_le [of is_digit "tl (tl t)"]
    by (auto simp: lex_exp_def span_digits_def split: list.splits if_splits)
  show "lex_number s = Some (v, r) \<Longrightarrow> length r < length s"
    by (auto simp: lex_number_def split: list.splits if_splits option.splits prod.splits dest!: int frac ex)
qed

lemma next_token_shorter: "next_token s = Some (t, r) \<Longrightarrow> length r < length s"
  by (auto simp: next_token_def keyword_def HasPrefix_def split: list.splits option.splits if_splits
      dest!: lex_string_shorter lex_number_shorter)

lemma tokenize_next: "next_token (c # t) = Some (tok, r) \<Longrightarrow> \<not> json_space c \<Longrightarrow>
    tokenize (c # t) = map_option ((#) tok) (tokenize r)"
  using next_token_shorter [of "c # t" tok r] by (subst tokenize.simps) simp

lemma tokenize_white: "list_all json_space ws \<Longrightarrow> tokenize (ws @ s) = tokenize s"
proof -
  assume ws: "list_all json_space ws"
  then have drop: "dropWhile json_space (ws @ s) = dropWhile json_space s" by (induction ws) auto
  show ?thesis
  proof (cases "dropWhile json_space s")
    case Nil
    then show ?thesis by (subst (1 2) tokenize.simps) (simp only: drop list.case)
  next
    case (Cons c t)
    have "length (c # t) \<le> length s" using length_dropWhile_le [of json_space s] Cons by simp
    then have shorter: "length r < length s" if "next_token (c # t) = Some (tok, r)" for tok r
      using next_token_shorter [OF that] by simp
    show ?thesis
      by (subst (1 2) tokenize.simps) (auto simp: drop Cons dest: shorter split: option.split)
  qed
qed

subsection \<open>Reading back\<close>

fun json_ok :: "json \<Rightarrow> bool" where
  "json_ok (JNum v) = number_ok v"
| "json_ok (JStr s) = valid_utf8 s"
| "json_ok (JArr vs) = list_all json_ok vs"
| "json_ok (JObj ms) = list_all (\<lambda>(k, v). valid_utf8 k \<and> json_ok v) ms"
| "json_ok (JUnsupported t) = False"
| "json_ok _ = True"

text \<open>At most \<open>n\<close> arrays and objects are nested.\<close>

fun shallow :: "nat \<Rightarrow> json \<Rightarrow> bool" where
  "shallow n (JArr vs) = (case n of 0 \<Rightarrow> False | Suc m \<Rightarrow> list_all (shallow m) vs)"
| "shallow n (JObj ms) = (case n of 0 \<Rightarrow> False | Suc m \<Rightarrow> list_all (\<lambda>(k, v). shallow m v) ms)"
| "shallow n _ = True"

fun comma_sep :: "token list list \<Rightarrow> token list" where
  "comma_sep [] = []"
| "comma_sep [ts] = ts"
| "comma_sep (ts # tss) = ts @ TComma # comma_sep tss"

fun jtokens :: "json \<Rightarrow> token list" where
  "jtokens JNull = [TNull]"
| "jtokens (JBool b) = [if b then TTrue else TFalse]"
| "jtokens (JNum v) = [TNum v]"
| "jtokens (JStr s) = [TStr s]"
| "jtokens (JArr vs) = TLBrack # comma_sep (map jtokens vs) @ [TRBrack]"
| "jtokens (JObj ms) = TLBrace # comma_sep (map (\<lambda>(k, v). TStr k # TColon # jtokens v) ms) @ [TRBrace]"
| "jtokens (JUnsupported t) = []"

text \<open>A text that stands for the given tokens in front of any text that cannot continue a number.\<close>

definition prepend :: "token list \<Rightarrow> token list option \<Rightarrow> token list option" where
  "prepend ts x = map_option ((@) ts) x"

definition spells :: "bytes \<Rightarrow> token list \<Rightarrow> bool" where
  "spells x ts = (\<forall>r. delimited r \<longrightarrow> tokenize (x @ r) = prepend ts (tokenize r))"

lemma prepend_prepend [simp]: "prepend a (prepend b x) = prepend (a @ b) x"
  by (cases x) (simp_all add: prepend_def)

lemma prepend_Nil [simp]: "prepend [] x = x"
  by (cases x) (simp_all add: prepend_def)

lemma tokenize_one: "next_token (c # t) = Some (tok, r) \<Longrightarrow> \<not> json_space c \<Longrightarrow> tokenize (c # t) = prepend [tok] (tokenize r)"
  using tokenize_next [of c t tok r] by (cases "tokenize r") (simp_all add: prepend_def)

lemma tokenize_mark: "punct c = Some p \<Longrightarrow> tokenize (c # s) = prepend [p] (tokenize s)"
  by (rule tokenize_one) (auto simp: next_token_def punct_def json_space_def split: if_splits)

lemma delimited_mark: "punct c = Some p \<Longrightarrow> delimited (c # s)"
  by (auto simp: delimited_def punct_def is_digit_def lower_byte_def split: if_splits)

lemma delimited_white: "list_all json_space ws \<Longrightarrow> delimited s \<Longrightarrow> delimited (ws @ s)"
  by (cases ws) (auto simp: delimited_def json_space_def is_digit_def lower_byte_def)

lemma comma_sep_Cons: "tss \<noteq> [] \<Longrightarrow> comma_sep (ts # tss) = ts @ TComma # comma_sep tss"
  by (cases tss) auto

lemma Join_Cons: "es \<noteq> [] \<Longrightarrow> Join (e # es) sep = e @ sep @ Join es sep"
  by (cases es) auto

lemma spells_join:
  assumes "list_all2 spells es tss" and "es \<noteq> []" and white: "list_all json_space inner" and r: "delimited r"
  shows "tokenize (Join es (CHR '','' # inner) @ r) = prepend (comma_sep tss) (tokenize r)"
  using assms(1,2)
proof (induction es tss rule: list_all2_induct)
  case (Cons e es ts tss)
  have comma: "punct (CHR '','') = Some TComma" by (simp add: punct_def)
  show ?case
  proof (cases "es = []")
    case True
    with Cons r show ?thesis by (simp add: spells_def)
  next
    case False
    with Cons(3) have "tss \<noteq> []" "tokenize (Join es (CHR '','' # inner) @ r) = prepend (comma_sep tss) (tokenize r)"
      using Cons by auto
    moreover have "tokenize (e @ CHR '','' # x) = prepend (ts @ [TComma]) (tokenize x)" for x
      using Cons(1) delimited_mark [OF comma] tokenize_mark [OF comma] by (simp add: spells_def)
    ultimately show ?thesis using False by (simp add: Join_Cons comma_sep_Cons tokenize_white [OF white])
  qed
qed simp

lemma spells_bracket:
  assumes "list_all2 spells es tss" and "list_all json_space inner" and "list_all json_space outer"
    and l: "punct l = Some tk" and r: "punct r = Some tr"
  shows "spells (bracket l r inner outer es) (tk # comma_sep tss @ [tr])"
proof (cases "es = []")
  case True
  with assms(1) show ?thesis
    by (simp add: spells_def bracket_def tokenize_mark [OF l] tokenize_mark [OF r])
next
  case False
  have "tokenize (bracket l r inner outer es @ x) = prepend (tk # comma_sep tss @ [tr]) (tokenize x)" for x
    using spells_join [OF assms(1) False assms(2) delimited_white [OF assms(3) delimited_mark [OF r]], of x] False
    by (simp add: bracket_def tokenize_mark [OF l] tokenize_mark [OF r] tokenize_white assms)
  then show ?thesis by (simp add: spells_def)
qed

lemma spells_string: "quotes q \<Longrightarrow> valid_utf8 s \<Longrightarrow> tokenize (q s @ x) = prepend [TStr s] (tokenize x)"
proof -
  assume "quotes q" "valid_utf8 s"
  then obtain e where e: "q s = CHR 0x22 # e" "\<And>r. lex_string (e @ r) = Some (s, r)" by (auto simp: quotes_def)
  have "tokenize (CHR 0x22 # e @ x) = prepend [TStr s] (tokenize x)"
    by (rule tokenize_one) (simp_all add: next_token_def punct_def e(2) json_space_def)
  then show ?thesis by (simp add: e(1))
qed

lemma spells_number: "number_ok v \<Longrightarrow> spells v [TNum v]"
proof -
  assume v: "number_ok v"
  then obtain c t where ct: "v = c # t" by (auto simp: number_ok_def neq_Nil_conv)
  have c: "punct c = None" "c \<noteq> CHR 0x22" "\<not> json_space c" "c = CHR ''-'' \<or> is_digit c"
    using v ct by (auto simp: number_ok_def punct_def is_digit_def json_space_def)
  have "tokenize (c # t @ r) = prepend [TNum v] (tokenize r)" if "delimited r" for r
    by (rule tokenize_one) (use v ct c that in \<open>simp_all add: number_ok_def next_token_def\<close>)
  then show ?thesis using ct by (simp add: spells_def)
qed

lemma spells_word:
  "spells ''null'' [TNull]" "spells ''true'' [TTrue]" "spells ''false'' [TFalse]"
proof -
  have "tokenize (''null'' @ r) = prepend [TNull] (tokenize r)" "tokenize (''true'' @ r) = prepend [TTrue] (tokenize r)"
    "tokenize (''false'' @ r) = prepend [TFalse] (tokenize r)" for r
    unfolding append_Cons append_Nil
    by (rule tokenize_one; simp add: next_token_def punct_def is_digit_def keyword_def HasPrefix_def json_space_def)+
  then show "spells ''null'' [TNull]" "spells ''true'' [TTrue]" "spells ''false'' [TFalse]"
    by (simp_all only: spells_def simp_thms)
qed

lemma layout_all_map:
  assumes "\<And>v. v \<in> set vs \<Longrightarrow> \<exists>x. f v = Inr x \<and> P x (g v)"
  shows "\<exists>es. res_all (map f vs) = Inr es \<and> list_all2 P es (map g vs)"
  using assms
proof (induction vs)
  case (Cons v vs)
  then obtain x es where "f v = Inr x" "P x (g v)" "res_all (map f vs) = Inr es" "list_all2 P es (map g vs)"
    by (metis list.set_intros)
  then show ?case by simp
qed simp

lemma layout_spells:
  assumes "quotes q" and "\<And>d. list_all json_space (nl d)" and "list_all json_space gap"
  shows "json_ok j \<Longrightarrow> \<exists>x. layout q nl gap d j = Inr x \<and> spells x (jtokens j)"
proof (induction j arbitrary: d)
  case (JStr s)
  then show ?case using spells_string [OF assms(1)] by (simp add: spells_def)
next
  case (JArr vs)
  obtain es where "res_all (map (layout q nl gap (Suc d)) vs) = Inr es" "list_all2 spells es (map jtokens vs)"
    using layout_all_map [of vs "layout q nl gap (Suc d)" spells jtokens] JArr by (auto simp: list_all_iff)
  moreover have "punct (CHR ''['') = Some TLBrack" "punct (CHR '']'') = Some TRBrack" by (simp_all add: punct_def)
  ultimately show ?case using spells_bracket assms(2) by auto
next
  case (JObj ms)
  let ?f = "\<lambda>(k, v). rbind (layout q nl gap (Suc d) v) (\<lambda>e. Inr (q k @ CHR '':'' # gap @ e))"
  let ?g = "\<lambda>(k, v). TStr k # TColon # jtokens v"
  have colon: "punct (CHR '':'') = Some TColon" by (simp add: punct_def)
  have "\<exists>x. ?f m = Inr x \<and> spells x (?g m)" if m: "m \<in> set ms" for m
  proof -
    obtain k v where kv: "m = (k, v)" by (cases m)
    with m JObj(2) have "valid_utf8 k" "json_ok v" by (auto simp: list_all_iff)
    moreover have "\<exists>x. layout q nl gap (Suc d) v = Inr x \<and> spells x (jtokens v)"
      using JObj(1) m kv \<open>json_ok v\<close> by fastforce
    ultimately show ?thesis
      by (auto simp: kv spells_def spells_string [OF assms(1)] tokenize_mark [OF colon] tokenize_white assms(3))
  qed
  from layout_all_map [of ms ?f spells ?g, OF this] obtain es where "res_all (map ?f ms) = Inr es" "list_all2 spells es (map ?g ms)" by blast
  moreover have "punct (CHR ''{'') = Some TLBrace" "punct (CHR ''}'') = Some TRBrace" by (simp_all add: punct_def)
  ultimately show ?case using spells_bracket assms(2) by auto
qed (auto simp: spells_number spells_word)

text \<open>The parser on the tokens of a value.\<close>

lemma jparse_elems:
  assumes "\<And>v ts st e. v \<in> set vs \<Longrightarrow> length st < n \<Longrightarrow> e \<in> {EValue, EValueOrEnd} \<Longrightarrow>
      jparse (jtokens v @ ts) st e = jparse ts st (EDone v)"
    and "vs \<noteq> []" and "length st + 1 < n" and "e \<in> {EValue, EValueOrEnd}"
  shows "jparse (comma_sep (map jtokens vs) @ TRBrack # ts) (FArr us # st) e = jparse ts st (EDone (JArr (us @ vs)))"
  using assms
proof (induction vs arbitrary: us e)
  case (Cons v vs)
  show ?case
  proof (cases "vs = []")
    case True
    with Cons.prems(1) [of v "FArr us # st" e "TRBrack # ts"] Cons.prems(3,4) show ?thesis by simp
  next
    case False
    have "jparse (comma_sep (map jtokens vs) @ TRBrack # ts) (FArr (us @ [v]) # st) EValue
        = jparse ts st (EDone (JArr ((us @ [v]) @ vs)))"
      by (rule Cons.IH) (use Cons.prems False in auto)
    with Cons.prems(1) [of v "FArr us # st" e] Cons.prems(3,4) False show ?thesis
      by (simp add: comma_sep_Cons)
  qed
qed simp

lemma jparse_members:
  assumes "\<And>k v ts st e. (k, v) \<in> set ms \<Longrightarrow> length st < n \<Longrightarrow>
      jparse (jtokens v @ ts) st EValue = jparse ts st (EDone v)"
    and "ms \<noteq> []" and "length st + 1 < n" and "e = EKey us \<or> us = [] \<and> e = EKeyOrEnd"
  shows "jparse (comma_sep (map (\<lambda>(k, v). TStr k # TColon # jtokens v) ms) @ TRBrace # ts) st e
    = jparse ts st (EDone (JObj (us @ ms)))"
  using assms
proof (induction ms arbitrary: us e)
  case (Cons m ms)
  obtain k v where m: "m = (k, v)" by (cases m)
  have key: "jparse (TStr k # TColon # x) st e = jparse x (FObj us k # st) EValue" for x
    using Cons.prems(4) by auto
  show ?case
  proof (cases "ms = []")
    case True
    with Cons.prems(1) [of k v "FObj us k # st" "TRBrace # ts"] Cons.prems(3) m key show ?thesis by simp
  next
    case False
    have "jparse (comma_sep (map (\<lambda>(k, v). TStr k # TColon # jtokens v) ms) @ TRBrace # ts) st (EKey (us @ [(k, v)]))
        = jparse ts st (EDone (JObj ((us @ [(k, v)]) @ ms)))"
      by (rule Cons.IH) (use Cons.prems False in auto)
    with Cons.prems(1) [of k v "FObj us k # st"] Cons.prems(3) False m key show ?thesis
      by (simp add: comma_sep_Cons)
  qed
qed simp

lemma jparse_tokens:
  assumes "json_ok j" and "shallow n j" and "length st + n < max_depth" and "e \<in> {EValue, EValueOrEnd}"
  shows "jparse (jtokens j @ ts) st e = jparse ts st (EDone j)"
  using assms
proof (induction j arbitrary: n ts st e)
  case (JArr vs)
  then obtain m where n: "n = Suc m" by (cases n) auto
  have elem: "jparse (jtokens v @ ts) st' e' = jparse ts st' (EDone v)"
    if "v \<in> set vs" "length st' < max_depth - m" "e' \<in> {EValue, EValueOrEnd}" for v ts st' e'
    using JArr.IH [OF that(1), of m st' e' ts] JArr.prems that n by (auto simp: list_all_iff)
  show ?case
  proof (cases "vs = []")
    case True
    then show ?thesis using JArr.prems(3,4) by auto
  next
    case False
    have "jparse (comma_sep (map jtokens vs) @ TRBrack # ts) (FArr [] # st) EValueOrEnd = jparse ts st (EDone (JArr vs))"
      using jparse_elems [of vs "max_depth - m" st EValueOrEnd ts "[]", OF elem False] JArr.prems(3) n by simp
    then show ?thesis using JArr.prems(3,4) by auto
  qed
next
  case (JObj ms)
  then obtain m where n: "n = Suc m" by (cases n) auto
  have elem: "jparse (jtokens v @ ts) st' EValue = jparse ts st' (EDone v)"
    if "(k, v) \<in> set ms" "length st' < max_depth - m" for k v ts st'
  proof -
    have "json_ok v" "shallow m v" using JObj.prems(1,2) that(1) n by (fastforce simp: list_all_iff)+
    with JObj.IH [OF that(1), of v m st' EValue ts] that(2) show ?thesis by auto
  qed
  show ?case
  proof (cases "ms = []")
    case True
    then show ?thesis using JObj.prems(3,4) by auto
  next
    case False
    have "jparse (comma_sep (map (\<lambda>(k, v). TStr k # TColon # jtokens v) ms) @ TRBrace # ts) st EKeyOrEnd
        = jparse ts st (EDone (JObj ms))"
      using jparse_members [of ms "max_depth - m" st EKeyOrEnd "[]" ts] elem False JObj.prems(3) n by auto
    then show ?thesis using JObj.prems(3,4) by auto
  qed
qed auto

lemma delimited_space: "list_all json_space ws \<Longrightarrow> delimited ws"
  using delimited_white [of ws "[]"] by (simp add: delimited_def)

text \<open>Whatever either writer produces for a well-formed value is read back as that value.\<close>

lemma layout_roundtrip:
  assumes "quotes q" and "\<And>d. list_all json_space (nl d)" and "list_all json_space gap"
    and "json_ok j" and "shallow 100 j" and "list_all json_space ws"
  shows "\<exists>x. layout q nl gap d j = Inr x \<and> json_decode (x @ ws) = Some j"
proof -
  obtain x where x: "layout q nl gap d j = Inr x" "spells x (jtokens j)"
    using layout_spells [of q nl gap j d] assms(1-4) by blast
  have "tokenize ws = Some []" using tokenize_white [OF assms(6), of "[]"] tokenize_end(2) by simp
  with x(2) delimited_space [OF assms(6)] have "tokenize (x @ ws) = Some (jtokens j)"
    by (simp add: spells_def prepend_def)
  moreover have "jparse (jtokens j) [] EValue = Some (j, [])"
    using jparse_tokens [OF assms(4,5), of "[]" EValue "[]"] by (simp add: max_depth_def)
  ultimately show ?thesis using x(1) by (simp add: json_decode_def)
qed

lemma marshal_roundtrip:
  "json_ok j \<Longrightarrow> shallow 100 j \<Longrightarrow> list_all json_space ws \<Longrightarrow> \<exists>x. json_marshal j = Inr x \<and> json_decode (x @ ws) = Some j"
  unfolding json_marshal_def by (rule layout_roundtrip [OF quotes_html_quote]) simp_all

lemma marshal_indent_roundtrip:
  "json_ok j \<Longrightarrow> shallow 100 j \<Longrightarrow> \<exists>x. json_marshal_indent j = Inr x \<and> json_decode x = Some j"
  using layout_roundtrip [OF quotes_html_quote, of "\<lambda>d. CHR 0x0A # replicate (2 * d) (CHR '' '')" "'' ''" j "[]" 0]
  unfolding json_marshal_indent_def by (simp add: json_space_def list_all_iff)

lemma bracket_compact: "bracket l r [] [] es = l # Join es '','' @ [r]"
  by (simp add: bracket_def)

lemma res_all_cong: "(\<And>v. v \<in> set vs \<Longrightarrow> f v = g v) \<Longrightarrow> res_all (map f vs) = res_all (map g vs)"
  by (induction vs) auto

lemma json_encode_layout: "json_encode j = layout quote (\<lambda>_. []) [] d j"
proof (induction j arbitrary: d)
  case (JArr vs)
  then show ?case
    using res_all_cong [of vs json_encode "layout quote (\<lambda>_. []) [] (Suc d)"] by (simp add: bracket_compact)
next
  case (JObj ms)
  let ?f = "\<lambda>e (k, v). rbind (e v) (\<lambda>t. Inr (quote k @ '':'' @ t))"
  have "?f json_encode m = ?f (layout quote (\<lambda>_. []) [] (Suc d)) m" if "m \<in> set ms" for m
    using JObj [of m "snd m" "Suc d"] that by (cases m) auto
  then show ?case
    using res_all_cong [of ms "?f json_encode" "?f (layout quote (\<lambda>_. []) [] (Suc d))"] by (simp add: bracket_compact)
qed simp_all

text \<open>The encoder that does not escape HTML, which writes the responses.\<close>

lemma encode_roundtrip:
  "json_ok j \<Longrightarrow> shallow 100 j \<Longrightarrow> list_all json_space ws \<Longrightarrow> \<exists>x. json_encode j = Inr x \<and> json_decode (x @ ws) = Some j"
  unfolding json_encode_layout [of j 0] by (rule layout_roundtrip [OF quotes_quote]) simp_all

end
