(* ===== verification/WinPaths.thy ===== *)
theory WinPaths
  imports Paths
begin

text \<open>
  \<open>path/filepath\<close> on Windows (Go 1.22): volume names, cleaning, joining, the directory of a path
  and absolute paths; and the choice between these rules and those of Unix by \<open>runtime.GOOS\<close>.
  Cleaning follows the documentation: the components are those of the Unix rules with both
  separators, and a relative path is never turned into one with a volume name.

  Shown here: names without separators that are joined to a path with a volume name stay below
  it, so that the place of every file of the program follows from the directory of the service.
\<close>

abbreviation backslash :: char where "backslash \<equiv> CHR 0x5C"

definition IsPathSeparator :: "char \<Rightarrow> bool" where
  "IsPathSeparator c = (c = backslash \<or> c = slash)"

definition FromSlash :: "bytes \<Rightarrow> bytes" where
  "FromSlash p = ReplaceByte p slash backslash"

text \<open>Parts between separators of either kind.\<close>

definition win_parts :: "bytes \<Rightarrow> bytes list" where
  "win_parts p = Split (ReplaceByte p backslash slash) slash"

subsection \<open>Volume names\<close>

definition ascii_upper :: "char \<Rightarrow> char" where
  "ascii_upper c = (if 97 \<le> byte c \<and> byte c \<le> 122 then char_of (byte c - 32) else c)"

definition pathHasPrefixFold :: "bytes \<Rightarrow> bytes \<Rightarrow> bool" where
  "pathHasPrefixFold s prefix =
     (length prefix \<le> length s \<and>
      list_all2 (\<lambda>p c. if IsPathSeparator p then IsPathSeparator c else ascii_upper p = ascii_upper c) prefix
        (take (length prefix) s) \<and>
      (length prefix < length s \<longrightarrow> IsPathSeparator (s ! length prefix)))"

text \<open>The end of the second component from a position on.\<close>

definition uncLen :: "bytes \<Rightarrow> nat \<Rightarrow> nat" where
  "uncLen path prefixLen =
     (let host = takeWhile (\<lambda>c. \<not> IsPathSeparator c) (drop prefixLen path);
          i = prefixLen + length host;
          share = takeWhile (\<lambda>c. \<not> IsPathSeparator c) (drop (i + 1) path)
      in if length path \<le> i then length path else min (length path) (i + 1 + length share))"

definition volumeNameLen :: "bytes \<Rightarrow> nat" where
  "volumeNameLen path =
     (if 2 \<le> length path \<and> path ! 1 = CHR '':'' then 2
      else if path = [] \<or> \<not> IsPathSeparator (path ! 0) then 0
      else if pathHasPrefixFold path ([backslash, backslash, CHR ''.'', backslash] @ ''UNC'') then uncLen path 8
      else if pathHasPrefixFold path [backslash, backslash, CHR ''.''] \<or>
              pathHasPrefixFold path [backslash, backslash, CHR 0x3F] \<or>
              pathHasPrefixFold path [backslash, CHR 0x3F, CHR 0x3F] then
        (if length path = 3 then 3
         else min (length path) (4 + length (takeWhile (\<lambda>c. \<not> IsPathSeparator c) (drop 4 path))))
      else if 2 \<le> length path \<and> IsPathSeparator (path ! 1) then uncLen path 2
      else 0)"

subsection \<open>Operations\<close>

definition win_text :: "bool \<Rightarrow> bytes list \<Rightarrow> bytes" where
  "win_text rooted cs =
     (let body = (if rooted then [backslash] else []) @ Join cs [backslash]
      in if body = [] then ''.'' else body)"

text \<open>What cleaning does to a path without volume name that would otherwise begin with one.\<close>

definition post_clean :: "bytes \<Rightarrow> bytes" where
  "post_clean p =
     (if CHR '':'' \<in> set (takeWhile (\<lambda>c. \<not> IsPathSeparator c) p) then [CHR ''.'', backslash] @ p
      else if HasPrefix p [backslash, CHR 0x3F, CHR 0x3F] then [backslash, CHR ''.''] @ p
      else p)"

definition winClean :: "bytes \<Rightarrow> bytes" where
  "winClean path =
     (let vol = volumeNameLen path; rest = drop vol path in
      if rest = [] then
        (if 1 < vol \<and> IsPathSeparator (path ! 0) \<and> IsPathSeparator (path ! 1) then FromSlash path else path @ ''.'')
      else
        (let rooted = IsPathSeparator (hd rest);
             body = win_text rooted (clean_step rooted [] (win_parts rest))
         in FromSlash (take vol path) @
            (if vol = 0 \<and> \<not> HasPrefix rest body then post_clean body else body)))"

text \<open>\<open>filepath.Join\<close>: the text built so far, and the next element.\<close>

definition win_append :: "bytes \<Rightarrow> bytes \<Rightarrow> bytes" where
  "win_append b e =
     (if b = [] then e
      else if IsPathSeparator (last b) then
        (let e' = dropWhile IsPathSeparator e in
         b @ (if length b = 1 \<and> HasPrefix e' [CHR 0x3F, CHR 0x3F] \<and> (length e' = 2 \<or> IsPathSeparator (e' ! 2))
              then [CHR ''.'', backslash] else []) @ e')
      else if last b = CHR '':'' then b @ e
      else b @ backslash # e)"

definition winJoin :: "bytes list \<Rightarrow> bytes" where
  "winJoin es = (let b = foldl win_append [] es in if b = [] then [] else winClean b)"

definition winIsAbs :: "bytes \<Rightarrow> bool" where
  "winIsAbs path =
     (let l = volumeNameLen path in
      if l = 0 then False
      else if IsPathSeparator (path ! 0) \<and> IsPathSeparator (path ! 1) then True
      else drop l path \<noteq> [] \<and> IsPathSeparator (path ! l))"

definition winDir :: "bytes \<Rightarrow> bytes" where
  "winDir path =
     (let l = volumeNameLen path; vol = FromSlash (take l path);
          dir = winClean (rev (dropWhile (\<lambda>c. \<not> IsPathSeparator c) (rev (drop l path))))
      in if dir = ''.'' \<and> 2 < l then vol else vol @ dir)"

subsection \<open>The operating system decides\<close>

definition osJoin :: "bytes \<Rightarrow> bytes list \<Rightarrow> bytes" where
  "osJoin goos es = (if goos = ''windows'' then winJoin es else JoinPath es)"

definition osIsAbs :: "bytes \<Rightarrow> bytes \<Rightarrow> bool" where
  "osIsAbs goos p = (if goos = ''windows'' then winIsAbs p else IsAbs p)"

definition osDir :: "bytes \<Rightarrow> bytes \<Rightarrow> bytes" where
  "osDir goos p = (if goos = ''windows'' then winDir p else Dir p)"

lemma os_unix [simp]:
  "goos \<noteq> ''windows'' \<Longrightarrow> osJoin goos = JoinPath" "goos \<noteq> ''windows'' \<Longrightarrow> osIsAbs goos = IsAbs" "goos \<noteq> ''windows'' \<Longrightarrow> osDir goos = Dir"
  by (auto simp: osJoin_def osIsAbs_def osDir_def fun_eq_iff)

text \<open>The directory under which Windows keeps the data of a service.\<close>

definition programData :: "bytes \<Rightarrow> bytes" where
  "programData dataDir =
     (if dataDir = [] then ''C:'' @ backslash # ''ProgramData'' else dataDir)"

subsection \<open>Paths on a drive\<close>

definition plain_name :: "bytes \<Rightarrow> bool" where
  "plain_name n = (n \<noteq> [] \<and> n \<noteq> ''.'' \<and> n \<noteq> ''..'' \<and> list_all (\<lambda>c. \<not> IsPathSeparator c \<and> c \<noteq> CHR '':'') n)"

definition drive_path :: "char \<Rightarrow> bytes list \<Rightarrow> bytes" where
  "drive_path d cs = d # CHR '':'' # backslash # Join cs [backslash]"

lemma plain_Join_snoc: "cs \<noteq> [] \<Longrightarrow> Join cs sep @ sep @ n = Join (cs @ [n]) sep"
proof (induction cs sep rule: Join.induct)
  case (3 p q ps sep)
  then show ?case by (cases ps) simp_all
qed simp_all

lemma FromSlash_plain: "slash \<notin> set s \<Longrightarrow> FromSlash s = s"
  by (auto simp: FromSlash_def ReplaceByte_def intro: map_idI)

lemma Join_chars: "c \<in> set (Join cs sep) \<Longrightarrow> c \<in> set sep \<or> (\<exists>p \<in> set cs. c \<in> set p)"
  by (induction cs sep rule: Join.induct) auto

lemma ReplaceByte_append [simp]: "ReplaceByte (s @ t) a b = ReplaceByte s a b @ ReplaceByte t a b"
  by (simp add: ReplaceByte_def)

lemma ReplaceByte_none: "a \<notin> set s \<Longrightarrow> ReplaceByte s a b = s"
  by (auto simp: ReplaceByte_def intro: map_idI)

lemma plain_chars: "plain_name n \<Longrightarrow> backslash \<notin> set n \<and> slash \<notin> set n"
  by (auto simp: plain_name_def IsPathSeparator_def list_all_iff)

lemma Join_replace: "list_all plain_name cs \<Longrightarrow> ReplaceByte (Join cs [backslash]) backslash slash = Join cs [slash]"
proof (induction cs "[backslash]" rule: Join.induct)
  case (3 p q ps)
  then show ?case using plain_chars [of p] by (simp add: ReplaceByte_none) (simp add: ReplaceByte_def)
qed (auto simp: ReplaceByte_none ReplaceByte_def dest!: plain_chars intro: map_idI)

lemma plain_comp_ok: "plain_name n \<Longrightarrow> comp_ok n \<and> n \<noteq> ''..''"
  by (auto simp: plain_name_def comp_ok_def IsPathSeparator_def list_all_iff)

lemma drive_parts:
  assumes "list_all plain_name cs" and "cs \<noteq> []"
  shows "win_parts (backslash # Join cs [backslash]) = [] # cs"
proof -
  have "\<forall>p \<in> set cs. slash \<notin> set p" using assms(1) plain_chars by (auto simp: list_all_iff)
  then have "Split (Join cs [slash]) slash = cs" using assms(2) by (simp add: Split_Join)
  moreover have "ReplaceByte (backslash # x) backslash slash = slash # ReplaceByte x backslash slash" for x
    by (simp add: ReplaceByte_def)
  ultimately show ?thesis using assms(1) by (simp add: win_parts_def Join_replace)
qed

lemma drive_volume [simp]: "volumeNameLen (drive_path d cs) = 2"
  by (simp add: volumeNameLen_def drive_path_def)

lemma winClean_drive:
  assumes "list_all plain_name cs" and "cs \<noteq> []" and "d \<noteq> slash"
  shows "winClean (drive_path d cs) = drive_path d cs"
proof -
  have "clean_step True [] ([] # cs) = cs"
    using clean_step_plain [of cs True "[]"] assms(1) plain_comp_ok by (simp add: list_all_iff)
  moreover have "drop 2 (drive_path d cs) = backslash # Join cs [backslash]" "take 2 (drive_path d cs) = [d, CHR '':'']"
    by (simp_all add: drive_path_def)
  moreover have "FromSlash [d, CHR '':''] = [d, CHR '':'']" using assms(3) by (simp add: FromSlash_plain)
  moreover have "IsPathSeparator backslash" by (simp add: IsPathSeparator_def)
  ultimately show ?thesis
    using drive_parts [OF assms(1,2)] by (simp add: winClean_def Let_def win_text_def) (simp add: drive_path_def)
qed

lemma last_Join: "cs \<noteq> [] \<Longrightarrow> last cs \<noteq> [] \<Longrightarrow> Join cs sep \<noteq> [] \<and> last (Join cs sep) = last (last cs)"
  by (induction cs sep rule: Join.induct) auto

lemma drive_append:
  assumes "list_all plain_name cs" and "cs \<noteq> []"
  shows "win_append (drive_path d cs) n = drive_path d (cs @ [n])"
proof -
  have "plain_name (last cs)" using assms by (simp add: list_all_iff)
  then have "last cs \<noteq> []" "\<not> IsPathSeparator (last (last cs))" "last (last cs) \<noteq> CHR '':''"
    by (auto simp: plain_name_def list_all_iff)
  moreover from last_Join [OF assms(2) this(1), of "[backslash]"]
  have "last (drive_path d cs) = last (last cs)" by (simp add: drive_path_def)
  ultimately show ?thesis
    using plain_Join_snoc [OF assms(2), of "[backslash]" n] by (simp add: win_append_def) (simp add: drive_path_def)
qed

lemma drive_appends:
  "list_all plain_name (cs @ ns) \<Longrightarrow> cs \<noteq> [] \<Longrightarrow> foldl win_append (drive_path d cs) ns = drive_path d (cs @ ns)"
  by (induction ns arbitrary: cs) (simp_all add: drive_append)

text \<open>Joining plain names to a path on a drive goes down from it.\<close>

lemma winJoin_drive:
  assumes "list_all plain_name (cs @ ns)" and "cs \<noteq> []" and "d \<noteq> slash"
  shows "winJoin (drive_path d cs # ns) = drive_path d (cs @ ns)"
proof -
  have "drive_path d cs \<noteq> []" "drive_path d (cs @ ns) \<noteq> []" by (simp_all add: drive_path_def)
  with drive_appends [OF assms(1,2), of d] winClean_drive [OF assms(1) _ assms(3)] assms(2) show ?thesis
    by (simp add: winJoin_def win_append_def)
qed

lemma winIsAbs_drive [simp]: "winIsAbs (drive_path d cs)"
  by (simp add: winIsAbs_def drive_volume [unfolded drive_path_def] drive_path_def IsPathSeparator_def)

lemma programData_default: "programData [] = drive_path (CHR ''C'') [''ProgramData'']"
  by (simp add: programData_def drive_path_def)

end
