(* ===== verification/FetchStatus.thy ===== *)
theory FetchStatus
  imports Execute GoTime JsonText WinPaths
begin

text \<open>
  The canary service (\<open>fetch_status_service.go\<close>) with the diagnostics it records
  (\<open>diagnostic_service.go\<close>): a decoy key file whose content is checked against a fixed digest;
  a change latches the service into the triggered state and writes the panic state file, which
  every hardware command consults.

  The state holds the service struct, the contents of the panic state file and the diagnostic
  log with its counter.  An \<open>io\<close> record says which file operations succeed.

  Shown here: the service never returns from the triggered state, any content other than the
  baseline triggers it, and a trigger whose file operations succeed makes panic mode active.
\<close>

subsection \<open>Diagnostics\<close>

definition sanitizeDiagnostic :: "bytes \<Rightarrow> bytes" where
  "sanitizeDiagnostic v0 =
     (let v = ReplaceByte (ReplaceByte v0 (CHR 0x0D) (CHR '' '')) (CHR 0x0A) (CHR '' '') in
      if length v > 512 then take 512 v else v)"

record diagnostics =
  dgEvents :: "64 word"
  dgLog :: "bytes list"

text \<open>\<open>appendOk\<close>: the log directory, the open and the write succeed.\<close>

definition appendCrashRecord :: "bool \<Rightarrow> int \<Rightarrow> bytes \<Rightarrow> bytes \<Rightarrow> bytes list \<Rightarrow> bytes list" where
  "appendCrashRecord appendOk now path event lines =
     (if TrimSpace path = [] then lines
      else case json_marshal (JObj [(''event'', JStr (sanitizeDiagnostic event)),
                                    (''timestamp'', JStr (rfc3339nano now))]) of
             Inl _ \<Rightarrow> lines
           | Inr data \<Rightarrow> if appendOk then lines @ [data @ [newline]] else lines)"

definition recordSecurityDiagnostic ::
  "bool \<Rightarrow> int \<Rightarrow> bytes \<Rightarrow> bytes \<Rightarrow> bytes \<Rightarrow> diagnostics \<Rightarrow> diagnostics" where
  "recordSecurityDiagnostic appendOk now path event detail d =
     \<lparr>dgEvents = dgEvents d + 1,
      dgLog = appendCrashRecord appendOk now path
        (sanitizeDiagnostic event @ '': '' @ sanitizeDiagnostic detail) (dgLog d)\<rparr>"

subsection \<open>The service\<close>

definition decoyContent :: bytes where
  "decoyContent = ''0526be8dc7adb18bc4e82119046c9a9fc8625571311060208a8d0744d71ff671'' @ [newline]"

definition decoyExpectedDigest :: bytes where
  "decoyExpectedDigest = ''16a35fb29082f6c54d534ec8b09a60f8e445b17548f15f2d068db23868613365''"

definition decoyDirectory :: "(bytes \<Rightarrow> bytes) \<Rightarrow> bytes \<Rightarrow> bytes" where
  "decoyDirectory getenv goos =
     (let v = TrimSpace (getenv ''HWCONTROL_DECOY_DIR'') in
      if v \<noteq> [] then v
      else if goos = ''windows'' then winJoin [programData (getenv ''ProgramData''), ''HWControl'', ''security'']
      else if goos = ''darwin''
      then JoinPath [''/Library'', ''Application Support'', ''HWControl'', ''security'']
      else ''/var/lib/hwcontrol/security'')"

definition panicStatePath :: "(bytes \<Rightarrow> bytes) \<Rightarrow> bytes \<Rightarrow> bytes" where
  "panicStatePath getenv goos =
     (let v = TrimSpace (getenv ''HWCONTROL_PANIC_FILE'') in
      if v \<noteq> [] then v else osJoin goos [decoyDirectory getenv goos, ''state'', ''panic-mode.json''])"

definition decoyPath :: "(bytes \<Rightarrow> bytes) \<Rightarrow> bytes \<Rightarrow> bytes" where
  "decoyPath getenv goos = osJoin goos [decoyDirectory getenv goos, ''canary'', ''bridger.key'']"

record fetchStatusService =
  fsPath :: bytes
  fsBaseline :: bytes
  fsHealthy :: bool
  fsTriggered :: bool
  fsLastReason :: bytes

datatype lstat = LMissing | LError bytes | LRegular | LSymlink | LOther

text \<open>The file operations of start-up: directory creation, the state of the decoy file, the
  bootstrap variable, the write of the decoy, and the read that follows.\<close>

record decoy_io =
  dioMkdir :: gerr
  dioLstat :: lstat
  dioBootstrap :: bytes
  dioWrite :: gerr
  dioRead :: "bytes res"

text \<open>The result says whether the decoy was written.\<close>

definition ensureDecoyFile :: "decoy_io \<Rightarrow> gerr \<times> bool" where
  "ensureDecoyFile dio =
     (case dioMkdir dio of
        Some e \<Rightarrow> (Err e, False)
      | None \<Rightarrow>
          (case dioLstat dio of
             LRegular \<Rightarrow> (nil, False)
           | LSymlink \<Rightarrow> (Err ''decoy is not a regular file'', False)
           | LOther \<Rightarrow> (Err ''decoy is not a regular file'', False)
           | LError e \<Rightarrow> (Err e, False)
           | LMissing \<Rightarrow>
               if TrimSpace (dioBootstrap dio) \<noteq> ''1''
               then (Err ''decoy canary is missing; installation integrity is not trusted'', False)
               else (dioWrite dio, True)))"

definition decoyDigest :: "bytes res \<Rightarrow> bytes res" where
  "decoyDigest contents = rbind contents (\<lambda>d. Inr (hex_EncodeToString (sha256 d)))"

definition initializeDecoyService :: "decoy_io \<Rightarrow> bytes \<Rightarrow> fetchStatusService \<Rightarrow> gerr \<times> fetchStatusService" where
  "initializeDecoyService dio path s =
     (case fst (ensureDecoyFile dio) of
        Some e \<Rightarrow> (Err e, s)
      | None \<Rightarrow>
          (case decoyDigest (dioRead dio) of
             Inl e \<Rightarrow> (Err e, s)
           | Inr d \<Rightarrow>
               if d \<noteq> decoyExpectedDigest then (Err ''decoy canary baseline mismatch'', s)
               else (nil, s\<lparr>fsPath := path, fsBaseline := decoyExpectedDigest, fsHealthy := True\<rparr>)))"

record sec_state =
  ssDecoy :: fetchStatusService
  ssPanicFile :: "bytes option"
  ssDiag :: diagnostics

record trigger_io =
  tioWrite :: bool
  tioRename :: bool
  tioNow :: int
  tioAppend :: bool
  tioDiagPath :: bytes

text \<open>The panic state document, which the guardian process writes too, and the one of the canary.\<close>

definition panic_doc :: "bytes \<Rightarrow> bytes \<Rightarrow> int \<Rightarrow> json" where
  "panic_doc reason source now = JObj
     [(''panic'', JBool True), (''reason'', JStr reason),
      (''source'', JStr source), (''timestamp'', JStr (rfc3339nano now))]"

definition panic_json :: "bytes \<Rightarrow> int \<Rightarrow> json" where
  "panic_json reason now = panic_doc (sanitizeDiagnostic reason) ''fetch-status-canary'' now"

definition triggerPanicModeLocked :: "trigger_io \<Rightarrow> bytes \<Rightarrow> sec_state \<Rightarrow> sec_state" where
  "triggerPanicModeLocked io reason st =
     (case json_marshal (panic_json reason (tioNow io)) of
        Inl _ \<Rightarrow> st
      | Inr data \<Rightarrow>
          (let st1 = (if tioWrite io \<and> tioRename io then st\<lparr>ssPanicFile := Some (data @ [newline])\<rparr> else st)
           in st1\<lparr>ssDiag := recordSecurityDiagnostic (tioAppend io) (tioNow io) (tioDiagPath io)
                     ''canary-triggered'' reason (ssDiag st1)\<rparr>))"

definition trip :: "trigger_io \<Rightarrow> bytes \<Rightarrow> sec_state \<Rightarrow> sec_state" where
  "trip io reason st =
     triggerPanicModeLocked io reason
       (st\<lparr>ssDecoy := (ssDecoy st)\<lparr>fsTriggered := True, fsHealthy := False, fsLastReason := reason\<rparr>\<rparr>)"

text \<open>\<open>contents\<close> is what reading the decoy file returns.\<close>

definition checkDecoyIntegrity :: "trigger_io \<Rightarrow> bytes res \<Rightarrow> sec_state \<Rightarrow> sec_state" where
  "checkDecoyIntegrity io contents st =
     (if fsPath (ssDecoy st) = [] \<or> fsTriggered (ssDecoy st) then st
      else case decoyDigest contents of
             Inl _ \<Rightarrow> trip io ''decoy missing or unreadable'' st
           | Inr d \<Rightarrow>
               if d \<noteq> fsBaseline (ssDecoy st) then trip io ''bridger.key integrity changed'' st else st)"

definition clearPanicMode :: "bool \<Rightarrow> sec_state \<Rightarrow> sec_state" where
  "clearPanicMode removeOk st = (if removeOk then st\<lparr>ssPanicFile := None\<rparr> else st)"

definition fetchStatusSnapshot :: "sec_state \<Rightarrow> json" where
  "fetchStatusSnapshot st =
     (let s = ssDecoy st in JObj
       [(''canaryFile'', JStr (fsPath s)), (''canaryHealthy'', JBool (fsHealthy s)),
        (''lastReason'', JStr (fsLastReason s)), (''name'', JStr ''fetch-status''),
        (''panicMode'', JBool (panicModeActive (ssPanicFile st))),
        (''readAccessMonitoring'', JStr ''platform-audit-required''),
        (''triggered'', JBool (fsTriggered s))])"

subsection \<open>Laws\<close>

definition stamp_char :: "char \<Rightarrow> bool" where
  "stamp_char c = (is_digit c \<or> c \<in> set ''-T:.Z'')"

lemma stamp_pad: "list_all stamp_char (pad k n)"
  using digits_of_digits [of n] by (auto simp: pad_def stamp_char_def list_all_iff is_digit_def)

lemma stamp_rfc3339nano: "list_all stamp_char (rfc3339nano t)"
proof -
  have sub: "list_all stamp_char (dropWhile P (rev s))" if "list_all stamp_char s" for P s
    using that by (auto simp: list_all_iff dest: set_dropWhileD)
  have lits: "stamp_char (CHR ''-'')" "stamp_char (CHR ''T'')" "stamp_char (CHR '':'')"
    "stamp_char (CHR ''.'')" "stamp_char (CHR ''Z'')"
    by (simp_all add: stamp_char_def)
  show ?thesis
    unfolding rfc3339nano_def date_time_def Let_def
    by (simp add: stamp_pad sub lits split: prod.split)
qed

lemma rfc3339nano_valid: "valid_utf8 (rfc3339nano t)"
  using stamp_rfc3339nano [of t]
  by (intro valid_utf8_ascii) (auto simp: list_all_iff stamp_char_def is_digit_def)

text \<open>A written panic document is read as active panic mode.\<close>

lemma panic_doc_active:
  assumes "valid_utf8 reason" and "valid_utf8 source"
  shows "\<exists>doc. json_marshal (panic_doc reason source now) = Inr doc \<and> panicModeActive (Some (doc @ [newline]))"
proof -
  have names: "valid_utf8 ''panic''" "valid_utf8 ''reason''" "valid_utf8 ''source''" "valid_utf8 ''timestamp''"
    by (simp_all add: valid_utf8_ascii)
  have "json_ok (panic_doc reason source now)" "shallow 100 (panic_doc reason source now)"
    by (simp_all add: panic_doc_def assms names rfc3339nano_valid)
  then obtain doc where "json_marshal (panic_doc reason source now) = Inr doc"
      and "json_decode (doc @ [newline]) = Some (panic_doc reason source now)"
    using marshal_roundtrip [of "panic_doc reason source now" "[newline]"] by (auto simp: json_space_def)
  then show ?thesis by (simp add: panicModeActive_def panic_doc_def lower_byte_def elem_bool_def)
qed

definition reason_ok :: "bytes \<Rightarrow> bool" where
  "reason_ok r = valid_utf8 (sanitizeDiagnostic r)"

lemma panic_active:
  assumes "reason_ok r"
  shows "\<exists>doc. json_marshal (panic_json r now) = Inr doc \<and> panicModeActive (Some (doc @ [newline]))"
  using panic_doc_active assms by (simp add: panic_json_def reason_ok_def valid_utf8_ascii)

lemma decoy_reasons [simp]: "reason_ok ''decoy missing or unreadable''" "reason_ok ''bridger.key integrity changed''"
  by (simp_all add: reason_ok_def sanitizeDiagnostic_def ReplaceByte_def Let_def valid_utf8_ascii)

text \<open>What a trigger leaves behind.\<close>

lemma trip_state:
  assumes "reason_ok r"
  shows "fsTriggered (ssDecoy (trip io r st))" "\<not> fsHealthy (ssDecoy (trip io r st))"
    "fsPath (ssDecoy (trip io r st)) = fsPath (ssDecoy st)"
    "tioWrite io \<and> tioRename io \<Longrightarrow> panicModeActive (ssPanicFile (trip io r st))"
    "\<not> (tioWrite io \<and> tioRename io) \<Longrightarrow> ssPanicFile (trip io r st) = ssPanicFile st"
    "dgEvents (ssDiag (trip io r st)) = dgEvents (ssDiag st) + 1"
proof -
  obtain t where body: "json_marshal (panic_json r (tioNow io)) = Inr t" and active: "panicModeActive (Some (t @ [newline]))"
    using panic_active [OF assms] by blast
  show "fsTriggered (ssDecoy (trip io r st))" "\<not> fsHealthy (ssDecoy (trip io r st))"
    "fsPath (ssDecoy (trip io r st)) = fsPath (ssDecoy st)"
    "dgEvents (ssDiag (trip io r st)) = dgEvents (ssDiag st) + 1"
    "\<not> (tioWrite io \<and> tioRename io) \<Longrightarrow> ssPanicFile (trip io r st) = ssPanicFile st"
    by (auto simp: trip_def triggerPanicModeLocked_def body Let_def recordSecurityDiagnostic_def)
  show "tioWrite io \<and> tioRename io \<Longrightarrow> panicModeActive (ssPanicFile (trip io r st))"
    using active by (simp add: trip_def triggerPanicModeLocked_def body Let_def)
qed

lemma check_cases:
  "checkDecoyIntegrity io contents st = st \<or>
   (\<exists>r. reason_ok r \<and> checkDecoyIntegrity io contents st = trip io r st)"
proof -
  have "checkDecoyIntegrity io contents st \<in>
    {st, trip io ''decoy missing or unreadable'' st, trip io ''bridger.key integrity changed'' st}"
    by (simp add: checkDecoyIntegrity_def split: sum.split)
  with decoy_reasons show ?thesis by blast
qed

text \<open>The service state: a triggered service is unhealthy, and an armed one checks the fixed digest.\<close>

definition decoy_ok :: "fetchStatusService \<Rightarrow> bool" where
  "decoy_ok s = ((fsTriggered s \<longrightarrow> \<not> fsHealthy s) \<and> (fsPath s \<noteq> [] \<longrightarrow> fsBaseline s = decoyExpectedDigest))"

lemma trip_baseline: "fsBaseline (ssDecoy (trip io r st)) = fsBaseline (ssDecoy st)"
  by (auto simp: trip_def triggerPanicModeLocked_def Let_def split: sum.split)

lemma decoy_ok_check: "decoy_ok (ssDecoy st) \<Longrightarrow> decoy_ok (ssDecoy (checkDecoyIntegrity io contents st))"
  using check_cases [of io contents st] by (auto simp: decoy_ok_def trip_state trip_baseline)

lemma check_latched: "fsTriggered (ssDecoy st) \<Longrightarrow> checkDecoyIntegrity io contents st = st"
  by (simp add: checkDecoyIntegrity_def)

subsection \<open>Properties\<close>

text \<open>Tampering trips the panic mode: if the canary is armed and its file is unreadable or has any digest other
  than the fixed one, one check triggers the service, marks it unhealthy, counts a security event, and, if the
  state file could be written, leaves panic mode active.\<close>

theorem tampering_triggers_panic:
  fixes io
  assumes "decoy_ok (ssDecoy st)" and "fsPath (ssDecoy st) \<noteq> []" and "\<not> fsTriggered (ssDecoy st)"
    and "decoyDigest contents \<noteq> Inr decoyExpectedDigest"
  defines "st' \<equiv> checkDecoyIntegrity io contents st"
  shows "fsTriggered (ssDecoy st') \<and> \<not> fsHealthy (ssDecoy st') \<and> dgEvents (ssDiag st') = dgEvents (ssDiag st) + 1 \<and>
    (tioWrite io \<and> tioRename io \<longrightarrow> panicModeActive (ssPanicFile st'))"
proof -
  have "\<exists>r. reason_ok r \<and> st' = trip io r st"
    using assms(1-4) decoy_reasons unfolding st'_def
    by (cases "decoyDigest contents") (auto simp: checkDecoyIntegrity_def decoy_ok_def simp del: decoy_reasons)
  then show ?thesis using trip_state by auto
qed

definition armed :: sec_state where
  "armed = \<lparr>ssDecoy = \<lparr>fsPath = ''/var/lib/hwcontrol/security/canary/bridger.key'', fsBaseline = decoyExpectedDigest,
     fsHealthy = True, fsTriggered = False, fsLastReason = []\<rparr>, ssPanicFile = None, ssDiag = \<lparr>dgEvents = 0, dgLog = []\<rparr>\<rparr>"

definition demoIo :: "bool \<Rightarrow> trigger_io" where
  "demoIo ok = \<lparr>tioWrite = ok, tioRename = ok, tioNow = 0, tioAppend = True, tioDiagPath = []\<rparr>"

theorem tampering_triggers_panic_witness:
  "panicModeActive (ssPanicFile (checkDecoyIntegrity (demoIo True) (Inl ''file does not exist'') armed))"
  using tampering_triggers_panic [of armed "Inl ''file does not exist''" "demoIo True"]
  by (simp add: armed_def decoy_ok_def decoyDigest_def demoIo_def)

text \<open>The trigger is latched: once triggered, no sequence of later checks changes the service, the panic state or
  the diagnostics, whatever the canary file then contains.\<close>

theorem trigger_is_latched:
  assumes "fsTriggered (ssDecoy st)"
  shows "fold (\<lambda>(io, contents). checkDecoyIntegrity io contents) checks st = st"
  using assms by (induction checks) (auto simp: check_latched)

theorem trigger_is_latched_witness:
  "let st = trip (demoIo True) ''bridger.key integrity changed'' armed in
   fold (\<lambda>(io, contents). checkDecoyIntegrity io contents) [(demoIo True, Inr decoyContent)] st = st"
  unfolding Let_def by (rule trigger_is_latched) (simp add: trip_state)

text \<open>C32: a trigger whose state file cannot be written does not stop control: the service is triggered and stays
  latched, yet the panic state that commands consult is what it was before, so an inactive panic mode stays inactive.\<close>

theorem unwritten_panic_is_inactive:
  assumes "reason_ok r" and "\<not> (tioWrite io \<and> tioRename io)" and "\<not> panicModeActive (ssPanicFile st)"
  shows "fsTriggered (ssDecoy (trip io r st)) \<and> \<not> panicModeActive (ssPanicFile (trip io r st)) \<and>
    checkDecoyIntegrity io2 contents (trip io r st) = trip io r st"
  using assms trip_state [OF assms(1)] check_latched by simp

theorem unwritten_panic_is_inactive_witness:
  "\<not> panicModeActive (ssPanicFile (trip (demoIo False) ''decoy missing or unreadable'' armed))"
  using unwritten_panic_is_inactive [of "''decoy missing or unreadable''" "demoIo False" armed]
  by (simp add: demoIo_def armed_def panicModeActive_def)

end
