(* ===== verification/AudioProbe.thy ===== *)
theory AudioProbe
  imports Audio Paths "HOL-Library.List_Lexorder" "HOL-Library.Char_ord"
begin

text \<open>
  The native audio probe (\<open>main.go\<close>): decoding of its device list, the resolution of its path,
  and the session with the long-running probe process.  The process and its pipes are inputs:
  an \<open>io\<close> record gives the outcome of each call.

  Shown here: a session that fails in any way is torn down, so the next command starts a fresh
  process, and a device list is only accepted with names and non-negative indices.
\<close>

subsection \<open>UTF-8 repair\<close>

text \<open>
  \<open>strings.ToValidUTF8(s, "\\uFFFD")\<close>: every maximal run of invalid bytes becomes one
  replacement, here the six characters of the Go literal (a backslash and \<open>uFFFD\<close>).
\<close>

definition utf8_literal :: bytes where
  "utf8_literal = CHR 0x5C # ''uFFFD''"

function to_valid :: "bool \<Rightarrow> bytes \<Rightarrow> bytes" where
  "to_valid inRun [] = []"
| "to_valid inRun (c # s) =
     (case rune_len (c # s) of
        0 \<Rightarrow> (if inRun then [] else utf8_literal) @ to_valid True s
      | Suc n \<Rightarrow> c # take n s @ to_valid False (drop n s))"
  by pat_completeness auto
termination
  by (relation "measure (length \<circ> snd)") auto

declare to_valid.simps [simp del]

definition ToValidUTF8 :: "bytes \<Rightarrow> bytes" where
  "ToValidUTF8 s = to_valid False s"

subsection \<open>Device list\<close>

record audioProbeDevice =
  apIndex :: int
  apNameHex :: bytes
  apIsDefault :: bool

definition emptyDevice :: audioProbeDevice where
  "emptyDevice = \<lparr>apIndex = 0, apNameHex = [], apIsDefault = False\<rparr>"

definition elem_string :: "bytes \<Rightarrow> json \<Rightarrow> bytes option" where
  "elem_string old v = (case v of JNull \<Rightarrow> Some old | JStr s \<Rightarrow> Some s | _ \<Rightarrow> None)"

fun device_fields :: "(bytes \<times> json) list \<Rightarrow> audioProbeDevice \<Rightarrow> audioProbeDevice option" where
  "device_fields [] d = Some d"
| "device_fields ((k, v) # ms) d =
     (let n = fold_name k in
      case (if n = ''index'' then map_option (\<lambda>x. d\<lparr>apIndex := x\<rparr>) (elem_int (apIndex d) v)
            else if n = ''namehex'' then map_option (\<lambda>x. d\<lparr>apNameHex := x\<rparr>) (elem_string (apNameHex d) v)
            else if n = ''isdefault'' then map_option (\<lambda>x. d\<lparr>apIsDefault := x\<rparr>) (elem_bool (apIsDefault d) v)
            else Some d) of
        None \<Rightarrow> None
      | Some d' \<Rightarrow> device_fields ms d')"

definition elem_device :: "audioProbeDevice \<Rightarrow> json \<Rightarrow> audioProbeDevice option" where
  "elem_device old v =
     (case v of JNull \<Rightarrow> Some old | JObj ms \<Rightarrow> device_fields ms old | _ \<Rightarrow> None)"

text \<open>As for the equaliser bands, an array decodes into the slice's backing array.\<close>

fun fill_devices :: "audioProbeDevice list \<Rightarrow> json list \<Rightarrow> audioProbeDevice list option" where
  "fill_devices backing [] = Some backing"
| "fill_devices backing (v # vs) =
     (case elem_device (case backing of [] \<Rightarrow> emptyDevice | d # _ \<Rightarrow> d) v of
        None \<Rightarrow> None
      | Some d \<Rightarrow> map_option ((#) d) (fill_devices (tl backing) vs))"

type_synonym device_slice = "audioProbeDevice list \<times> audioProbeDevice list"

definition elem_devices :: "device_slice \<Rightarrow> json \<Rightarrow> device_slice option" where
  "elem_devices sl v =
     (case v of
        JNull \<Rightarrow> Some ([], [])
      | JArr [] \<Rightarrow> Some ([], [])
      | JArr vs \<Rightarrow> map_option (\<lambda>b. (b, take (length vs) b)) (fill_devices (fst sl) vs)
      | _ \<Rightarrow> None)"

fun probe_fields :: "(bytes \<times> json) list \<Rightarrow> device_slice \<Rightarrow> device_slice \<Rightarrow> (device_slice \<times> device_slice) option" where
  "probe_fields [] cap play = Some (cap, play)"
| "probe_fields ((k, v) # ms) cap play =
     (if fold_name k = ''capture'' then
        (case elem_devices cap v of None \<Rightarrow> None | Some c \<Rightarrow> probe_fields ms c play)
      else if fold_name k = ''playback'' then
        (case elem_devices play v of None \<Rightarrow> None | Some p \<Rightarrow> probe_fields ms cap p)
      else probe_fields ms cap play)"

definition unmarshal_probe :: "bytes \<Rightarrow> (audioProbeDevice list \<times> audioProbeDevice list) option" where
  "unmarshal_probe raw =
     (case json_decode raw of
        Some JNull \<Rightarrow> Some ([], [])
      | Some (JObj ms) \<Rightarrow> map_option (\<lambda>(c, p). (snd c, snd p)) (probe_fields ms ([], []) ([], []))
      | _ \<Rightarrow> None)"

text \<open>The closure \<open>convert\<close> for one device: index, name and default flag.\<close>

definition convert_device :: "audioProbeDevice \<Rightarrow> (int \<times> bytes \<times> bool) res" where
  "convert_device d =
     (if apIndex d < 0 \<or> length (apNameHex d) > 2048
      then Inl ''native audio device response contains invalid fields''
      else case hex_DecodeString (apNameHex d) of
             None \<Rightarrow> Inl ''native audio device response contains invalid device name''
           | Some nameBytes \<Rightarrow>
               if nameBytes = [] then Inl ''native audio device response contains invalid device name''
               else let name = ToValidUTF8 nameBytes in
                 if TrimSpace name = [] \<or> CHR 0x00 \<in> set name
                 then Inl ''native audio device response contains an empty device name''
                 else Inr (apIndex d, name, apIsDefault d))"

definition device_json :: "int \<times> bytes \<times> bool \<Rightarrow> json" where
  "device_json d =
     (case d of (i, name, isDefault) \<Rightarrow>
        JObj [(''index'', JNum (FormatInt i)), (''isDefault'', JBool isDefault), (''name'', JStr name)])"

text \<open>\<open>decodeErr\<close> is the text of the JSON error.\<close>

definition decodeAudioDeviceProbeOutput :: "bytes \<Rightarrow> bytes \<Rightarrow> json res" where
  "decodeAudioDeviceProbeOutput decodeErr raw =
     (case unmarshal_probe raw of
        None \<Rightarrow> Inl (''decode native audio device response: '' @ decodeErr)
      | Some (capture, playback) \<Rightarrow>
          rbind (res_all (map convert_device capture)) (\<lambda>cs.
          rbind (res_all (map convert_device playback)) (\<lambda>ps.
            Inr (JObj [(''capture'', JArr (map device_json cs)), (''localOnly'', JBool True),
                       (''playback'', JArr (map device_json ps))]))))"

subsection \<open>The probe executable\<close>

datatype file_kind = FRegular | FOther

text \<open>\<open>stat\<close> is \<open>os.Stat\<close>: the kind of file, or the text of the error.\<close>

record probe_view =
  pvConfigured :: bytes
  pvExecutable :: "bytes res"
  pvStat :: "bytes \<Rightarrow> file_kind res"

definition probe_candidates :: "bytes \<Rightarrow> bytes list" where
  "probe_candidates dir =
     (let name = ''hwcontrol_audio_probe'' in
      [JoinPath [dir, name], JoinPath [dir, ''native'', name], JoinPath [dir, ''bin'', name],
       JoinPath [dir, ''..'', ''build'', ''audio_core'', name],
       JoinPath [dir, ''..'', ''build-windows'', ''audio_core'', ''Release'', name],
       JoinPath [dir, ''..'', ''build-windows'', ''audio_core'', name]])"

definition resolveAudioProbePath :: "probe_view \<Rightarrow> bytes res" where
  "resolveAudioProbePath v =
     (let configured = TrimSpace (pvConfigured v) in
      if configured \<noteq> [] then
        (if \<not> IsAbs configured then Inl ''HWCONTROL_AUDIO_PROBE must be an absolute path''
         else case pvStat v configured of
                Inl e \<Rightarrow> Inl (''inspect configured audio probe: '' @ e)
              | Inr FOther \<Rightarrow> Inl ''configured audio probe is not a regular file''
              | Inr FRegular \<Rightarrow> Inr configured)
      else case pvExecutable v of
             Inl e \<Rightarrow> Inl (''resolve bridge executable: '' @ e)
           | Inr executable \<Rightarrow>
               (case filter (\<lambda>c. pvStat v c = Inr FRegular) (probe_candidates (Dir executable)) of
                  c # _ \<Rightarrow> Inr c
                | [] \<Rightarrow> Inl ''native audio probe is not packaged; build hwcontrol_audio_probe and place it beside the bridge or set HWCONTROL_AUDIO_PROBE''))"

text \<open>\<open>run\<close> is the outcome of the probe process: timed out, failed, or its output.\<close>

datatype probe_run = PTimeout | PFailed bytes | POutput bytes

definition audioDeviceSnapshot :: "probe_view \<Rightarrow> (bytes \<Rightarrow> probe_run) \<Rightarrow> bytes \<Rightarrow> json res" where
  "audioDeviceSnapshot v run decodeErr =
     rbind (resolveAudioProbePath v) (\<lambda>probe.
       case run probe of
         PTimeout \<Rightarrow> Inl ''native audio device enumeration timed out''
       | PFailed e \<Rightarrow> Inl (''native audio device enumeration failed: '' @ e)
       | POutput output \<Rightarrow> decodeAudioDeviceProbeOutput decodeErr output)"

subsection \<open>The control session\<close>

text \<open>A value decoded into \<open>any\<close>: numbers become floats, object members are a map (the last of
  two equal names wins) and are written in sorted order.\<close>

fun dedup_last :: "(bytes \<times> json) list \<Rightarrow> (bytes \<times> json) list" where
  "dedup_last [] = []"
| "dedup_last ((k, v) # ms) = (if k \<in> fst ` set ms then dedup_last ms else (k, v) # dedup_last ms)"

fun any_json :: "json \<Rightarrow> json option" where
  "any_json (JNum lit) = (case ParseFloat lit of (x, ok) \<Rightarrow> if ok then Some (json_float x) else None)"
| "any_json (JArr vs) =
     (let ys = map any_json vs in if None \<in> set ys then None else Some (JArr (map the ys)))"
| "any_json (JObj ms) =
     (let ys = map (\<lambda>(k, v). (k, any_json v)) ms in
      if None \<in> snd ` set ys then None
      else Some (JObj (sort_key fst (dedup_last (map (\<lambda>(k, v). (k, the v)) ys)))))"
| "any_json v = Some v"

record probe_response =
  prStatus :: bytes
  prMessage :: bytes
  prMessageHex :: bytes
  prData :: json

fun response_fields :: "(bytes \<times> json) list \<Rightarrow> probe_response \<Rightarrow> probe_response option" where
  "response_fields [] r = Some r"
| "response_fields ((k, v) # ms) r =
     (let n = fold_name k in
      case (if n = ''status'' then map_option (\<lambda>x. r\<lparr>prStatus := x\<rparr>) (elem_string (prStatus r) v)
            else if n = ''message'' then map_option (\<lambda>x. r\<lparr>prMessage := x\<rparr>) (elem_string (prMessage r) v)
            else if n = ''messagehex'' then map_option (\<lambda>x. r\<lparr>prMessageHex := x\<rparr>) (elem_string (prMessageHex r) v)
            else if n = ''data'' then
              (case v of
                 JNull \<Rightarrow> Some (r\<lparr>prData := JNull\<rparr>)
               | JObj ms' \<Rightarrow>
                   (case prData r of
                      JObj old \<Rightarrow> map_option (\<lambda>x. r\<lparr>prData := x\<rparr>) (any_json (JObj (old @ ms')))
                    | _ \<Rightarrow> map_option (\<lambda>x. r\<lparr>prData := x\<rparr>) (any_json v))
               | _ \<Rightarrow> None)
            else Some r) of
        None \<Rightarrow> None
      | Some r' \<Rightarrow> response_fields ms r')"

definition unmarshal_response :: "bytes \<Rightarrow> probe_response option" where
  "unmarshal_response line =
     (let r0 = \<lparr>prStatus = [], prMessage = [], prMessageHex = [], prData = JNull\<rparr> in
      case json_decode line of
        Some JNull \<Rightarrow> Some r0
      | Some (JObj ms) \<Rightarrow> response_fields ms r0
      | _ \<Rightarrow> None)"

datatype probe_read = RdLine bytes | RdError bytes | RdTimeout

record probe_io =
  pioView :: probe_view
  pioStdin :: gerr
  pioStdout :: gerr
  pioStart :: gerr
  pioWrite :: gerr
  pioRead :: probe_read

text \<open>The session is \<open>None\<close>, or the lines sent to the running process.  The result of a command
  keeps or starts the session, or stops it.\<close>

definition start_session :: "probe_io \<Rightarrow> bytes list option \<Rightarrow> bytes list res" where
  "start_session io session =
     (case session of
        Some sent \<Rightarrow> Inr sent
      | None \<Rightarrow>
          rbind (resolveAudioProbePath (pioView io)) (\<lambda>probe.
            case pioStdin io of
              Some e \<Rightarrow> Inl (''open native audio control input: '' @ e)
            | None \<Rightarrow>
                (case pioStdout io of
                   Some e \<Rightarrow> Inl (''open native audio control output: '' @ e)
                 | None \<Rightarrow>
                     (case pioStart io of
                        Some e \<Rightarrow> Inl (''start native audio control process: '' @ e)
                      | None \<Rightarrow> Inr []))))"

definition probe_reply :: "bytes \<Rightarrow> (json res \<times> bool)" where
  "probe_reply line =
     (if length line > 65536 then (Inl ''native audio response exceeded the size limit'', False)
      else case unmarshal_response line of
             None \<Rightarrow> (Inl ''invalid native audio response'', False)
           | Some r \<Rightarrow>
               if prStatus r \<noteq> ''SUCCESS'' then
                 (let message = (if prMessageHex r \<noteq> [] then
                        (case hex_DecodeString (prMessageHex r) of
                           Some raw \<Rightarrow> ToValidUTF8 raw
                         | None \<Rightarrow> prMessage r) else prMessage r)
                  in (Inl (''native audio operation failed: '' @ ToValidUTF8 message), True))
               else (Inr (prData r), True))"

definition audioProbeControl :: "probe_io \<Rightarrow> bytes \<Rightarrow> bytes list option \<Rightarrow> json res \<times> bytes list option" where
  "audioProbeControl io command session =
     (case start_session io session of
        Inl e \<Rightarrow> (Inl e, None)
      | Inr sent \<Rightarrow>
          (case pioWrite io of
             Some e \<Rightarrow> (Inl (''send native audio command: '' @ e), None)
           | None \<Rightarrow>
               (case pioRead io of
                  RdError e \<Rightarrow> (Inl (''read native audio response: '' @ e), None)
                | RdTimeout \<Rightarrow> (Inl ''native audio command timed out'', None)
                | RdLine line \<Rightarrow>
                    (case probe_reply line of (r, keep) \<Rightarrow>
                       (r, if keep then Some (sent @ [command @ [CHR 0x0A]]) else None)))))"

subsection \<open>Laws\<close>

lemma convert_device_Inr:
  assumes "convert_device d = Inr (i, name, isDefault)"
  shows "0 \<le> i \<and> TrimSpace name \<noteq> [] \<and> CHR 0x00 \<notin> set name"
  using assms by (auto simp: convert_device_def Let_def split: if_splits option.splits)

lemma res_all_map: "res_all (map f xs) = Inr ys \<Longrightarrow> y \<in> set ys \<Longrightarrow> \<exists>x. f x = Inr y"
  by (induction xs arbitrary: ys) (auto simp: rbind_Inr)

lemma probe_reply_keep:
  "snd (probe_reply line) \<longleftrightarrow> length line \<le> 65536 \<and> unmarshal_response line \<noteq> None"
  by (auto simp: probe_reply_def Let_def split: option.splits)

lemma probe_reply_stop: "\<not> snd (probe_reply line) \<Longrightarrow> \<exists>e. fst (probe_reply line) = Inl e"
  by (auto simp: probe_reply_def Let_def split: option.splits if_splits)

subsection \<open>Properties\<close>

text \<open>An accepted device list is well formed: every capture and playback device has a non-negative index and a
  name that is not blank and contains no zero byte.\<close>

theorem probe_device_list:
  assumes "decodeAudioDeviceProbeOutput decodeErr raw = Inr j"
  shows "\<exists>cs ps. j = JObj [(''capture'', JArr (map device_json cs)), (''localOnly'', JBool True),
      (''playback'', JArr (map device_json ps))] \<and>
    (\<forall>(i, name, isDefault) \<in> set cs \<union> set ps. 0 \<le> i \<and> TrimSpace name \<noteq> [] \<and> CHR 0x00 \<notin> set name)"
proof -
  obtain capture playback cs ps where r: "res_all (map convert_device capture) = Inr cs"
    "res_all (map convert_device playback) = Inr ps"
    "j = JObj [(''capture'', JArr (map device_json cs)), (''localOnly'', JBool True), (''playback'', JArr (map device_json ps))]"
    using assms by (auto simp: decodeAudioDeviceProbeOutput_def err_simps split: option.splits prod.splits)
  have "\<exists>d. convert_device d = Inr x" if "x \<in> set cs \<union> set ps" for x
    using that r(1,2) by (auto dest: res_all_map)
  then have "\<forall>(i, name, isDefault) \<in> set cs \<union> set ps. 0 \<le> i \<and> TrimSpace name \<noteq> [] \<and> CHR 0x00 \<notin> set name"
    using convert_device_Inr by fast
  with r(3) show ?thesis by blast
qed

definition demoProbe :: bytes where
  "demoProbe = CHR ''{'' # CHR 0x22 # ''capture'' @ CHR 0x22 # '':[{'' @ CHR 0x22 # ''nameHex'' @ CHR 0x22 # CHR '':'' #
     CHR 0x22 # ''4d6963'' @ CHR 0x22 # ''}]}''"

lemma demoProbe_decodes:
  "decodeAudioDeviceProbeOutput [] demoProbe = Inr (JObj [(''capture'', JArr [device_json (0, ''Mic'', False)]),
     (''localOnly'', JBool True), (''playback'', JArr [])])"
  by code_simp

theorem probe_device_list_witness:
  "\<exists>cs ps. JObj [(''capture'', JArr [device_json (0, ''Mic'', False)]), (''localOnly'', JBool True), (''playback'', JArr [])] =
    JObj [(''capture'', JArr (map device_json cs)), (''localOnly'', JBool True), (''playback'', JArr (map device_json ps))] \<and>
    (\<forall>(i, name, isDefault) \<in> set cs \<union> set ps. 0 \<le> i \<and> TrimSpace name \<noteq> [] \<and> CHR 0x00 \<notin> set name)"
  by (rule probe_device_list [OF demoProbe_decodes])

text \<open>A probe session never outlives a failure of the exchange: it survives a command exactly when a reply line of
  at most 65536 bytes arrived and was well formed, and then the command is the last line sent; in every other case the
  command fails and the process is stopped.\<close>

theorem probe_session_lifetime:
  "case audioProbeControl io command session of (r, s') \<Rightarrow>
    (case s' of
       None \<Rightarrow> (\<exists>e. r = Inl e)
     | Some sent' \<Rightarrow> (\<exists>line sent. pioRead io = RdLine line \<and> length line \<le> 65536 \<and> unmarshal_response line \<noteq> None \<and>
         start_session io session = Inr sent \<and> pioWrite io = nil \<and> sent' = sent @ [command @ [CHR 0x0A]]))"
proof (cases "\<exists>line sent. start_session io session = Inr sent \<and> pioWrite io = nil \<and> pioRead io = RdLine line")
  case True
  then obtain line sent where t: "start_session io session = Inr sent" "pioWrite io = nil" "pioRead io = RdLine line" by blast
  show ?thesis
    using probe_reply_keep [of line] probe_reply_stop [of line]
    by (cases "probe_reply line") (auto simp: audioProbeControl_def t)
next
  case False
  then show ?thesis
    by (auto simp: audioProbeControl_def split: sum.split option.split probe_read.split)
qed

end
