(* ===== verification/GameMode.thy ===== *)
theory GameMode
  imports Safety GoTime
begin

text \<open>
  Game mode (\<open>game_mode.go\<close>): recognition of game processes, the session that remembers when a
  game was first seen, and the state reported to the dashboard.  The process list of gopsutil
  and the environment variable are inputs; \<open>lowerU\<close> and \<open>equalFoldU\<close> stand for Unicode case
  folding of strings that are not pure ASCII.

  Shown here: only a running process whose name is known or configured is reported; a session
  keeps its first detection time for as long as the same process is seen, and a new process
  identifier starts a new one.
\<close>

record GameModeState =
  gmEnabled :: bool
  gmAutoDetection :: bool
  gmGameDetected :: bool
  gmProcessName :: bytes
  gmPID :: "32 word"
  gmDetectedAt :: bytes
  gmSessionDurationSeconds :: int
  gmOptimizationMode :: bytes

record game_session =
  gsProcessName :: bytes
  gsPid :: "32 word"
  gsDetectedAt :: "int option"

definition knownGameProcesses :: "bytes list" where
  "knownGameProcesses =
     [''eldenring.exe'', ''eldenring'', ''valorant-win64-shipping.exe'',
      ''valorant-win64-shipping'', ''cs2.exe'', ''cs2'', ''csgo.exe'',
      ''fortniteclient-win64-shipping.exe'', ''fortniteclient-win64-shipping'',
      ''rocketleague.exe'', ''rocketleague'', ''gta5.exe'', ''gta5'',
      ''r5apex.exe'', ''r5apex'', ''overwatch.exe'', ''overwatch'',
      ''helldivers2.exe'', ''helldivers2'', ''minecraft.exe'',
      ''witcher3.exe'', ''cyberpunk2077.exe'', ''dota2.exe'', ''dota2'',
      ''leagueoflegends.exe'', ''leagueclient.exe'', ''pubg.exe'',
      ''paladins.exe'', ''rainbowsix.exe'', ''acvalhalla.exe'',
      ''hogwartslegacy.exe'', ''starfield.exe'', ''thefinals.exe'',
      ''apex.exe'']"

definition normalizeGameProcessName :: "(bytes \<Rightarrow> bytes) \<Rightarrow> bytes \<Rightarrow> bytes" where
  "normalizeGameProcessName lowerU name =
     (let n = TrimSpace (ToLower lowerU name) in
      if n = [] then []
      else Base (last (Split (ReplaceByte n (CHR 0x5C) slash) slash)))"

definition isKnownGameProcess :: "(bytes \<Rightarrow> bytes) \<Rightarrow> bytes \<Rightarrow> bytes \<Rightarrow> bool" where
  "isKnownGameProcess lowerU configuredNames name =
     (let n = normalizeGameProcessName lowerU name in
      if n = [] then False
      else if n \<in> set knownGameProcesses then True
      else list_ex (\<lambda>c. let candidate = normalizeGameProcessName lowerU c in candidate \<noteq> [] \<and> candidate = n)
             (Split configuredNames (CHR '','')))"

definition EqualFold :: "(bytes \<Rightarrow> bytes \<Rightarrow> bool) \<Rightarrow> bytes \<Rightarrow> bytes \<Rightarrow> bool" where
  "EqualFold equalFoldU s t =
     (if list_all (\<lambda>c. byte c < 128) (s @ t) then map lower_byte s = map lower_byte t else equalFoldU s t)"

definition emptySession :: game_session where
  "emptySession = \<lparr>gsProcessName = [], gsPid = 0, gsDetectedAt = None\<rparr>"

definition gameSessionDetectedAt ::
  "(bytes \<Rightarrow> bytes \<Rightarrow> bool) \<Rightarrow> bytes \<Rightarrow> 32 word \<Rightarrow> bool \<Rightarrow> int \<Rightarrow> game_session \<Rightarrow> bytes \<times> game_session" where
  "gameSessionDetectedAt equalFoldU name pid detected now s =
     (if \<not> detected \<or> pid = 0 then ([], emptySession)
      else let s' = (if gsPid s \<noteq> pid \<or> \<not> EqualFold equalFoldU (gsProcessName s) name \<or> gsDetectedAt s = None
                     then \<lparr>gsProcessName = name, gsPid = pid, gsDetectedAt = Some now\<rparr> else s)
           in (case gsDetectedAt s' of Some t \<Rightarrow> rfc3339 t | None \<Rightarrow> [], s'))"

text \<open>\<open>int64(d.Seconds())\<close>: the seconds are computed in floating point before truncation.\<close>

definition duration_seconds :: "int \<Rightarrow> int" where
  "duration_seconds d =
     (case fto_int (fadd (fof_int (d div second)) (fdiv (fof_int (d mod second)) (fof_int second))) of
        Some n \<Rightarrow> n | None \<Rightarrow> 0)"

definition gameSessionDurationSeconds :: "int \<Rightarrow> game_session \<Rightarrow> int" where
  "gameSessionDurationSeconds now s =
     (case gsDetectedAt s of
        None \<Rightarrow> 0
      | Some t \<Rightarrow> if now < t then 0 else duration_seconds (now - t))"

text \<open>A process of the list: its name, or an error, and its identifier.\<close>

fun detect_loop :: "(bytes \<Rightarrow> bytes) \<Rightarrow> bytes \<Rightarrow> (bytes option \<times> int) list \<Rightarrow> bytes \<times> 32 word \<times> bool" where
  "detect_loop lowerU configuredNames [] = ([], 0, False)"
| "detect_loop lowerU configuredNames ((name, pid) # ps) =
     (case name of
        None \<Rightarrow> detect_loop lowerU configuredNames ps
      | Some n \<Rightarrow>
          if pid \<le> 0 \<or> \<not> isKnownGameProcess lowerU configuredNames n
          then detect_loop lowerU configuredNames ps
          else (n, word_of_int pid, True))"

definition detectGameProcess ::
  "(bytes \<Rightarrow> bytes) \<Rightarrow> bytes \<Rightarrow> (bytes option \<times> int) list option \<Rightarrow> bytes \<times> 32 word \<times> bool" where
  "detectGameProcess lowerU configuredNames procs =
     (case procs of None \<Rightarrow> ([], 0, False) | Some ps \<Rightarrow> detect_loop lowerU configuredNames ps)"

record game_env =
  geProcs :: "(bytes option \<times> int) list option"
  geConfigured :: bytes
  geNow :: int

definition collectGameModeState ::
  "(bytes \<Rightarrow> bytes) \<Rightarrow> (bytes \<Rightarrow> bytes \<Rightarrow> bool) \<Rightarrow> game_env \<Rightarrow> bool \<Rightarrow> game_session \<Rightarrow> GameModeState \<times> game_session" where
  "collectGameModeState lowerU equalFoldU env enabled s =
     (case detectGameProcess lowerU (geConfigured env) (geProcs env) of (name, pid, detected) \<Rightarrow>
      case gameSessionDetectedAt equalFoldU name pid detected (geNow env) s of (detectedAt, s') \<Rightarrow>
        (\<lparr>gmEnabled = enabled, gmAutoDetection = True, gmGameDetected = detected, gmProcessName = name,
          gmPID = pid, gmDetectedAt = detectedAt,
          gmSessionDurationSeconds = gameSessionDurationSeconds (geNow env) s',
          gmOptimizationMode =
            (if enabled \<and> detected then ''game-active-monitoring''
             else if enabled then ''game-mode-armed'' else ''monitoring-only'')\<rparr>, s'))"

subsection \<open>Sessions\<close>

lemma EqualFold_refl: "(\<And>s. equalFoldU s s) \<Longrightarrow> EqualFold equalFoldU s s"
  by (simp add: EqualFold_def)

lemma session_state:
  assumes "detected" and "pid \<noteq> 0"
  shows "\<exists>t. gsDetectedAt (snd (gameSessionDetectedAt f name pid detected now s)) = Some t \<and>
    fst (gameSessionDetectedAt f name pid detected now s) = rfc3339 t \<and>
    gsPid (snd (gameSessionDetectedAt f name pid detected now s)) = pid \<and>
    (gsPid s \<noteq> pid \<longrightarrow> t = now)"
  using assms by (auto simp: gameSessionDetectedAt_def Let_def split: option.split)

text \<open>Seeing the same process again changes nothing.\<close>

lemma session_stable:
  assumes "\<And>s. f s s" and "detected" and "pid \<noteq> 0"
  shows "gameSessionDetectedAt f name pid detected now2 (snd (gameSessionDetectedAt f name pid detected now1 s)) =
    gameSessionDetectedAt f name pid detected now1 s"
  using assms EqualFold_refl [of f] by (auto simp: gameSessionDetectedAt_def Let_def)

lemma detect_loop_known:
  "detect_loop u c ps = (n, pid, True) \<Longrightarrow> isKnownGameProcess u c n \<and> (\<exists>p. (Some n, p) \<in> set ps \<and> 0 < p \<and> pid = word_of_int p)"
proof (induction ps)
  case Nil
  then show ?case by simp
next
  case (Cons q ps)
  then show ?case by (cases q) (auto split: option.splits if_splits)
qed

lemma detected_process:
  assumes "detectGameProcess u c (Some ps) = (n, pid, d)"
  shows "d \<Longrightarrow> isKnownGameProcess u c n \<and> (\<exists>p. (Some n, p) \<in> set ps \<and> 0 < p \<and> pid = word_of_int p)"
  using assms detect_loop_known by (cases d) (auto simp: detectGameProcess_def)

subsection \<open>Properties\<close>

text \<open>A game is reported only for a process of the list with a positive identifier whose normalised name is known
  or configured, and game-active monitoring is reported only when game mode is enabled and such a process runs.\<close>

theorem reported_game:
  assumes "fst (collectGameModeState lowerU equalFoldU env enabled s) = r" and "gmGameDetected r"
  shows "isKnownGameProcess lowerU (geConfigured env) (gmProcessName r) \<and>
    (\<exists>ps p. geProcs env = Some ps \<and> (Some (gmProcessName r), p) \<in> set ps \<and> 0 < p \<and> gmPID r = word_of_int p) \<and>
    (gmOptimizationMode r = ''game-active-monitoring'' \<longleftrightarrow> enabled)"
proof -
  obtain n pid d where det: "detectGameProcess lowerU (geConfigured env) (geProcs env) = (n, pid, d)"
    by (metis prod_cases3)
  then have r: "gmProcessName r = n" "gmPID r = pid" "d" "gmOptimizationMode r = ''game-active-monitoring'' \<longleftrightarrow> enabled"
    using assms by (auto simp: collectGameModeState_def split: prod.splits if_splits)
  obtain ps where ps: "geProcs env = Some ps" using det r(3) by (cases "geProcs env") (auto simp: detectGameProcess_def)
  from detected_process [OF det [unfolded ps] r(3)] r ps show ?thesis by auto
qed

definition demoGame :: "int \<Rightarrow> game_env" where
  "demoGame now = \<lparr>geProcs = Some [(None, 1), (Some ''bash'', 7), (Some ''CS2.exe'', 42)], geConfigured = [], geNow = now\<rparr>"

lemma demoGame_detects:
  "detectGameProcess id [] (Some [(None, 1), (Some ''bash'', 7), (Some ''CS2.exe'', 42)]) = (''CS2.exe'', 42, True)"
proof -
  have "\<not> isKnownGameProcess id [] ''bash''" "isKnownGameProcess id [] ''CS2.exe''" by code_simp+
  then show ?thesis by (simp add: detectGameProcess_def)
qed

theorem reported_game_witness: "isKnownGameProcess id [] ''CS2.exe''"
proof -
  let ?r = "fst (collectGameModeState id (=) (demoGame 0) True emptySession)"
  have "gmGameDetected ?r" "gmProcessName ?r = ''CS2.exe''"
    by (simp_all add: collectGameModeState_def demoGame_def demoGame_detects split: prod.split)
  with reported_game [OF refl, of id "(=)" "demoGame 0" True emptySession] show ?thesis by (simp add: demoGame_def)
qed

text \<open>The detection time of a session is stable: as long as the same process is reported, later observations leave
  the session and its reported start unchanged, and an observation of another process identifier starts a session
  at that observation.\<close>

theorem game_session_start:
  assumes "\<And>s. equalFoldU s s" and "pid \<noteq> 0"
  shows "gameSessionDetectedAt equalFoldU name pid True now2 (snd (gameSessionDetectedAt equalFoldU name pid True now1 s)) =
      gameSessionDetectedAt equalFoldU name pid True now1 s \<and>
    (gsPid s \<noteq> pid \<longrightarrow> gsDetectedAt (snd (gameSessionDetectedAt equalFoldU name pid True now1 s)) = Some now1)"
proof
  show "gameSessionDetectedAt equalFoldU name pid True now2 (snd (gameSessionDetectedAt equalFoldU name pid True now1 s)) =
      gameSessionDetectedAt equalFoldU name pid True now1 s"
    using session_stable [of equalFoldU True pid] assms by blast
  show "gsPid s \<noteq> pid \<longrightarrow> gsDetectedAt (snd (gameSessionDetectedAt equalFoldU name pid True now1 s)) = Some now1"
    using session_state [of True pid equalFoldU name now1 s] assms(2) by auto
qed

theorem game_session_start_witness:
  "gsDetectedAt (snd (gameSessionDetectedAt (=) ''cs2'' 42 True 5 emptySession)) = Some 5"
  using game_session_start [of "(=)" 42 "''cs2''" 9 5 emptySession] by (simp add: emptySession_def)

end
