(* ===== verification/TimeParse.thy ===== *)
theory TimeParse
  imports GoTime "HOL-Library.Monad_Syntax"
begin

text \<open>
  \<open>time.Parse\<close> for the layout \<open>time.RFC3339Nano\<close>: the fields one after the other, with what the
  parser of Go admits beyond the standard (an hour of one digit, a comma before the fraction, any
  number of digits in it, zone offsets up to 24 hours and 60 minutes), then the check of the day,
  then \<open>time.Date\<close>.  The result is the instant in nanoseconds since the Unix epoch, or \<open>None\<close> for
  an error.

  Shown here: the days that \<open>civil\<close> turns into a date are the days that \<open>Date\<close> computes from it,
  and parsing what \<open>Format\<close> wrote gives the same instant back.
\<close>

subsection \<open>The calendar\<close>

definition isLeap :: "int \<Rightarrow> bool" where
  "isLeap y = (y mod 4 = 0 \<and> (y mod 100 \<noteq> 0 \<or> y mod 400 = 0))"

definition daysBefore :: "int list" where
  "daysBefore = [0, 31, 59, 90, 120, 151, 181, 212, 243, 273, 304, 334, 365]"

definition daysIn :: "int \<Rightarrow> int \<Rightarrow> int" where
  "daysIn m y =
     (if m = 2 \<and> isLeap y then 29 else daysBefore ! nat m - daysBefore ! nat (m - 1))"

text \<open>Days from the epoch to a date of the Gregorian calendar.\<close>

definition days_of :: "int \<Rightarrow> int \<Rightarrow> int \<Rightarrow> int" where
  "days_of y m d =
     365 * (y - 1) + (y - 1) div 4 - (y - 1) div 100 + (y - 1) div 400 +
     daysBefore ! nat (m - 1) + (if isLeap y \<and> 3 \<le> m then 1 else 0) + d - 1 - 719162"

subsection \<open>The parser\<close>

fun getnum :: "bool \<Rightarrow> bytes \<Rightarrow> (int \<times> bytes) option" where
  "getnum fixed [] = None"
| "getnum fixed [a] = (if is_digit a \<and> \<not> fixed then Some (digit_int a, []) else None)"
| "getnum fixed (a # b # s) =
     (if \<not> is_digit a then None
      else if \<not> is_digit b then (if fixed then None else Some (digit_int a, b # s))
      else Some (10 * digit_int a + digit_int b, s))"

definition get_year :: "bytes \<Rightarrow> (int \<times> bytes) option" where
  "get_year s =
     (if length s < 4 \<or> \<not> list_all is_digit (take 4 s) then None else Some (digits_val (take 4 s), drop 4 s))"

fun skip_char :: "char \<Rightarrow> bytes \<Rightarrow> bytes option" where
  "skip_char c [] = None"
| "skip_char c (x # s) = (if x = c then Some s else None)"

definition in_range :: "int \<Rightarrow> int \<Rightarrow> int \<Rightarrow> unit option" where
  "in_range lo hi n = (if lo \<le> n \<and> n \<le> hi then Some () else None)"

definition parseNanoseconds :: "bytes \<Rightarrow> int" where
  "parseNanoseconds ds = digits_val (take 9 ds) * 10 ^ (9 - length (take 9 ds))"

definition get_fraction :: "bytes \<Rightarrow> int \<times> bytes" where
  "get_fraction s =
     (case s of
        c # d # _ \<Rightarrow>
          if (c = CHR ''.'' \<or> c = CHR '','') \<and> is_digit d
          then (parseNanoseconds (takeWhile is_digit (tl s)), dropWhile is_digit (tl s)) else (0, s)
      | _ \<Rightarrow> (0, s))"

definition get_zone :: "bytes \<Rightarrow> (int \<times> bytes) option" where
  "get_zone s =
     (if HasPrefix s ''Z'' then Some (0, tl s)
      else if length s < 6 \<or> s ! 3 \<noteq> CHR '':'' then None
      else do {
        (hr, _) \<leftarrow> getnum True (take 2 (drop 1 s));
        (mm, _) \<leftarrow> getnum True (take 2 (drop 4 s));
        _ \<leftarrow> in_range 0 24 hr;
        _ \<leftarrow> in_range 0 60 mm;
        if s ! 0 = CHR ''+'' then Some ((hr * 60 + mm) * 60, drop 6 s)
        else if s ! 0 = CHR ''-'' then Some (- ((hr * 60 + mm) * 60), drop 6 s)
        else None
      })"

definition get_date :: "bytes \<Rightarrow> ((int \<times> int \<times> int) \<times> bytes) option" where
  "get_date s = do {
     (y, s) \<leftarrow> get_year s;
     s \<leftarrow> skip_char (CHR ''-'') s;
     (m, s) \<leftarrow> getnum True s;
     _ \<leftarrow> in_range 1 12 m;
     s \<leftarrow> skip_char (CHR ''-'') s;
     (d, s) \<leftarrow> getnum True s;
     Some ((y, m, d), s)
   }"

definition get_clock :: "bytes \<Rightarrow> (int \<times> bytes) option" where
  "get_clock s = do {
     (hr, s) \<leftarrow> getnum False s;
     _ \<leftarrow> in_range 0 23 hr;
     s \<leftarrow> skip_char (CHR '':'') s;
     (mi, s) \<leftarrow> getnum True s;
     _ \<leftarrow> in_range 0 59 mi;
     s \<leftarrow> skip_char (CHR '':'') s;
     (se, s) \<leftarrow> getnum True s;
     _ \<leftarrow> in_range 0 59 se;
     Some (hr * 3600 + mi * 60 + se, s)
   }"

definition ParseRFC3339Nano :: "bytes \<Rightarrow> int option" where
  "ParseRFC3339Nano s = do {
     ((y, m, d), s) \<leftarrow> get_date s;
     s \<leftarrow> skip_char (CHR ''T'') s;
     (secs, s) \<leftarrow> get_clock s;
     (ns, s) \<leftarrow> Some (get_fraction s);
     (offset, s) \<leftarrow> get_zone s;
     _ \<leftarrow> (if s = [] then Some () else None);
     _ \<leftarrow> in_range 1 (daysIn m y) d;
     Some ((days_of y m d * 86400 + secs - offset) * second + ns)
   }"

text \<open>\<open>Time.Sub\<close> saturates at the limits of a 64-bit duration.\<close>

definition time_Sub :: "int \<Rightarrow> int \<Rightarrow> int" where
  "time_Sub t u = max (- (2 ^ 63)) (min (2 ^ 63 - 1) (t - u))"

subsection \<open>Dates and days\<close>

text \<open>Years from March to February within an era of 400 years: the first day of each, with the last day of the era
  counted to the last year.\<close>

definition year_start :: "int \<Rightarrow> int" where
  "year_start n = 365 * n + n div 4 - n div 100 + n div 400"

definition year_index :: "int \<Rightarrow> int" where
  "year_index doe = doe - doe div 1460 + doe div 36524 - doe div 146096"

lemma div_step: "0 < k \<Longrightarrow> (a + 1) div k \<le> a div k + (1::int)"
proof -
  assume k: "0 < k"
  have "(a + 1) div k \<le> (a + k) div k" using k by (intro zdiv_mono1) auto
  with k show ?thesis by simp
qed

lemma year_start_step: "year_start n < year_start (n + 1)"
proof -
  have "n div 4 \<le> (n + 1) div 4" "(n + 1) div 100 \<le> n div 100 + 1" "n div 400 \<le> (n + 1) div 400"
    by (simp_all add: div_step zdiv_mono1)
  then show ?thesis by (simp add: year_start_def)
qed

lemma year_start_mono: "m \<le> n \<Longrightarrow> year_start m \<le> year_start n"
  by (induction n rule: int_ge_induct) (auto intro: order.trans less_imp_le year_start_step)

lemma div_succ: "0 < k \<Longrightarrow> (n + 1) div k = n div k + (if (n + 1) mod k = 0 then 1 else (0::int))"
proof -
  assume k: "0 < k"
  define m r where "m = (n + 1) div k" and "r = (n + 1) mod k"
  have eq: "n = k * m + r - 1" by (simp add: m_def r_def)
  have r: "0 \<le> r" "r < k" using k by (simp_all add: r_def)
  have "n div k = (if r = 0 then m - 1 else m)"
  proof (cases "r = 0")
    case True
    with eq have "n = k * (m - 1) + (k - 1)" by (simp add: right_diff_distrib)
    with k True show ?thesis by (simp add: int_div_pos_eq)
  next
    case False
    with r have "0 \<le> r - 1" "r - 1 < k" by linarith+
    moreover have "n = k * m + (r - 1)" using eq by simp
    ultimately have "n div k = m" by (intro int_div_pos_eq)
    with False show ?thesis by simp
  qed
  then show ?thesis by (simp add: m_def [symmetric] r_def [symmetric])
qed

lemma year_sum:
  fixes a b c :: int
  assumes "r \<Longrightarrow> q" and "q \<Longrightarrow> p" and "a' = a + (if p then 1 else 0)" and "b' = b + (if q then 1 else 0)" and "c' = c + (if r then 1 else 0)"
  shows "365 * (n + 1) + a' - b' + c' = 365 * n + a - b + c + (if p \<and> (\<not> q \<or> r) then 366 else 365)"
  using assms by (cases p; cases q; cases r) simp_all

lemma year_length:
  "year_start (n + 1) = year_start n + (if isLeap (n + 1) then 366 else 365)"
proof -
  have "(n + 1) mod 400 = 0 \<Longrightarrow> (n + 1) mod 100 = 0" "(n + 1) mod 100 = 0 \<Longrightarrow> (n + 1) mod 4 = 0"
    by (auto simp: mod_eq_0_iff_dvd intro: dvd_trans)
  from year_sum [OF this div_succ div_succ div_succ] show ?thesis
    by (simp only: year_start_def isLeap_def zero_less_numeral)
qed

text \<open>The formula for the year within an era is right for every day of the era.\<close>

lemma year_of_day:
  assumes n: "0 \<le> n" "n < 400" and j: "0 \<le> j" "j < (if isLeap (n + 1) then 366 else 365)"
  shows "year_index (year_start n + j) div 365 = n"
proof (cases "n = 399 \<and> j = 365")
  case True
  then show ?thesis by (simp add: year_index_def year_start_def)
next
  case False
  define q c r where "q = n div 4" and "c = n div 100" and "r = n mod 4"
  have n4: "n = 4 * q + r" "0 \<le> r" "r \<le> 3" by (simp_all add: q_def r_def)
  have n100: "100 * c \<le> n" "n \<le> 100 * c + 99" "n div 400 = 0" using n by (simp_all add: c_def)
  have q: "25 * c \<le> q" "q \<le> 25 * c + 24" using n4 n100 by presburger+
  have c: "0 \<le> c" "c \<le> 3" using n n100(1) by (simp_all add: c_def)
  have start: "year_start n = 365 * n + q - c" by (simp add: year_start_def q_def c_def n100)
  have "(n + 1) mod 4 = 0 \<longleftrightarrow> r = 3"
    using n4 by presburger
  moreover have "(n + 1) mod 100 = 0 \<longleftrightarrow> n = 100 * c + 99"
  proof -
    have "(n + 1) div 100 = (if n = 100 * c + 99 then c + 1 else c)"
      using n100 by (auto intro: int_div_pos_eq)
    with n100 show ?thesis by (auto simp: minus_mult_div_eq_mod [symmetric])
  qed
  moreover have "(n + 1) mod 400 = 0 \<longleftrightarrow> n = 399"
    using n by (cases "n = 399") auto
  ultimately have leap: "isLeap (n + 1) \<longleftrightarrow> r = 3 \<and> (n \<noteq> 100 * c + 99 \<or> n = 399)"
    by (simp add: isLeap_def)
  have j366: "j < 366" using j by (simp split: if_splits)
  define k where "k = 365 * r + q - c + j"
  have k: "0 \<le> k" "k < 2920" using n4 q c j j366 unfolding k_def by linarith+
  have day: "year_start n + j = 1460 * q + k" "year_start n + j = 36524 * c + (365 * (n - 100 * c) + (q - 25 * c) + j)"
    using start n4(1) by (simp_all add: k_def)
  have last: "j = 365 \<Longrightarrow> r = 3 \<and> n \<noteq> 100 * c + 99" using j leap False by (auto split: if_splits)
  have "365 * (n - 100 * c) + (q - 25 * c) + j < 36524"
  proof (cases "j = 365")
    case True
    with last n100(2) have "n - 100 * c \<le> 98" by simp
    then have "365 * (n - 100 * c) \<le> 365 * 98" by (intro mult_left_mono) auto
    with True q(2) show ?thesis by simp
  next
    case False
    from n100(2) have "365 * (n - 100 * c) \<le> 365 * 99" by (intro mult_left_mono) auto
    with False j366 q(2) show ?thesis by simp
  qed
  moreover have "0 \<le> 365 * (n - 100 * c) + (q - 25 * c) + j" using q(1) n100(1) j(1) by simp
  ultimately have "(year_start n + j) div 36524 = c" using int_div_pos_eq [OF day(2)] by simp
  moreover have "(year_start n + j) div 146096 = 0"
  proof (intro div_pos_pos_trivial)
    show "0 \<le> year_start n + j" using start j(1) q(1) n(1) c(1) by linarith
    have "365 * n + j \<le> 365 * 399 + 364" using n(2) j366 False by (cases "n = 399") auto
    with start q(2) c(2) show "year_start n + j < 146096" by linarith
  qed
  moreover have "(year_start n + j) div 1460 = (if 1460 \<le> k then q + 1 else q)"
    using k int_div_pos_eq [OF day(1)] int_div_pos_eq [of "year_start n + j" 1460 "q + 1" "k - 1460"] day(1) by auto
  ultimately have index: "year_index (year_start n + j) = 365 * n + (if 1460 \<le> k then j - 1 else j)"
    by (simp add: year_index_def start)
  have "1460 \<le> k \<Longrightarrow> 1 \<le> j" using n4 q c by (simp add: k_def)
  moreover have "j = 365 \<Longrightarrow> 1460 \<le> k" using last q c by (simp add: k_def)
  moreover have "\<not> 1460 \<le> k \<Longrightarrow> j < 365" using last q c j366 by (cases "j = 365") (simp_all add: k_def)
  ultimately show ?thesis using j j366 unfolding index by (intro int_div_pos_eq [OF refl]) (auto split: if_splits)
qed

lemma day_in_year:
  assumes "0 \<le> doe" and "0 \<le> n" and "doe < year_start n"
  shows "\<exists>k. 0 \<le> k \<and> k < n \<and> year_start k \<le> doe \<and> doe < year_start (k + 1)"
  using assms(2,3)
proof (induction n rule: int_ge_induct)
  case base
  with assms(1) show ?case by (simp add: year_start_def)
next
  case (step n)
  show ?case
  proof (cases "doe < year_start n")
    case True
    with step.IH obtain k where "0 \<le> k" "k < n" "year_start k \<le> doe" "doe < year_start (k + 1)" by auto
    then show ?thesis by (intro exI [of _ k]) simp
  next
    case False
    with step show ?thesis by (intro exI [of _ n]) simp
  qed
qed

text \<open>Months counted from March: the days before each, and the month and day of each day of the year.\<close>

definition month_start :: "int \<Rightarrow> int" where
  "month_start mp = (153 * mp + 2) div 5"

definition month_ok :: "int \<Rightarrow> bool" where
  "month_ok doy =
     (let mp = (5 * doy + 2) div 153; d = doy - month_start mp + 1; m = (if mp < 10 then mp + 3 else mp - 9) in
      0 \<le> mp \<and> mp \<le> 11 \<and> 1 \<le> d \<and>
      d \<le> (if m = 2 then (if doy = 365 then 29 else 28) else daysBefore ! nat m - daysBefore ! nat (m - 1)) \<and>
      daysBefore ! nat (m - 1) = (if mp < 10 then month_start mp + 59 else month_start mp - 306))"

lemma months_ok: "list_all month_ok [0..365]"
  by code_simp

lemma div_shift: "0 < k \<Longrightarrow> a = k * x \<Longrightarrow> (n + a) div k = n div k + (x::int)"
  by simp

lemma mod_shift: "a = k * x \<Longrightarrow> (n + a) mod k = n mod (k::int)"
  by simp

lemma era_shift:
  "year_start (n + 400 * e) = year_start n + 146097 * e" "isLeap (n + 400 * e) = isLeap n"
proof -
  have k: "400 * e = 4 * (100 * e)" "400 * e = 100 * (4 * e)" "400 * e = 400 * e" by simp_all
  note d = div_shift [OF zero_less_numeral k(1)] div_shift [OF zero_less_numeral k(2)] div_shift [OF zero_less_numeral k(3)]
  note m = mod_shift [OF k(1)] mod_shift [OF k(2)] mod_shift [OF k(3)]
  show "year_start (n + 400 * e) = year_start n + 146097 * e" unfolding year_start_def d by simp
  show "isLeap (n + 400 * e) = isLeap n" unfolding isLeap_def m ..
qed

text \<open>The date of a day is a date of the calendar, and its day is the day it came from.\<close>

lemma civil_days:
  assumes "civil days = (y, m, d)"
  shows "days_of y m d = days \<and> 1 \<le> m \<and> m \<le> 12 \<and> 1 \<le> d \<and> d \<le> daysIn m y"
proof -
  define era doe where "era = (days + 719468) div 146097" and "doe = (days + 719468) mod 146097"
  have days: "days = 146097 * era + doe - 719468" by (simp add: era_def doe_def)
  have doe: "0 \<le> doe" "doe < year_start 400" by (simp_all add: doe_def year_start_def)
  from day_in_year [OF doe(1) _ doe(2)] obtain n
    where n: "0 \<le> n" "n < 400" "year_start n \<le> doe" "doe < year_start (n + 1)" by auto
  define doy where "doy = doe - year_start n"
  have doy: "0 \<le> doy" "doy < (if isLeap (n + 1) then 366 else 365)" "doe = year_start n + doy"
    using n(3,4) by (simp_all add: doy_def year_length)
  have yoe: "(doe - doe div 1460 + doe div 36524 - doe div 146096) div 365 = n"
    using year_of_day [OF n(1,2) doy(1,2)] by (simp add: year_index_def doy(3))
  have inner: "doe - (365 * n + n div 4 - n div 100) = doy" using n by (simp add: doy_def year_start_def)
  define mp where "mp = (5 * doy + 2) div 153"
  have date: "y = n + era * 400 + (if m \<le> 2 then 1 else 0)" "m = (if mp < 10 then mp + 3 else mp - 9)"
    "d = doy - month_start mp + 1"
    using assms unfolding civil_def Let_def era_def [symmetric] doe_def [symmetric] yoe inner mp_def [symmetric]
    by (auto simp: month_start_def)
  have "doy \<le> 365" using doy(2) by (simp split: if_splits)
  then have "month_ok doy" using months_ok doy(1) by (simp add: list_all_iff)
  then have ok: "0 \<le> mp" "mp \<le> 11" "1 \<le> d"
    "d \<le> (if m = 2 then (if doy = 365 then 29 else 28) else daysBefore ! nat m - daysBefore ! nat (m - 1))"
    "daysBefore ! nat (m - 1) = (if mp < 10 then month_start mp + 59 else month_start mp - 306)"
    unfolding month_ok_def Let_def mp_def [symmetric] date(2,3) [symmetric] by blast+
  let ?g = "n + 400 * era"
  have succ: "?g + 1 = (n + 1) + 400 * era" by simp
  have g: "year_start ?g = 146097 * era + doe - doy" "isLeap (?g + 1) = isLeap (n + 1)"
    using doy(3) era_shift(1) [of n era] era_shift(2) [of "n + 1" era] unfolding succ by simp_all
  have of: "days_of y m d = year_start (y - 1) + daysBefore ! nat (m - 1) + (if isLeap y \<and> 3 \<le> m then 1 else 0) + d - 1 - 719162"
    by (simp add: days_of_def year_start_def)
  have "days_of y m d = days \<and> d \<le> daysIn m y \<and> 1 \<le> m \<and> m \<le> 12"
  proof (cases "mp < 10")
    case True
    have y: "y = ?g" using date(1,2) True ok(1) by simp
    have "year_start ?g = year_start (?g - 1) + (if isLeap ?g then 366 else 365)" using year_length [of "?g - 1"] by simp
    with g(1) ok of days date(2,3) True show ?thesis unfolding y by (cases "isLeap ?g") (simp_all add: daysIn_def)
  next
    case False
    have y: "y = ?g + 1" "m \<le> 2" using date(1,2) False ok(2) by simp_all
    have "doy = 365 \<Longrightarrow> isLeap (n + 1)" using doy(2) by (simp split: if_splits)
    with g ok of days date(2,3) False y show ?thesis by (auto simp: daysIn_def daysBefore_def split: if_splits)
  qed
  with ok(3) show ?thesis by blast
qed

subsection \<open>Reading back a formatted time\<close>

lemma digits_of_length: "0 \<le> n \<Longrightarrow> n < 10 ^ k \<Longrightarrow> 0 < k \<Longrightarrow> length (digits_of n) \<le> k"
proof (induction n arbitrary: k rule: digits_of.induct)
  case (1 n)
  show ?case
  proof (cases "n < 10")
    case True
    with 1 show ?thesis by (subst digits_of.simps) simp
  next
    case False
    with 1(3) obtain k' where k: "k = Suc k'" "0 < k'" by (cases k; cases "k - 1") auto
    with False 1 have "length (digits_of (n div 10)) \<le> k'" by simp
    with False k show ?thesis by (subst digits_of.simps) simp
  qed
qed

lemma foldl_zeros: "foldl (\<lambda>n c. 10 * n + digit_int c) v (replicate j (CHR ''0'')) = v * 10 ^ j"
  by (induction j arbitrary: v) (simp_all add: digit_int_def)

lemma digits_val_zeros:
  "digits_val (replicate j (CHR ''0'') @ s) = digits_val s" "digits_val (s @ replicate j (CHR ''0'')) = digits_val s * 10 ^ j"
  by (simp_all add: digits_val_def foldl_zeros)

lemma pad_facts:
  assumes "0 \<le> n" and "n < 10 ^ k" and "0 < k"
  shows "length (pad k n) = k" "list_all is_digit (pad k n)" "digits_val (pad k n) = n"
proof -
  show "length (pad k n) = k" using digits_of_length [OF assms] by (simp add: pad_def)
  have "list_all is_digit (replicate j (CHR ''0''))" for j by (simp add: list_all_iff is_digit_def)
  then show "list_all is_digit (pad k n)" by (simp add: pad_def digits_of_digits)
  show "digits_val (pad k n) = n" using assms(1) by (simp add: pad_def digits_val_zeros)
qed

lemma get_year_pad: "0 \<le> y \<Longrightarrow> y < 10000 \<Longrightarrow> get_year (pad 4 y @ s) = Some (y, s)"
  using pad_facts [of y 4] by (simp add: get_year_def)

lemma getnum_pad:
  assumes "0 \<le> n" and "n < 100"
  shows "getnum fixed (pad 2 n @ s) = Some (n, s)"
proof -
  note p = pad_facts [of n 2]
  from p assms obtain a b where ab: "pad 2 n = [a, b]" by (auto simp: length_Suc_conv numeral_2_eq_2)
  with p assms have "is_digit a" "is_digit b" "10 * digit_int a + digit_int b = n" by (simp_all add: digits_val_def)
  with ab show ?thesis by simp
qed

text \<open>The fraction without trailing zeros stands for the same number of nanoseconds.\<close>

lemma get_fraction_strip:
  fixes n :: int
  assumes "0 \<le> n" and "n < 10 ^ 9"
  defines "f \<equiv> rev (dropWhile (\<lambda>c. c = CHR ''0'') (rev (pad 9 n)))"
  shows "get_fraction ((if f = [] then [] else CHR ''.'' # f) @ ''Z'') = (n, ''Z'')"
proof -
  let ?z = "takeWhile (\<lambda>c. c = CHR ''0'') (rev (pad 9 n))"
  note p = pad_facts [of n 9, OF assms(1,2)]
  have "rev (pad 9 n) = ?z @ rev f" by (simp add: f_def)
  moreover have "?z = replicate (length ?z) (CHR ''0'')"
    by (rule replicate_length_same [symmetric]) (auto dest: set_takeWhileD)
  ultimately have split: "pad 9 n = f @ replicate (length ?z) (CHR ''0'')"
    by (metis rev_append rev_replicate rev_rev_ident)
  then have len: "length f + length ?z = 9" using p(1) by (metis length_append length_replicate zero_less_numeral)
  have val: "digits_val f * 10 ^ length ?z = n" using p(3) split by (metis digits_val_zeros(2) zero_less_numeral)
  have digits: "list_all is_digit f" using p(2) split by (metis list_all_append zero_less_numeral)
  show ?thesis
  proof (cases f)
    case Nil
    then show ?thesis using val by (simp add: get_fraction_def digits_val_def)
  next
    case (Cons d ds)
    have stop: "takeWhile is_digit (f @ ''Z'') = f" "dropWhile is_digit (f @ ''Z'') = ''Z''"
      using digits by (simp_all add: takeWhile_append dropWhile_append list_all_iff is_digit_def)
    have "9 - length f = length ?z" "take 9 f = f" using len by simp_all
    then have "parseNanoseconds f = n" using val by (simp add: parseNanoseconds_def)
    with stop Cons digits show ?thesis by (simp add: get_fraction_def)
  qed
qed

lemma month_table:
  "list_all (\<lambda>m. 0 \<le> daysBefore ! nat (m - 1) \<and> daysBefore ! nat (m - 1) \<le> 334 \<and> daysBefore ! nat m - daysBefore ! nat (m - 1) \<le> 31) [1..12]"
  by code_simp

lemma month_bounds:
  assumes "1 \<le> m" and "m \<le> 12"
  shows "0 \<le> daysBefore ! nat (m - 1) \<and> daysBefore ! nat (m - 1) \<le> 334 \<and> daysIn m y \<le> 31"
  using month_table assms by (simp add: list_all_iff daysIn_def)

lemma year_range:
  assumes "civil days = (y, m, d)" and "0 \<le> days" and "days < 2932897"
  shows "0 \<le> y \<and> y \<le> 9999"
proof -
  note c = civil_days [OF assms(1)]
  have "0 \<le> daysBefore ! nat (m - 1) \<and> daysBefore ! nat (m - 1) \<le> 334 \<and> daysIn m y \<le> 31"
    using month_bounds c by blast
  moreover have "days = year_start (y - 1) + daysBefore ! nat (m - 1) + (if isLeap y \<and> 3 \<le> m then 1 else 0) + d - 1 - 719162"
    using c by (simp add: days_of_def year_start_def)
  ultimately have "year_start (y - 1) - 719162 \<le> days" "days \<le> year_start (y - 1) - 719162 + 366"
    using c by (auto split: if_splits)
  moreover have "y < 0 \<Longrightarrow> year_start (y - 1) \<le> year_start (- 2)" "10000 \<le> y \<Longrightarrow> year_start 9999 \<le> year_start (y - 1)"
    by (auto intro: year_start_mono)
  ultimately show ?thesis using assms(2,3) by (cases "y < 0"; cases "10000 \<le> y") (simp_all add: year_start_def [of "- 2"] year_start_def [of 9999])
qed

lemma get_date_text:
  assumes "0 \<le> y" and "y \<le> 9999" and "1 \<le> m" and "m \<le> 12" and "1 \<le> d" and "d < 100"
  shows "get_date (pad 4 y @ ''-'' @ pad 2 m @ ''-'' @ pad 2 d @ r) = Some ((y, m, d), r)"
  using assms get_year_pad [of y] getnum_pad [of m True] getnum_pad [of d True] by (simp add: get_date_def in_range_def)

lemma get_clock_text:
  assumes "0 \<le> h" and "h < 24" and "0 \<le> mi" and "mi < 60" and "0 \<le> se" and "se < 60"
  shows "get_clock (pad 2 h @ '':'' @ pad 2 mi @ '':'' @ pad 2 se @ r) = Some (h * 3600 + mi * 60 + se, r)"
  using assms getnum_pad [of h False] getnum_pad [of mi True] getnum_pad [of se True] by (simp add: get_clock_def in_range_def)

lemma Parse_Format:
  assumes "0 \<le> t" and "t < 253402300800 * second"
  shows "ParseRFC3339Nano (rfc3339nano t) = Some t"
proof -
  define s where "s = t div second mod 86400"
  define days where "days = t div second div 86400"
  obtain y m d where c: "civil days = (y, m, d)" by (cases "civil days")
  have t: "t = (days * 86400 + s) * second + t mod second" by (simp add: s_def days_def)
  have "0 \<le> days" "days < 2932897" using assms by (simp_all add: days_def)
  note y = year_range [OF c this] and cd = civil_days [OF c]
  have d31: "d < 100" using cd month_bounds [of m y] by linarith
  have s: "0 \<le> s" "s < 86400" by (simp_all add: s_def)
  then have hms: "s div 3600 < 24" "s div 60 mod 60 < 60" "s mod 60 < 60" "0 \<le> s div 3600" by auto
  have clock: "s div 3600 * 3600 + s div 60 mod 60 * 60 + s mod 60 = s"
  proof -
    have "s div 3600 = s div 60 div 60" using zdiv_zmult2_eq [of 60 s 60] by simp
    then show ?thesis using mult_div_mod_eq [of 60 "s div 60"] mult_div_mod_eq [of 60 s] by linarith
  qed
  have time: "get_clock (pad 2 (s div 3600) @ '':'' @ pad 2 (s div 60 mod 60) @ '':'' @ pad 2 (s mod 60) @ r) = Some (s, r)" for r
    using get_clock_text [of "s div 3600" "s div 60 mod 60" "s mod 60" r] hms unfolding clock by simp
  note date = get_date_text [OF _ _ _ _ _ d31]
  define f where "f = (let f = rev (dropWhile (\<lambda>c. c = CHR ''0'') (rev (pad 9 (t mod second)))) in if f = [] then [] else CHR ''.'' # f)"
  have fraction: "get_fraction (f @ ''Z'') = (t mod second, ''Z'')"
    using get_fraction_strip [of "t mod second"] by (simp add: Let_def f_def)
  have written: "rfc3339nano t = pad 4 y @ ''-'' @ pad 2 m @ ''-'' @ pad 2 d @ ''T'' @
      pad 2 (s div 3600) @ '':'' @ pad 2 (s div 60 mod 60) @ '':'' @ pad 2 (s mod 60) @ f @ ''Z''"
    using c by (simp add: rfc3339nano_def date_time_def Let_def days_def s_def f_def)
  have "skip_char (CHR ''T'') (''T'' @ r) = Some r" "get_zone ''Z'' = Some (0, [])" for r
    by (simp_all add: get_zone_def HasPrefix_def)
  then have "ParseRFC3339Nano (rfc3339nano t) = Some ((days * 86400 + s) * second + t mod second)"
    unfolding written ParseRFC3339Nano_def using y cd
    by (simp add: date time fraction in_range_def del: append.simps skip_char.simps)
  then show ?thesis using t by simp
qed

end
