(* ===== verification/SensorHistory.thy ===== *)
theory SensorHistory
  imports Hardware TimeParse
begin

text \<open>
  The in-memory sensor history (\<open>sensor_history.go\<close>): a list of samples, oldest first, bounded
  to the most recent 300, and the age of a sample.

  Shown here: after any sequence of recordings the store holds exactly the last 300 samples of
  that sequence, in order (a refinement of the unbounded log); the age of a recorded sample is
  the time that passed since its telemetry was collected.
\<close>

record SensorHistorySample =
  shTimestamp :: bytes
  shCPUTemperature :: float64
  shCPUTemperatureSource :: bytes
  shGPUTemperature :: float64
  shGPUTemperatureSource :: bytes
  shCPUUsage :: float64
  shGPUUsage :: float64
  shPowerWatts :: float64
  shFanRPM :: float64
  shMemoryUsage :: float64

definition maxSensorHistorySamples :: nat where
  "maxSensorHistorySamples = 300"

definition sample_of :: "HardwareMetrics \<Rightarrow> SensorHistorySample" where
  "sample_of m =
     \<lparr>shTimestamp = MetricsCollectedAt m, shCPUTemperature = CPUTemperature m,
      shCPUTemperatureSource = CPUTemperatureSource m, shGPUTemperature = GPUTemperature m,
      shGPUTemperatureSource = GPUTemperatureSource m, shCPUUsage = CPUUsage m,
      shGPUUsage = GPUUsage m, shPowerWatts = PowerWatts m, shFanRPM = FanRPM m,
      shMemoryUsage = MemoryUsage m\<rparr>"

definition recordSensorHistory :: "HardwareMetrics \<Rightarrow> SensorHistorySample list \<Rightarrow> SensorHistorySample list" where
  "recordSensorHistory m samples =
     (if MetricsCollectedAt m = [] then samples
      else let samples' = samples @ [sample_of m] in
        if length samples' > maxSensorHistorySamples
        then drop (length samples' - maxSensorHistorySamples) samples'
        else samples')"

text \<open>\<open>omitempty\<close> drops a member that is zero or empty.\<close>

definition omit_float :: "bytes \<Rightarrow> float64 \<Rightarrow> (bytes \<times> json) list" where
  "omit_float k x = (if feq x (Fin 0) then [] else [(k, json_float x)])"

definition omit_string :: "bytes \<Rightarrow> bytes \<Rightarrow> (bytes \<times> json) list" where
  "omit_string k s = (if s = [] then [] else [(k, JStr s)])"

definition sample_json :: "SensorHistorySample \<Rightarrow> json" where
  "sample_json s = JObj ((''timestamp'', JStr (shTimestamp s)) #
     omit_float ''cpuTemperature'' (shCPUTemperature s) @
     omit_string ''cpuTemperatureSource'' (shCPUTemperatureSource s) @
     omit_float ''gpuTemperature'' (shGPUTemperature s) @
     omit_string ''gpuTemperatureSource'' (shGPUTemperatureSource s) @
     omit_float ''cpuUsage'' (shCPUUsage s) @ omit_float ''gpuUsage'' (shGPUUsage s) @
     omit_float ''powerWatts'' (shPowerWatts s) @ omit_float ''fanRpm'' (shFanRPM s) @
     omit_float ''memoryUsage'' (shMemoryUsage s))"

text \<open>The snapshot, with the map keys in the sorted order of the encoder; an empty copy is a nil
  slice, which encodes as \<open>null\<close>.\<close>

definition sensorHistorySnapshot :: "SensorHistorySample list \<Rightarrow> json" where
  "sensorHistorySnapshot samples = JObj
     [(''capacity'', JNum (FormatInt (int maxSensorHistorySamples))),
      (''localOnly'', JBool True),
      (''persistent'', JBool False),
      (''sampleCount'', JNum (FormatInt (int (length samples)))),
      (''samples'', if samples = [] then JNull else JArr (map sample_json samples))]"

definition sensorHistoryAge :: "SensorHistorySample \<Rightarrow> int \<Rightarrow> int \<times> bool" where
  "sensorHistoryAge sample now =
     (case ParseRFC3339Nano (shTimestamp sample) of
        None \<Rightarrow> (0, False)
      | Some parsed \<Rightarrow> if parsed > now + second then (0, False) else (time_Sub now parsed, True))"

lemma record_last_n:
  "recordSensorHistory m samples =
     (if MetricsCollectedAt m = [] then samples
      else if length samples < maxSensorHistorySamples then samples @ [sample_of m]
      else last_n maxSensorHistorySamples (samples @ [sample_of m]))"
  by (auto simp: recordSensorHistory_def Let_def last_n_def)

text \<open>The unbounded log of every sample that was recorded.\<close>

definition history_log :: "HardwareMetrics list \<Rightarrow> SensorHistorySample list" where
  "history_log ms = map sample_of (filter (\<lambda>m. MetricsCollectedAt m \<noteq> []) ms)"

lemma record_step:
  "recordSensorHistory m (last_n maxSensorHistorySamples l) =
     last_n maxSensorHistorySamples (if MetricsCollectedAt m = [] then l else l @ [sample_of m])"
proof -
  have pos: "0 < maxSensorHistorySamples" by (simp add: maxSensorHistorySamples_def)
  show ?thesis
    using last_n_snoc [OF pos, of l "sample_of m"]
    by (auto simp: record_last_n)
qed

lemma history_refines:
  "fold recordSensorHistory ms (last_n maxSensorHistorySamples l) =
     last_n maxSensorHistorySamples (l @ history_log ms)"
  by (induction ms arbitrary: l) (auto simp: record_step history_log_def)

subsection \<open>Properties\<close>

text \<open>The bounded store refines the unbounded log: after any sequence of recordings, starting from the empty
  store, it holds exactly the last 300 of the samples that carried a collection time, oldest first.\<close>

theorem history_is_recent_log:
  "fold recordSensorHistory ms [] = last_n 300 (history_log ms) \<and> length (fold recordSensorHistory ms []) \<le> 300"
  using history_refines [of ms "[]"] by (simp add: last_n_def maxSensorHistorySamples_def)

text \<open>C38: the age of a recorded sample is right: telemetry that was stamped at a time of the years 1970 to 9999 becomes the last
  sample of the history, and the age read from its time stamp is the time that passed since, to the nanosecond (as a 64-bit
  duration); no age is reported if the stamp lies more than a second in the future.\<close>

theorem recorded_sample_age:
  assumes "MetricsCollectedAt m = rfc3339nano t" and "0 \<le> t" and "t < 253402300800 * 1000000000"
  shows "recordSensorHistory m samples \<noteq> [] \<and>
    sensorHistoryAge (last (recordSensorHistory m samples)) now =
      (if now + 1000000000 < t then (0, False) else (max (- (2 ^ 63)) (min (2 ^ 63 - 1) (now - t)), True))"
proof -
  have "recordSensorHistory m samples \<noteq> [] \<and> last (recordSensorHistory m samples) = sample_of m"
    using assms(1) by (auto simp: record_last_n last_n_def maxSensorHistorySamples_def)
  moreover have "shTimestamp (sample_of m) = rfc3339nano t" using assms(1) by (simp add: sample_of_def)
  ultimately show ?thesis
    using Parse_Format [OF assms(2,3)] by (simp add: sensorHistoryAge_def time_Sub_def)
qed

theorem recorded_sample_age_witness:
  "sensorHistoryAge (last (recordSensorHistory (emptyMetrics\<lparr>MetricsCollectedAt := rfc3339nano 1700000000123456789\<rparr>) [])) 1700000005123456789
    = (5000000000, True)"
  using recorded_sample_age [of "emptyMetrics\<lparr>MetricsCollectedAt := rfc3339nano 1700000000123456789\<rparr>" 1700000000123456789 "[]" 1700000005123456789]
  by simp

end
