(* ===== verification/Metrics.thy ===== *)
theory Metrics
  imports GameMode SensorHistory
begin

text \<open>
  Collection of the full telemetry on Linux (\<open>collectMetrics\<close> of \<open>main.go\<close> with
  \<open>platform_battery_linux.go\<close>, \<open>driver_info_linux.go\<close>, \<open>hardware_identity_linux.go\<close> and
  \<open>compatibility.go\<close>).  The results of gopsutil, \<open>nvidia-smi\<close> and \<open>lspci\<close> are inputs, one per
  call; \<open>None\<close> is an error of the call.  The list of storage volumes is an input as well.

  Shown here: what the reported control mode and thermal availability mean, that only valid
  temperatures are attributed to a source, and that full GPU features are only granted for an
  identified vendor.
\<close>

subsection \<open>Compatibility policy\<close>

definition applyCompatibilityPolicy :: "(bytes \<Rightarrow> bytes) \<Rightarrow> HardwareMetrics \<Rightarrow> HardwareMetrics" where
  "applyCompatibilityPolicy lowerU m =
     (let status = ToLower lowerU (TrimSpace (GPUDriverStatus m));
          vendor = ToLower lowerU (TrimSpace (GPUVendor m));
          m1 = (if status = ''ok'' then
                  m\<lparr>GPUDriverAction := ''full_features'',
                    GPUDriverReason := ''GPU driver detected and telemetry backend is available.''\<rparr>
                else if status = ''unsigned'' then
                  m\<lparr>GPUDriverAction := ''safe_mode'',
                    GPUDriverReason := ''Display driver was detected but Windows reports it as unsigned.''\<rparr>
                else if status = ''unavailable'' then
                  m\<lparr>GPUDriverAction := ''monitor_only'',
                    GPUDriverReason := ''GPU driver could not be identified; hardware control is restricted.''\<rparr>
                else if status = ''unsupported'' then
                  m\<lparr>GPUDriverAction := ''monitor_only'',
                    GPUDriverReason := ''This platform does not provide a supported GPU driver detector.''\<rparr>
                else
                  m\<lparr>GPUDriverAction := ''safe_mode'',
                    GPUDriverReason := ''Driver compatibility could not be determined safely.''\<rparr>)
      in if GPUDriverAction m1 = ''full_features'' \<and> vendor = [] then
           m1\<lparr>GPUDriverAction := ''safe_mode'',
              GPUDriverReason := ''Driver is present, but GPU vendor identification is incomplete.''\<rparr>
         else m1)"

subsection \<open>Battery\<close>

definition batteryFile :: "os_view \<Rightarrow> bytes \<Rightarrow> bytes" where
  "batteryFile v path = (case osReadFile v path of None \<Rightarrow> [] | Some data \<Rightarrow> TrimSpace data)"

definition batteryNumber :: "os_view \<Rightarrow> bytes \<Rightarrow> float64 option" where
  "batteryNumber v path =
     (case ParseFloat (batteryFile v path) of (x, ok) \<Rightarrow> if ok \<and> isFinitePositive x then Some x else None)"

definition batteryCycleCount :: "os_view \<Rightarrow> bytes \<Rightarrow> int option" where
  "batteryCycleCount v path =
     (case Atoi (batteryFile v path) of
        None \<Rightarrow> None
      | Some n \<Rightarrow> if n < 0 \<or> n > 1000000 then None else Some n)"

definition battery_capacity :: "os_view \<Rightarrow> bytes \<Rightarrow> float64 \<times> float64 \<times> bytes" where
  "battery_capacity v device =
     (let full = (\<lambda>f. case batteryNumber v (JoinPath [device, f]) of
                        Some x \<Rightarrow> fdiv x (Fin 1000) | None \<Rightarrow> Fin 0) in
      case batteryNumber v (JoinPath [device, ''energy_full_design'']) of
        Some x \<Rightarrow> (fdiv x (Fin 1000), full ''energy_full'', ''mWh'')
      | None \<Rightarrow>
          (case batteryNumber v (JoinPath [device, ''charge_full_design'']) of
             Some x \<Rightarrow> (fdiv x (Fin 1000), full ''charge_full'', ''mAh'')
           | None \<Rightarrow> (Fin 0, Fin 0, [])))"

fun battery_loop :: "(bytes \<Rightarrow> bytes) \<Rightarrow> os_view \<Rightarrow> bytes list \<Rightarrow> BatteryMetrics" where
  "battery_loop lowerU v [] = emptyBattery\<lparr>batStatus := ''unavailable''\<rparr>"
| "battery_loop lowerU v (device # devices) =
     (if batteryFile v (JoinPath [device, ''present'']) = ''0'' then battery_loop lowerU v devices
      else let status0 = ToLower lowerU (batteryFile v (JoinPath [device, ''status'']));
               status = (if status0 = [] then ''unknown'' else status0)
           in case battery_capacity v device of (design, full, unit) \<Rightarrow>
                makeBatteryMetrics True status design full unit
                  (batteryCycleCount v (JoinPath [device, ''cycle_count''])))"

definition mergeBatteryMetrics :: "(bytes \<Rightarrow> bytes) \<Rightarrow> os_view \<Rightarrow> HardwareMetrics \<Rightarrow> HardwareMetrics" where
  "mergeBatteryMetrics lowerU v m =
     m\<lparr>Battery := battery_loop lowerU v
        (case osGlob v ''/sys/class/power_supply/BAT*'' of None \<Rightarrow> [] | Some ds \<Rightarrow> ds)\<rparr>"

subsection \<open>Driver and identity\<close>

definition drm_cards :: "os_view \<Rightarrow> bytes list" where
  "drm_cards v = (case osGlob v ''/sys/class/drm/card[0-9]*'' of None \<Rightarrow> [] | Some cs \<Rightarrow> cs)"

fun driver_loop :: "os_view \<Rightarrow> bytes list \<Rightarrow> HardwareMetrics \<Rightarrow> HardwareMetrics" where
  "driver_loop v [] m =
     (if GPUDriver m = []
      then m\<lparr>GPUDriverStatus := ''unavailable'', GPUDriverSource := ''Linux sysfs''\<rparr> else m)"
| "driver_loop v (c # cs) m =
     (let device = JoinPath [c, ''device''];
          vendor = TrimSpace (readFirstLine v (JoinPath [device, ''vendor'']))
      in if vendor = [] then driver_loop v cs m
         else case osReadlink v (JoinPath [device, ''driver'']) of
                None \<Rightarrow> driver_loop v cs m
              | Some driverLink \<Rightarrow>
                  let version = readFirstLine v (JoinPath [device, ''driver'', ''module'', ''version'']);
                      m1 = (if GPUVendor m = [] then
                              (if vendor = ''0x1002'' then m\<lparr>GPUVendor := ''AMD''\<rparr>
                               else if vendor = ''0x10de'' then m\<lparr>GPUVendor := ''NVIDIA''\<rparr>
                               else if vendor = ''0x8086'' then m\<lparr>GPUVendor := ''Intel''\<rparr>
                               else m) else m);
                      m2 = (if GPUDriver m1 = [] then m1\<lparr>GPUDriver := Base driverLink\<rparr> else m1);
                      m3 = m2\<lparr>GPUDriverStatus := ''ok'', GPUDriverSource := ''Linux sysfs''\<rparr>
                  in if version \<noteq> [] then m3\<lparr>GPUDriverVersion := version\<rparr> else m3)"

definition mergeDriverInfo :: "os_view \<Rightarrow> HardwareMetrics \<Rightarrow> HardwareMetrics" where
  "mergeDriverInfo v m = driver_loop v (drm_cards v) m"

record HardwareIdentity =
  hiSystemManufacturer :: bytes
  hiSystemModel :: bytes
  hiSystemVersion :: bytes
  hiBIOSVendor :: bytes
  hiBIOSVersion :: bytes
  hiMotherboardVendor :: bytes
  hiMotherboardModel :: bytes
  hiMotherboardVersion :: bytes
  hiCPUManufacturer :: bytes
  hiCPUModel :: bytes
  hiCPUArchitecture :: bytes
  hiCPUPhysicalCores :: int
  hiCPUThreads :: int
  hiGPUVendor :: bytes
  hiGPUModel :: bytes
  hiGPUDriver :: bytes
  hiGPUDriverVersion :: bytes
  hiDetectionSource :: bytes
  hiDetectionStatus :: bytes
  hiSerialsExcluded :: bool

definition emptyHardwareIdentity :: "bytes \<Rightarrow> HardwareIdentity" where
  "emptyHardwareIdentity goarch =
     \<lparr>hiSystemManufacturer = [], hiSystemModel = [], hiSystemVersion = [], hiBIOSVendor = [],
      hiBIOSVersion = [], hiMotherboardVendor = [], hiMotherboardModel = [], hiMotherboardVersion = [],
      hiCPUManufacturer = [], hiCPUModel = [], hiCPUArchitecture = goarch, hiCPUPhysicalCores = 0,
      hiCPUThreads = 0, hiGPUVendor = [], hiGPUModel = [], hiGPUDriver = [], hiGPUDriverVersion = [],
      hiDetectionSource = [], hiDetectionStatus = ''partial'', hiSerialsExcluded = True\<rparr>"

text \<open>\<open>cpuInfo\<close>: vendor and model of the first processor; \<open>counts\<close>: threads and cores.\<close>

record identity_env =
  ieView :: os_view
  ieCpuInfo :: "(bytes \<times> bytes) list option"
  ieThreads :: "int option"
  ieCores :: "int option"
  ieLspci :: "bytes option"

text \<open>The text after the first \<open>": "\<close>; \<open>None\<close> if it does not occur.\<close>

fun after_colon :: "bytes \<Rightarrow> bytes option" where
  "after_colon [] = None"
| "after_colon (c # s) = (if HasPrefix (c # s) '': '' then Some (drop 1 s) else after_colon s)"

definition collectHardwareIdentity :: "bytes \<Rightarrow> identity_env \<Rightarrow> HardwareIdentity" where
  "collectHardwareIdentity goarch env =
     (let v = ieView env;
          i0 = (emptyHardwareIdentity goarch)\<lparr>hiDetectionSource := ''Linux sysfs/proc'',
             hiSystemManufacturer := readFirstLine v ''/sys/class/dmi/id/sys_vendor'',
             hiSystemModel := readFirstLine v ''/sys/class/dmi/id/product_name'',
             hiSystemVersion := readFirstLine v ''/sys/class/dmi/id/product_version'',
             hiBIOSVendor := readFirstLine v ''/sys/class/dmi/id/bios_vendor'',
             hiBIOSVersion := readFirstLine v ''/sys/class/dmi/id/bios_version'',
             hiMotherboardVendor := readFirstLine v ''/sys/class/dmi/id/board_vendor'',
             hiMotherboardModel := readFirstLine v ''/sys/class/dmi/id/board_name'',
             hiMotherboardVersion := readFirstLine v ''/sys/class/dmi/id/board_version''\<rparr>;
          i1 = (case ieCpuInfo env of
                  Some ((vendorID, modelName) # _) \<Rightarrow>
                    (let i = i0\<lparr>hiCPUManufacturer := vendorID, hiCPUModel := modelName\<rparr>;
                         i = (case ieThreads env of Some n \<Rightarrow> i\<lparr>hiCPUThreads := n\<rparr> | None \<Rightarrow> i)
                     in case ieCores env of Some n \<Rightarrow> i\<lparr>hiCPUPhysicalCores := n\<rparr> | None \<Rightarrow> i)
                | _ \<Rightarrow> i0);
          i2 = (case drm_cards v of
                  [] \<Rightarrow> i1
                | c # _ \<Rightarrow>
                    (let device = JoinPath [c, ''device''];
                         vendor = readFirstLine v (JoinPath [device, ''vendor'']);
                         i = (if vendor = ''0x10de'' then i1\<lparr>hiGPUVendor := ''NVIDIA''\<rparr>
                              else if vendor = ''0x1002'' then i1\<lparr>hiGPUVendor := ''AMD''\<rparr>
                              else if vendor = ''0x8086'' then i1\<lparr>hiGPUVendor := ''Intel''\<rparr>
                              else if vendor \<noteq> [] then i1\<lparr>hiGPUVendor := vendor\<rparr> else i1)
                     in case osEvalSymlinks v (JoinPath [device, ''driver'']) of
                          Some link \<Rightarrow> i\<lparr>hiGPUDriver := Base link\<rparr>
                        | None \<Rightarrow> i));
          i3 = (case ieLspci env of
                  None \<Rightarrow> i2
                | Some output \<Rightarrow>
                    (let line = TrimSpace (takeWhile (\<lambda>c. c \<noteq> newline) output) in
                     case after_colon line of
                       Some rest \<Rightarrow> i2\<lparr>hiGPUModel := TrimSpace rest\<rparr>
                     | None \<Rightarrow> i2\<lparr>hiGPUModel := line\<rparr>))
      in if hiSystemModel i3 \<noteq> [] \<or> hiMotherboardModel i3 \<noteq> [] \<or> hiCPUModel i3 \<noteq> [] \<or> hiGPUVendor i3 \<noteq> []
         then i3\<lparr>hiDetectionStatus := ''ok''\<rparr> else i3)"

subsection \<open>The collection\<close>

record metrics_env =
  mePercent :: "float64 list option"
  meCpuInfo :: "(int \<times> float64) list option"
  meMemory :: "(float64 \<times> 64 word) option"
  meDisk :: "(float64 \<times> 64 word) option"
  meUptime :: "64 word option"
  meStorage :: "StorageVolume list"
  meTemps :: "sensor list option"
  meNvidia :: "bytes option"
  meMerge :: os_view
  meBattery :: os_view
  meList :: os_view
  meDetect :: os_view
  meGame :: game_env
  meIdentity :: identity_env
  meDriver :: os_view
  meCollectedAt :: int

definition cpu_usage :: "float64 list \<Rightarrow> float64" where
  "cpu_usage ps = fdiv (foldl fadd (Fin 0) ps) (fof_int (int (length ps)))"

text \<open>The first sensor that names the CPU decides, whether or not its reading is valid.\<close>

fun cpu_sensor :: "(bytes \<Rightarrow> bytes) \<Rightarrow> sensor list \<Rightarrow> HardwareMetrics \<Rightarrow> HardwareMetrics" where
  "cpu_sensor lowerU [] m = m"
| "cpu_sensor lowerU (s # ss) m =
     (let key = ToLower lowerU (SensorKey s) in
      if Contains key ''cpu'' \<or> Contains key ''package'' \<or> Contains key ''core'' then
        (if isValidTemperature (Temperature s) \<and> flt (Fin 0) (Temperature s)
         then m\<lparr>CPUTemperature := Temperature s,
                CPUTemperatureSource := ''gopsutil-host-sensors:'' @ SensorKey s\<rparr> else m)
      else cpu_sensor lowerU ss m)"

text \<open>\<open>x, _ = strconv.ParseUint(s, 10, 64)\<close>: 0 for a malformed text, the maximum for a large one.\<close>

definition uint_value :: "bytes \<Rightarrow> 64 word" where
  "uint_value s =
     (if s \<noteq> [] \<and> list_all is_digit s then word_of_int (min (digits_val s) (2 ^ 64 - 1)) else 0)"

definition float_value :: "bytes \<Rightarrow> float64" where
  "float_value s = fst (ParseFloat (TrimSpace s))"

text \<open>The fields of the first line of \<open>nvidia-smi\<close>.\<close>

definition nvidia_fields :: "bytes list \<Rightarrow> HardwareMetrics \<Rightarrow> HardwareMetrics" where
  "nvidia_fields parts m =
     (let m1 = m\<lparr>GPUName := TrimSpace (parts ! 0), GPUDriver := TrimSpace (parts ! 1)\<rparr>;
          (t, tok) = ParseFloat (TrimSpace (parts ! 2));
          m2 = (if tok \<and> isValidTemperature t \<and> flt (Fin 0) t
                then m1\<lparr>GPUTemperature := t, GPUTemperatureSource := ''nvidia-smi''\<rparr> else m1);
          m3 = m2\<lparr>GPUUsage := float_value (parts ! 3), GPUMemoryUsage := float_value (parts ! 4)\<rparr>;
          (f, fok) = ParseFloat (TrimSpace (parts ! 5));
          m4 = (if fok \<and> isFiniteNonNegative f \<and> fle f (Fin 100)
                then m3\<lparr>FanPercent := f, FanPercentSource := ''nvidia-smi''\<rparr> else m3)
      in m4\<lparr>PowerWatts := float_value (parts ! 6), GPUPowerLimitWatts := float_value (parts ! 7),
            Voltage := float_value (parts ! 8),
            GPUMemoryUsedBytes := uint_value (TrimSpace (parts ! 9)) * 1024 * 1024,
            GPUMemoryTotalBytes := uint_value (TrimSpace (parts ! 10)) * 1024 * 1024,
            GPUCoreClockMHz := float_value (parts ! 11), GPUMemoryClockMHz := float_value (parts ! 12),
            GPUPState := TrimSpace (parts ! 13), GPUEncoderUsage := float_value (parts ! 14),
            GPUDecoderUsage := float_value (parts ! 15), GPUVendor := ''NVIDIA'',
            SensorSource := ''nvidia-smi''\<rparr>)"

definition nvidia_line_step :: "bytes \<Rightarrow> float64 \<times> bool \<Rightarrow> float64 \<times> bool" where
  "nvidia_line_step line acc =
     (let parts = Split line (CHR '','') in
      if length parts < 3 then acc else nvidia_step (parts ! 2) acc)"

definition maxNvidiaGPUTemperatureFromMetricsOutput :: "bytes \<Rightarrow> float64 \<times> bool" where
  "maxNvidiaGPUTemperatureFromMetricsOutput output =
     fold nvidia_line_step (Split output newline) (Fin 0, False)"

definition merge_nvidia :: "bytes \<Rightarrow> HardwareMetrics \<Rightarrow> HardwareMetrics" where
  "merge_nvidia output m =
     (let line = hd (Split (TrimSpace output) newline);
          parts = Split line (CHR '','');
          m1 = (if TrimSpace line \<noteq> [] \<and> length parts \<ge> 16 then nvidia_fields parts m else m)
      in case maxNvidiaGPUTemperatureFromMetricsOutput output of (x, available) \<Rightarrow>
           if available
           then m1\<lparr>GPUTemperature := x, GPUTemperatureSource := ''nvidia-smi:max-gpu-temperature''\<rparr> else m1)"

definition basic_metrics :: "metrics_env \<Rightarrow> HardwareMetrics" where
  "basic_metrics env =
     (let m0 = emptyMetrics;
          m1 = (case mePercent env of
                  Some (p # ps) \<Rightarrow> m0\<lparr>CPUUsage := cpu_usage (p # ps), CPUPerCoreUsage := p # ps\<rparr>
                | _ \<Rightarrow> m0);
          m2 = (case meCpuInfo env of
                  Some ((cores, mhz) # _) \<Rightarrow> m1\<lparr>CPUCoreCount := cores, CPUFrequencyMHz := mhz\<rparr>
                | _ \<Rightarrow> m1);
          m3 = upd (meMemory env) (\<lambda>(u, t) m. m\<lparr>MemoryUsage := u, MemoryTotalBytes := t\<rparr>) m2;
          m4 = upd (meDisk env) (\<lambda>(u, t) m. m\<lparr>DiskUsage := u, DiskTotalBytes := t\<rparr>) m3;
          m5 = upd (meUptime env) (\<lambda>u m. m\<lparr>UptimeSeconds := u\<rparr>) m4
      in m5\<lparr>StorageVolumes := meStorage env\<rparr>)"

text \<open>Attribution of a temperature to a source, and the thermal availability.\<close>

definition attribute_sources :: "HardwareMetrics \<Rightarrow> HardwareMetrics" where
  "attribute_sources m =
     (let m2 = label_gpu (label_cpu m) in m2\<lparr>ThermalSafetyAvailable := thermal_available m2\<rparr>)"

definition identify :: "HardwareIdentity \<Rightarrow> HardwareMetrics \<Rightarrow> HardwareMetrics" where
  "identify i m =
     m\<lparr>SystemManufacturer := hiSystemManufacturer i, SystemModel := hiSystemModel i,
       SystemVersion := hiSystemVersion i, BIOSVendor := hiBIOSVendor i, BIOSVersion := hiBIOSVersion i,
       MotherboardVendor := hiMotherboardVendor i, MotherboardModel := hiMotherboardModel i,
       MotherboardVersion := hiMotherboardVersion i, CPUManufacturer := hiCPUManufacturer i,
       CPUModel := hiCPUModel i, CPUArchitecture := hiCPUArchitecture i,
       CPUPhysicalCores := hiCPUPhysicalCores i, CPUThreads := hiCPUThreads i,
       GPUModel := hiGPUModel i, DetectionSource := hiDetectionSource i,
       DetectionStatus := hiDetectionStatus i, SerialsExcluded := hiSerialsExcluded i\<rparr>"

definition add_game :: "GameModeState \<Rightarrow> HardwareMetrics \<Rightarrow> HardwareMetrics" where
  "add_game g m =
     m\<lparr>GameModeEnabled := gmEnabled g, GameDetected := gmGameDetected g, GameProcessName := gmProcessName g,
       GameProcessPID := gmPID g, GameDetectedAt := gmDetectedAt g,
       GameSessionDurationSeconds := gmSessionDurationSeconds g\<rparr>"

definition fan_capabilities :: "FanChannel list \<Rightarrow> FanControlInfo \<Rightarrow> HardwareMetrics \<Rightarrow> HardwareMetrics" where
  "fan_capabilities channels fanControl m =
     m\<lparr>FanChannels := channels, FanControlSupported := fciSupported fanControl,
       FanControlBackend := fciBackend fanControl,
       HardwareControlMode :=
         (if fciSupported fanControl \<or> anyControllableFanChannel channels
          then ''hardware-control'' else ''monitor-only'')\<rparr>"

text \<open>The unicode parameters and \<open>runtime.GOARCH\<close>.\<close>

record go_runtime =
  grLower :: "bytes \<Rightarrow> bytes"
  grEqualFold :: "bytes \<Rightarrow> bytes \<Rightarrow> bool"
  grArch :: bytes

definition sensed_metrics :: "go_runtime \<Rightarrow> metrics_env \<Rightarrow> HardwareMetrics" where
  "sensed_metrics rt env =
     (let m1 = upd (meTemps env) (\<lambda>ts. cpu_sensor (grLower rt) ts) (basic_metrics env);
          m2 = upd (meNvidia env) merge_nvidia m1
      in mergeBatteryMetrics (grLower rt) (meBattery env) (mergePlatformMetrics (meMerge env) m2))"

definition describe_metrics :: "go_runtime \<Rightarrow> metrics_env \<Rightarrow> GameModeState \<Rightarrow> HardwareMetrics \<Rightarrow> HardwareMetrics" where
  "describe_metrics rt env game m =
     (let m6 = identify (collectHardwareIdentity (grArch rt) (meIdentity env)) (add_game game m);
          m7 = applyCompatibilityPolicy (grLower rt) (mergeDriverInfo (meDriver env) m6)
      in (label_source (m7\<lparr>Platform := ''linux''\<rparr>))\<lparr>MetricsCollectedAt := rfc3339nano (meCollectedAt env)\<rparr>)"

definition collectMetrics ::
  "go_runtime \<Rightarrow> metrics_env \<Rightarrow> bool \<Rightarrow> game_session \<Rightarrow> SensorHistorySample list \<Rightarrow>
   HardwareMetrics \<times> game_session \<times> SensorHistorySample list" where
  "collectMetrics rt env enabled session history =
     (let m4 = fan_capabilities (listFanChannels (meList env)) (detectFanControl (meDetect env)) (sensed_metrics rt env);
          m5 = attribute_sources m4
      in case collectGameModeState (grLower rt) (grEqualFold rt) (meGame env) enabled session of (game, session') \<Rightarrow>
        let m8 = describe_metrics rt env game m5 in (m8, session', recordSensorHistory m8 history))"

subsection \<open>What the later stages keep\<close>

text \<open>The fields the control decisions rest on, together.\<close>

definition control_view :: "HardwareMetrics \<Rightarrow> bytes \<times> FanChannel list \<times> bool \<times> bool \<times> float64 \<times> float64 \<times> bytes \<times> bytes" where
  "control_view m = (HardwareControlMode m, FanChannels m, FanControlSupported m, ThermalSafetyAvailable m,
     CPUTemperature m, GPUTemperature m, CPUTemperatureSource m, GPUTemperatureSource m)"

lemma policy_view [simp]: "control_view (applyCompatibilityPolicy lowerU m) = control_view m"
  by (simp add: applyCompatibilityPolicy_def Let_def control_view_def)

lemma driver_loop_view: "control_view (driver_loop v cs m) = control_view m"
  by (induction cs) (simp_all add: Let_def control_view_def split: option.split)

lemma label_source_view [simp]: "control_view (label_source m) = control_view m"
  by (simp add: label_source_def control_view_def)

lemma describe_view: "control_view (describe_metrics rt env game m) = control_view m"
proof -
  have "control_view (identify i (add_game g m)) = control_view m" for i g
    by (simp add: identify_def add_game_def control_view_def)
  moreover have "control_view (x\<lparr>Platform := p\<rparr>) = control_view x" "control_view (x\<lparr>MetricsCollectedAt := t\<rparr>) = control_view x"
    for x p t by (simp_all add: control_view_def)
  ultimately show ?thesis by (simp add: describe_metrics_def Let_def mergeDriverInfo_def driver_loop_view)
qed

lemma collect_view:
  "control_view (fst (collectMetrics rt env enabled session history)) =
   control_view (attribute_sources (fan_capabilities (listFanChannels (meList env)) (detectFanControl (meDetect env))
     (sensed_metrics rt env)))"
  by (simp add: collectMetrics_def Let_def describe_view split: prod.split)

lemma attribute_keeps:
  "HardwareControlMode (attribute_sources m) = HardwareControlMode m" "FanChannels (attribute_sources m) = FanChannels m"
  "ThermalSafetyAvailable (attribute_sources m) = thermal_available (attribute_sources m)"
  by (simp_all add: attribute_sources_def Let_def label_cpu_def label_gpu_def thermal_available_def)

lemma policy_action:
  "GPUDriverAction (applyCompatibilityPolicy lowerU m) = ''full_features'' \<longleftrightarrow>
     ToLower lowerU (TrimSpace (GPUDriverStatus m)) = ''ok'' \<and> ToLower lowerU (TrimSpace (GPUVendor m)) \<noteq> []"
  "GPUDriverAction (applyCompatibilityPolicy lowerU m) \<in> {''full_features'', ''safe_mode'', ''monitor_only''}"
  by (auto simp: applyCompatibilityPolicy_def Let_def)

subsection \<open>Properties\<close>

text \<open>The reported capabilities are those detected: hardware control is reported exactly when the fan backend was
  detected or a listed channel is controllable, the listed channels are the backend's, and thermal safety is reported
  exactly when one of the reported temperatures has a source, is valid and is above zero.\<close>

theorem reported_capabilities:
  fixes rt env enabled session history
  defines "m \<equiv> fst (collectMetrics rt env enabled session history)"
  shows "(HardwareControlMode m = ''hardware-control'' \<longleftrightarrow>
      fciSupported (detectFanControl (meDetect env)) \<or> (\<exists>ch \<in> set (FanChannels m). controllableChannel ch)) \<and>
    FanChannels m = listFanChannels (meList env) \<and> (ThermalSafetyAvailable m \<longleftrightarrow> thermal_available m)"
proof -
  let ?m = "fan_capabilities (listFanChannels (meList env)) (detectFanControl (meDetect env)) (sensed_metrics rt env)"
  have v: "control_view m = control_view (attribute_sources ?m)" unfolding m_def by (rule collect_view)
  then have "HardwareControlMode m = HardwareControlMode ?m" "FanChannels m = FanChannels ?m"
    and "ThermalSafetyAvailable m = ThermalSafetyAvailable (attribute_sources ?m)"
    and "thermal_available m = thermal_available (attribute_sources ?m)"
    by (simp_all add: control_view_def attribute_keeps(1,2) thermal_available_def)
  then show ?thesis by (simp add: fan_capabilities_def anyControllable_iff attribute_keeps(3))
qed

text \<open>Full GPU features are granted exactly for a driver whose status is \<open>ok\<close> and whose vendor was identified; every
  other driver is put in safe mode or monitor-only mode.\<close>

theorem full_features_policy:
  "GPUDriverAction (applyCompatibilityPolicy lowerU m) = ''full_features'' \<longleftrightarrow>
     ToLower lowerU (TrimSpace (GPUDriverStatus m)) = ''ok'' \<and> ToLower lowerU (TrimSpace (GPUVendor m)) \<noteq> []"
  by (rule policy_action(1))

end
