(* ===== verification/Connection.thy ===== *)
theory Connection
  imports Replay FetchStatus AudioProbe Metrics
begin

text \<open>
  One client connection (\<open>handleConnection\<close> and \<open>readBoundedRequest\<close> of \<open>main.go\<close>).  The
  connection keeps its failure counters and the time of the last command; the replay cache, the
  game-mode flag, the power daemon, the canary, the audio session, the game session and the
  sensor history are shared by all connections.  The environment of a request says what every
  call made on its behalf sees: clocks, the integrity flag, the panic file, the telemetry.

  Text that \<open>encoding/json\<close> derives from the large telemetry structs, and the answer of the
  update server, are parameters of the environment.

  Shown here: a request handed to the parser is bounded; a response is tied to the nonce of its
  request; a connection that goes on has fewer than five failures of each kind on record; the
  commands of one connection are at least 100 milliseconds apart; and a request that arrives in
  panic mode changes neither the hardware nor the control state.
\<close>

subsection \<open>Bounded requests\<close>

text \<open>The results of successive calls of \<open>ReadSlice\<close>: a fragment that ends in a newline, a full
  buffer, or an error (also the deadline and the end of the stream).\<close>

datatype slice = SLine bytes | SFull bytes | SErr bytes

datatype request = RqLine bytes | RqTooLarge | RqError

fun readBoundedRequest :: "nat \<Rightarrow> bytes \<Rightarrow> slice list \<Rightarrow> request \<times> slice list" where
  "readBoundedRequest limit line [] = (RqError, [])"
| "readBoundedRequest limit line (SLine f # fs) =
     (if length (line @ f) > limit then (RqTooLarge, fs) else (RqLine (line @ f), fs))"
| "readBoundedRequest limit line (SFull f # fs) =
     (if length (line @ f) > limit then (RqTooLarge, fs) else readBoundedRequest limit (line @ f) fs)"
| "readBoundedRequest limit line (SErr f # fs) =
     (if length (line @ f) > limit then (RqTooLarge, fs) else (RqError, fs))"

definition maxRequestBytes :: nat where
  "maxRequestBytes = 64 * 1024"

subsection \<open>State and environment\<close>

record conn_state =
  cnAuthFailures :: nat
  cnInvalidRequests :: nat
  cnLastCommandAt :: "int option"

record 'w shared =
  shNonces :: nonce_cache
  shExec :: "'w exec_state"
  shSec :: sec_state
  shProbe :: "bytes list option"
  shGame :: game_session
  shHistory :: "SensorHistorySample list"

record render =
  rdMetrics :: "HardwareMetrics \<Rightarrow> json"
  rdSensorHealth :: "HardwareMetrics \<Rightarrow> json"
  rdHealth :: "HardwareMetrics \<Rightarrow> json"
  rdDiagnostics :: "HardwareMetrics \<Rightarrow> GameModeState \<Rightarrow> json"
  rdSecurity :: json
  rdUpdate :: json

record req_env =
  rqHealthy :: bool
  rqWall :: int
  rqNonceClock :: int
  rqPanicFile :: "bytes option"
  rqNow :: int
  rqWriteOk :: bool
  rqExec :: "os_view exec_env"
  rqChannels :: os_view
  rqMetrics :: metrics_env
  rqGame :: game_env
  rqDecoy :: "bytes res"
  rqTrigger :: trigger_io
  rqPanicSnapshot :: "bytes option"
  rqProbeView :: probe_view
  rqProbeRun :: "bytes \<Rightarrow> probe_run"
  rqDecodeErr :: bytes
  rqProbe :: probe_io
  rqRender :: render

definition minimumCommandInterval :: int where
  "minimumCommandInterval = 100 * 1000000"

definition panicReadActions :: "bytes list" where
  "panicReadActions = [''Get Status'', ''Get Security'', ''Get Diagnostics'', ''Get Health'',
     ''Get Game Mode'', ''Get Update'', ''Get Sensor Health'', ''Get Sensor History'',
     ''Get Fan Channels'', ''Get Fetch Status'', ''Get Power Mode'', ''Get Audio Devices'']"

subsection \<open>Answers\<close>

definition answer :: "bytes \<Rightarrow> bytes \<Rightarrow> json \<Rightarrow> Response" where
  "answer status message data =
     \<lparr>rStatus = status, rMessage = message, rData = data, rRequestNonce = [], rAuth = []\<rparr>"

definition error_answer :: "bytes \<Rightarrow> Response" where
  "error_answer message = answer ''ERROR'' message JNull"

definition success :: "bytes \<Rightarrow> json \<Rightarrow> Response" where
  "success message data = answer ''SUCCESS'' message data"

definition result_answer :: "bytes \<Rightarrow> json res \<Rightarrow> Response" where
  "result_answer message r =
     (case r of Inl e \<Rightarrow> error_answer e | Inr data \<Rightarrow> success message data)"

definition channel_json :: "FanChannel \<Rightarrow> json" where
  "channel_json ch = JObj ([(''id'', JStr (chID ch)), (''name'', JStr (chName ch)),
     (''backend'', JStr (chBackend ch)), (''supported'', JBool (chSupported ch)),
     (''fanRpm'', json_float (chFanRPM ch)), (''rpmAvailable'', JBool (chRPMAvailable ch)),
     (''fanPercent'', json_float (chFanPercent ch)), (''percentAvailable'', JBool (chPercentAvailable ch))] @
     omit_string ''reason'' (chReason ch))"

definition power_json :: "PowerModeState \<Rightarrow> json" where
  "power_json s = JObj [(''supported'', JBool (pmSupported s)), (''platform'', JStr (pmPlatform s)),
     (''ac'', JStr (pmAC s)), (''dc'', JStr (pmDC s)), (''message'', JStr (pmMessage s))]"

definition game_json :: "GameModeState \<Rightarrow> json" where
  "game_json g = JObj [(''enabled'', JBool (gmEnabled g)), (''autoDetection'', JBool (gmAutoDetection g)),
     (''gameDetected'', JBool (gmGameDetected g)), (''processName'', JStr (gmProcessName g)),
     (''pid'', JNum (FormatInt (uint (gmPID g)))), (''detectedAt'', JStr (gmDetectedAt g)),
     (''sessionDurationSeconds'', JNum (FormatInt (gmSessionDurationSeconds g))),
     (''optimizationMode'', JStr (gmOptimizationMode g))]"

subsection \<open>Dispatch of an accepted command\<close>

text \<open>The Turkish status texts, as their UTF-8 bytes.\<close>

definition alindi :: bytes where
  "alindi = ''al'' @ [CHR 0xC4, CHR 0xB1] @ ''nd'' @ [CHR 0xC4, CHR 0xB1]"

definition msgHistory :: bytes where
  "msgHistory = ''Yerel sens'' @ [CHR 0xC3, CHR 0xB6] @ ''r ge'' @ [CHR 0xC3, CHR 0xA7] @ ''mi'' @
     [CHR 0xC5, CHR 0x9F] @ ''i '' @ alindi"

definition collect :: "go_runtime \<Rightarrow> req_env \<Rightarrow> 'w shared \<Rightarrow> HardwareMetrics \<times> 'w shared" where
  "collect rt env sh =
     (case collectMetrics rt (rqMetrics env) (esGameMode (shExec sh)) (shGame sh) (shHistory sh) of
        (m, session, history) \<Rightarrow> (m, sh\<lparr>shGame := session, shHistory := history\<rparr>))"

definition collect_game :: "go_runtime \<Rightarrow> req_env \<Rightarrow> 'w shared \<Rightarrow> GameModeState \<times> 'w shared" where
  "collect_game rt env sh =
     (case collectGameModeState (grLower rt) (grEqualFold rt) (rqGame env) (esGameMode (shExec sh)) (shGame sh) of
        (g, session) \<Rightarrow> (g, sh\<lparr>shGame := session\<rparr>))"

definition get_power :: "(os_view, 'w) platform \<Rightarrow> 'w shared \<Rightarrow> PowerModeState \<times> 'w shared" where
  "get_power pl sh =
     (case plGetPower pl (esPower (shExec sh)) of
        (s, w) \<Rightarrow> (s, sh\<lparr>shExec := (shExec sh)\<lparr>esPower := w\<rparr>\<rparr>))"

text \<open>The audio commands.\<close>

definition audio_control :: "req_env \<Rightarrow> Command \<Rightarrow> 'w shared \<Rightarrow> Response \<times> 'w shared" where
  "audio_control env cmd sh =
     (case (if cAction cmd = ''Start Audio Studio''
            then rbind (decodeAudioStudioStartTarget (cTarget cmd)) (\<lambda>r. Inr (audioStudioStartLine r))
            else if cAction cmd = ''Stop Audio Studio'' then Inr ''stop'' else Inr ''status'') of
        Inl e \<Rightarrow> (error_answer e, sh)
      | Inr control \<Rightarrow>
          (case audioProbeControl (rqProbe env) control (shProbe sh) of (r, session) \<Rightarrow>
             (result_answer
                (if cAction cmd = ''Start Audio Studio'' then ''Native audio processing started''
                 else if cAction cmd = ''Stop Audio Studio'' then ''Native audio processing stopped''
                 else ''Audio studio status retrieved'') r,
              sh\<lparr>shProbe := session\<rparr>)))"

definition read_command ::
  "go_runtime \<Rightarrow> (os_view, 'w) platform \<Rightarrow> req_env \<Rightarrow> Command \<Rightarrow> 'w shared \<Rightarrow> (Response \<times> 'w shared) option" where
  "read_command rt pl env cmd sh =
     (let action = cAction cmd; rd = rqRender env in
      if action = ''Get Audio Devices'' then
        Some (result_answer ''Native audio endpoints enumerated locally''
          (audioDeviceSnapshot (rqProbeView env) (rqProbeRun env) (rqDecodeErr env)), sh)
      else if action \<in> {''Start Audio Studio'', ''Stop Audio Studio'', ''Get Audio Studio Status''} then
        Some (audio_control env cmd sh)
      else if action = ''Get Update'' then
        Some (success (''Update Service durumu '' @ alindi) (rdUpdate rd), sh)
      else if action = ''Get Sensor Health'' then
        (case collect rt env sh of (m, sh') \<Rightarrow>
           Some (success (''SensorHealth durumu '' @ alindi) (rdSensorHealth rd m), sh'))
      else if action = ''Get Sensor History'' then
        Some (success msgHistory (sensorHistorySnapshot (shHistory sh)), sh)
      else if action = ''Get Fetch Status'' then
        (let sec = checkDecoyIntegrity (rqTrigger env) (rqDecoy env) (shSec sh) in
         Some (success (''Fetch Status durumu '' @ alindi)
             (fetchStatusSnapshot (sec\<lparr>ssPanicFile := rqPanicSnapshot env\<rparr>)), sh\<lparr>shSec := sec\<rparr>))
      else if action = ''Get Fan Channels'' then
        Some (success ''Fan channel capabilities retrieved''
          (JObj [(''channels'', JArr (map channel_json (opList (plFan pl) (rqChannels env)))),
                 (''localOnly'', JBool True)]), sh)
      else if action = ''Get Status'' then
        (case collect rt env sh of (m, sh') \<Rightarrow>
           Some (success (''Metrikler '' @ alindi) (rdMetrics rd m), sh'))
      else if action = ''Get Power Mode'' then
        (case get_power pl sh of (s, sh') \<Rightarrow> Some (success (pmMessage s) (power_json s), sh'))
      else if action = ''Get Health'' then
        (case collect rt env sh of (m, sh') \<Rightarrow>
           Some (success (''Health durumu '' @ alindi) (rdHealth rd m), sh'))
      else if action = ''Get Game Mode'' then
        (case collect_game rt env sh of (g, sh') \<Rightarrow>
           Some (success (''Game Mode durumu '' @ alindi) (game_json g), sh'))
      else if action = ''Get Security'' then
        Some (success (''G'' @ [CHR 0xC3, CHR 0xBC] @ ''venlik durumu '' @ alindi) (rdSecurity rd), sh)
      else if action = ''Get Diagnostics'' then
        (case collect rt env sh of (m, sh1) \<Rightarrow>
         case collect_game rt env sh1 of (g, sh2) \<Rightarrow>
           Some (success (''Diagnostics haz'' @ [CHR 0xC4, CHR 0xB1] @ ''r'') (rdDiagnostics rd m g), sh2))
      else None)"

text \<open>The response, the files written, and the new shared state.\<close>

definition dispatch ::
  "go_runtime \<Rightarrow> (os_view, 'w) platform \<Rightarrow> req_env \<Rightarrow> Command \<Rightarrow> 'w shared \<Rightarrow> Response \<times> writes \<times> 'w shared" where
  "dispatch rt pl env cmd sh =
     (case read_command rt pl env cmd sh of
        Some (r, sh') \<Rightarrow> (r, [], sh')
      | None \<Rightarrow>
          (case executeHardwareCommand (grLower rt) pl (rqExec env) cmd (shExec sh) of (err, ws, ex) \<Rightarrow>
             let sh' = sh\<lparr>shExec := ex\<rparr> in
             case err of
               Some e \<Rightarrow> (error_answer e, ws, sh')
             | None \<Rightarrow>
                 if cAction cmd = ''Set Power Mode AC'' \<or> cAction cmd = ''Set Power Mode DC'' then
                   (case get_power pl sh' of (s, sh'') \<Rightarrow> (success (pmMessage s) (power_json s), ws, sh''))
                 else (success (cAction cmd @ '' applied'')
                         (JObj [(''action'', JStr (cAction cmd)), (''value'', json_float (cValue cmd))]), ws, sh')))"

subsection \<open>One request\<close>

text \<open>\<open>encoder.Encode\<close>: the response that was sent, or none if signing or writing failed.\<close>

definition send :: "bytes \<Rightarrow> req_env \<Rightarrow> bytes \<Rightarrow> Response \<Rightarrow> Response option" where
  "send secret env nonce r =
     (case encodeResponse secret nonce r of
        Inl _ \<Rightarrow> None
      | Inr r' \<Rightarrow> if rqWriteOk env then Some r' else None)"

text \<open>What a request leads to: the response sent, whether the connection goes on, the files
  written, the command that was executed (if it came that far), and the two states.\<close>

record 'w outcome =
  ocSent :: "Response option"
  ocContinue :: bool
  ocWrites :: writes
  ocRun :: "Command option"
  ocShared :: "'w shared"
  ocConn :: conn_state

definition reject ::
  "bytes \<Rightarrow> req_env \<Rightarrow> bytes \<Rightarrow> bytes \<Rightarrow> bool \<Rightarrow> 'w shared \<Rightarrow> conn_state \<Rightarrow> 'w outcome" where
  "reject secret env nonce message stop sh cn =
     (let sent = send secret env nonce (error_answer message) in
      \<lparr>ocSent = sent, ocContinue = (sent \<noteq> None \<and> \<not> stop), ocWrites = [], ocRun = None,
       ocShared = sh, ocConn = cn\<rparr>)"

definition bump_invalid :: "conn_state \<Rightarrow> conn_state" where
  "bump_invalid cn = cn\<lparr>cnInvalidRequests := cnInvalidRequests cn + 1\<rparr>"

definition bump_auth :: "conn_state \<Rightarrow> conn_state" where
  "bump_auth cn = cn\<lparr>cnAuthFailures := cnAuthFailures cn + 1\<rparr>"

definition rate_limited :: "req_env \<Rightarrow> conn_state \<Rightarrow> bool" where
  "rate_limited env cn =
     (case cnLastCommandAt cn of None \<Rightarrow> False | Some t \<Rightarrow> rqNow env - t < minimumCommandInterval)"

text \<open>The part of the loop after the nonce was consumed.\<close>

definition run_command ::
  "go_runtime \<Rightarrow> (os_view, 'w) platform \<Rightarrow> bytes \<Rightarrow> req_env \<Rightarrow> Command \<Rightarrow> 'w shared \<Rightarrow> conn_state \<Rightarrow> 'w outcome" where
  "run_command rt pl secret env cmd sh cn =
     (if panicModeActive (rqPanicFile env) \<and> cAction cmd \<notin> set panicReadActions then
        reject secret env (cNonce cmd) ''security panic mode active; hardware-control request denied'' False sh cn
      else if rate_limited env cn then
        reject secret env (cNonce cmd) ''command rate limit exceeded'' False sh cn
      else (case dispatch rt pl env cmd sh of (r, ws, sh') \<Rightarrow>
        let sent = send secret env (cNonce cmd) r in
        \<lparr>ocSent = sent, ocContinue = (sent \<noteq> None), ocWrites = ws, ocRun = Some cmd,
         ocShared = sh', ocConn = cn\<lparr>cnLastCommandAt := Some (rqNow env)\<rparr>\<rparr>))"

definition handle_line ::
  "go_runtime \<Rightarrow> (os_view, 'w) platform \<Rightarrow> bytes \<Rightarrow> req_env \<Rightarrow> bytes \<Rightarrow> 'w shared \<Rightarrow> conn_state \<Rightarrow> 'w outcome" where
  "handle_line rt pl secret env line sh cn =
     (if \<not> rqHealthy env then
        reject secret env [] ''bridge integrity check failed; service is fail-closed'' True sh cn
      else case decodeCommandStrict line of
        None \<Rightarrow>
          (let cn' = bump_invalid cn in
           reject secret env [] ''invalid request'' (cnInvalidRequests cn' \<ge> 5) sh cn')
      | Some cmd \<Rightarrow>
          (case validateCommand (rqWall env) cmd of
             Some e \<Rightarrow>
               (let cn' = bump_invalid cn in
                reject secret env (cNonce cmd) e (cnInvalidRequests cn' \<ge> 5) sh cn')
           | None \<Rightarrow>
               if \<not> authenticateCommand cmd secret then
                 (let cn' = bump_auth cn in
                  reject secret env (cNonce cmd) ''authentication failed'' (cnAuthFailures cn' \<ge> 5) sh cn')
               else (case consumeCommandNonce (shNonces sh) (cNonce cmd) (rqNonceClock env) of (fresh, nonces) \<Rightarrow>
                 let sh1 = sh\<lparr>shNonces := nonces\<rparr> in
                 if \<not> fresh then
                   (let cn' = bump_invalid cn in
                    reject secret env (cNonce cmd) ''nonce rejected by replay protection''
                      (cnInvalidRequests cn' \<ge> 5) sh1 cn')
                 else run_command rt pl secret env cmd sh1
                        (cn\<lparr>cnInvalidRequests := 0, cnAuthFailures := 0\<rparr>))))"

definition handle_request ::
  "go_runtime \<Rightarrow> (os_view, 'w) platform \<Rightarrow> bytes \<Rightarrow> req_env \<Rightarrow> request \<Rightarrow> 'w shared \<Rightarrow> conn_state \<Rightarrow> 'w outcome" where
  "handle_request rt pl secret env rq sh cn =
     (case rq of
        RqLine line \<Rightarrow> handle_line rt pl secret env line sh cn
      | RqTooLarge \<Rightarrow> reject secret env [] ''request too large'' True sh cn
      | RqError \<Rightarrow> \<lparr>ocSent = None, ocContinue = False, ocWrites = [], ocRun = None,
                    ocShared = sh, ocConn = cn\<rparr>)"

definition new_conn :: conn_state where
  "new_conn = \<lparr>cnAuthFailures = 0, cnInvalidRequests = 0, cnLastCommandAt = None\<rparr>"

text \<open>The loop over the results of the reader, each request with its environment: the outcomes in
  order, and the final shared state.\<close>

fun handleConnection ::
  "go_runtime \<Rightarrow> (os_view, 'w) platform \<Rightarrow> bytes \<Rightarrow> (req_env \<times> request) list \<Rightarrow> 'w shared \<Rightarrow> conn_state \<Rightarrow>
   'w outcome list \<times> 'w shared" where
  "handleConnection rt pl secret [] sh cn = ([], sh)"
| "handleConnection rt pl secret ((env, rq) # rqs) sh cn =
     (let oc = handle_request rt pl secret env rq sh cn in
      if \<not> ocContinue oc then ([oc], ocShared oc)
      else case handleConnection rt pl secret rqs (ocShared oc) (ocConn oc) of (ocs, sh') \<Rightarrow> (oc # ocs, sh'))"

subsection \<open>Laws of one request\<close>

lemma send_authentic:
  assumes "send secret env nonce r = Some r'" and "nonce \<noteq> []"
  shows "authenticateResponse r' secret n = (n = nonce) \<and> rStatus r' = rStatus r \<and> rMessage r' = rMessage r"
  using assms encodeResponse_bound by (auto simp: send_def split: sum.splits if_splits)

lemma reject_simps [simp]:
  "ocRun (reject s env n m b sh cn) = None" "ocWrites (reject s env n m b sh cn) = []"
  "ocShared (reject s env n m b sh cn) = sh" "ocConn (reject s env n m b sh cn) = cn"
  "ocContinue (reject s env n m b sh cn) \<Longrightarrow> \<not> b"
  "ocSent (reject s env n m b sh cn) = send s env n (error_answer m)"
  by (simp_all add: reject_def Let_def)

text \<open>The request handler from validation on: it keeps the nonce of the command in every response.\<close>

lemma handle_line_sent:
  assumes "rqHealthy env" and "decodeCommandStrict line = Some cmd"
    and "ocSent (handle_line rt pl secret env line sh cn) = Some r"
  shows "\<exists>r0. send secret env (cNonce cmd) r0 = Some r"
  using assms unfolding handle_line_def run_command_def
  by (auto simp: Let_def split: option.splits prod.splits if_splits)

definition conn_ok :: "conn_state \<Rightarrow> bool" where
  "conn_ok cn = (cnAuthFailures cn < 5 \<and> cnInvalidRequests cn < 5)"

lemma run_command_conn:
  "conn_ok cn \<Longrightarrow> conn_ok (ocConn (run_command rt pl secret env cmd sh cn))"
  by (simp add: run_command_def conn_ok_def Let_def split: prod.split)

lemma handle_line_conn:
  assumes "conn_ok cn" and "ocContinue (handle_line rt pl secret env line sh cn)"
  shows "conn_ok (ocConn (handle_line rt pl secret env line sh cn))"
proof -
  have reset: "conn_ok (ocConn (run_command rt pl secret env cmd sh1 (cn\<lparr>cnInvalidRequests := 0, cnAuthFailures := 0\<rparr>)))"
    for cmd sh1 by (rule run_command_conn) (simp add: conn_ok_def)
  have bump: "conn_ok (bump_invalid cn)" if "\<not> 5 \<le> cnInvalidRequests (bump_invalid cn)"
    using assms(1) that by (simp add: conn_ok_def bump_invalid_def)
  have bump': "conn_ok (bump_auth cn)" if "\<not> 5 \<le> cnAuthFailures (bump_auth cn)"
    using assms(1) that by (simp add: conn_ok_def bump_auth_def)
  show ?thesis
    using assms(2) unfolding handle_line_def Let_def
    by (auto split: option.splits prod.splits if_splits dest!: reject_simps(5) intro: reset bump bump')
qed

lemma handle_request_conn:
  "conn_ok cn \<Longrightarrow> ocContinue (handle_request rt pl secret env rq sh cn) \<Longrightarrow>
   conn_ok (ocConn (handle_request rt pl secret env rq sh cn))"
  by (cases rq) (auto simp: handle_request_def handle_line_conn dest: reject_simps(5))

text \<open>A command is run only after the interval, and its time is kept for the next one.\<close>

definition waited :: "conn_state \<Rightarrow> int \<Rightarrow> bool" where
  "waited cn now = (case cnLastCommandAt cn of None \<Rightarrow> True | Some t \<Rightarrow> t + minimumCommandInterval \<le> now)"

lemma run_command_time:
  "(ocRun (run_command rt pl secret env cmd sh cn) \<noteq> None \<longrightarrow>
     waited cn (rqNow env) \<and> cnLastCommandAt (ocConn (run_command rt pl secret env cmd sh cn)) = Some (rqNow env)) \<and>
   (ocRun (run_command rt pl secret env cmd sh cn) = None \<longrightarrow>
     cnLastCommandAt (ocConn (run_command rt pl secret env cmd sh cn)) = cnLastCommandAt cn)"
  by (auto simp: run_command_def rate_limited_def waited_def Let_def split: prod.splits option.splits)

lemma waited_reset [simp]: "waited (cn\<lparr>cnInvalidRequests := a, cnAuthFailures := b\<rparr>) t = waited cn t"
  by (simp add: waited_def)

lemma handle_request_time:
  "(ocRun (handle_request rt pl secret env rq sh cn) \<noteq> None \<longrightarrow>
     waited cn (rqNow env) \<and> cnLastCommandAt (ocConn (handle_request rt pl secret env rq sh cn)) = Some (rqNow env)) \<and>
   (ocRun (handle_request rt pl secret env rq sh cn) = None \<longrightarrow>
     cnLastCommandAt (ocConn (handle_request rt pl secret env rq sh cn)) = cnLastCommandAt cn)"
proof (cases rq)
  case (RqLine line)
  have "(ocRun oc \<noteq> None \<longrightarrow> waited cn (rqNow env) \<and> cnLastCommandAt (ocConn oc) = Some (rqNow env)) \<and>
      (ocRun oc = None \<longrightarrow> cnLastCommandAt (ocConn oc) = cnLastCommandAt cn)"
    if "oc = run_command rt pl secret env cmd sh1 (cn\<lparr>cnInvalidRequests := 0, cnAuthFailures := 0\<rparr>)" for oc cmd sh1
    using run_command_time [of rt pl secret env cmd sh1 "cn\<lparr>cnInvalidRequests := 0, cnAuthFailures := 0\<rparr>"] that by simp
  with RqLine show ?thesis
    unfolding handle_request_def handle_line_def Let_def
    by (auto simp: bump_invalid_def bump_auth_def split: option.splits prod.splits)
qed (simp_all add: handle_request_def)

text \<open>The clock readings of the commands that were run, in order.\<close>

definition run_times :: "(req_env \<times> request) list \<Rightarrow> 'w outcome list \<Rightarrow> int list" where
  "run_times rqs ocs = concat (map (\<lambda>((env, _), oc). if ocRun oc \<noteq> None then [rqNow env] else []) (zip rqs ocs))"

lemma run_times_simps [simp]:
  "run_times rqs [] = []"
  "run_times ((env, rq) # rqs) (oc # ocs) = (if ocRun oc \<noteq> None then [rqNow env] else []) @ run_times rqs ocs"
  by (simp_all add: run_times_def)

lemma connection_times:
  "list_all (waited cn) (run_times rqs (fst (handleConnection rt pl secret rqs sh cn))) \<and>
   sorted_wrt (\<lambda>t u. t + minimumCommandInterval \<le> u) (run_times rqs (fst (handleConnection rt pl secret rqs sh cn)))"
proof (induction rqs arbitrary: sh cn)
  case Nil
  then show ?case by simp
next
  case (Cons rq rqs)
  obtain env r where rq: "rq = (env, r)" by force
  define oc where "oc = handle_request rt pl secret env r sh cn"
  note time = handle_request_time [of rt pl secret env r sh cn, folded oc_def]
  have pos: "0 < minimumCommandInterval" by (simp add: minimumCommandInterval_def)
  show ?case
  proof (cases "ocContinue oc")
    case False
    with time rq show ?thesis by (simp add: oc_def [symmetric] Let_def)
  next
    case True
    obtain ocs sh' where rest: "handleConnection rt pl secret rqs (ocShared oc) (ocConn oc) = (ocs, sh')" by force
    note ih = Cons [where sh = "ocShared oc" and cn = "ocConn oc", unfolded rest fst_conv]
    have step: "waited (ocConn oc) u \<Longrightarrow> waited cn u \<and> (ocRun oc \<noteq> None \<longrightarrow> rqNow env + minimumCommandInterval \<le> u)" for u
      using time pos by (cases "ocRun oc") (auto simp: waited_def split: option.splits)
    have "fst (handleConnection rt pl secret (rq # rqs) sh cn) = oc # ocs"
      using True rest by (simp add: rq oc_def [symmetric] Let_def)
    with ih step time show ?thesis by (auto simp: rq list_all_iff)
  qed
qed

text \<open>In panic mode only the read commands are dispatched.\<close>

lemma panic_read_dispatch:
  assumes "cAction cmd \<in> set panicReadActions"
  shows "\<exists>r sh'. read_command rt pl env cmd sh = Some (r, sh') \<and> esGameMode (shExec sh') = esGameMode (shExec sh)"
  using assms
  by (auto simp: panicReadActions_def read_command_def Let_def collect_def collect_game_def get_power_def
      split: prod.split)

lemma run_command_panic:
  assumes "panicModeActive (rqPanicFile env)"
  shows "ocWrites (run_command rt pl secret env cmd sh cn) = [] \<and>
    esGameMode (shExec (ocShared (run_command rt pl secret env cmd sh cn))) = esGameMode (shExec sh)"
proof (cases "cAction cmd \<in> set panicReadActions")
  case False
  with assms show ?thesis by (simp add: run_command_def)
next
  case True
  from panic_read_dispatch [OF True, of rt pl env sh] obtain r sh' where
    "read_command rt pl env cmd sh = Some (r, sh')" "esGameMode (shExec sh') = esGameMode (shExec sh)" by blast
  then show ?thesis by (simp add: run_command_def dispatch_def Let_def)
qed

lemma handle_request_panic:
  assumes "panicModeActive (rqPanicFile env)"
  shows "ocWrites (handle_request rt pl secret env rq sh cn) = [] \<and>
    esGameMode (shExec (ocShared (handle_request rt pl secret env rq sh cn))) = esGameMode (shExec sh)"
proof (cases rq)
  case (RqLine line)
  have "ocWrites (run_command rt pl secret env cmd (sh\<lparr>shNonces := n\<rparr>) cn1) = [] \<and>
      esGameMode (shExec (ocShared (run_command rt pl secret env cmd (sh\<lparr>shNonces := n\<rparr>) cn1))) = esGameMode (shExec sh)"
    for cmd n cn1 using run_command_panic [OF assms, of rt pl secret cmd "sh\<lparr>shNonces := n\<rparr>" cn1] by simp
  with RqLine show ?thesis
    unfolding handle_request_def handle_line_def Let_def by (auto split: option.splits prod.splits)
qed (simp_all add: handle_request_def)

subsection \<open>A request as an example\<close>

definition demoRt :: go_runtime where
  "demoRt = \<lparr>grLower = id, grEqualFold = (=), grArch = ''amd64''\<rparr>"

definition demoMetrics :: metrics_env where
  "demoMetrics = \<lparr>mePercent = None, meCpuInfo = None, meMemory = None, meDisk = None, meUptime = None, meStorage = [],
     meTemps = None, meNvidia = None, meMerge = demoView, meBattery = demoView, meList = demoView, meDetect = demoView,
     meGame = demoGame 0, meIdentity = \<lparr>ieView = demoView, ieCpuInfo = None, ieThreads = None, ieCores = None, ieLspci = None\<rparr>,
     meDriver = demoView, meCollectedAt = 0\<rparr>"

definition demoProbeView :: probe_view where
  "demoProbeView = \<lparr>pvConfigured = [], pvExecutable = Inl ''unknown'', pvStat = (\<lambda>_. Inl ''missing'')\<rparr>"

definition demoReq :: "bytes option \<Rightarrow> req_env" where
  "demoReq panic = \<lparr>rqHealthy = True, rqWall = 2000000000, rqNonceClock = 2000000000, rqPanicFile = panic, rqNow = 5000000000,
     rqWriteOk = True, rqExec = demoExec panic 60, rqChannels = demoView, rqMetrics = demoMetrics, rqGame = demoGame 0,
     rqDecoy = Inr decoyContent, rqTrigger = demoIo True, rqPanicSnapshot = panic, rqProbeView = demoProbeView,
     rqProbeRun = (\<lambda>_. PTimeout), rqDecodeErr = [],
     rqProbe = \<lparr>pioView = demoProbeView, pioStdin = nil, pioStdout = nil, pioStart = nil, pioWrite = nil, pioRead = RdTimeout\<rparr>,
     rqRender = \<lparr>rdMetrics = (\<lambda>_. JNull), rdSensorHealth = (\<lambda>_. JNull), rdHealth = (\<lambda>_. JNull),
       rdDiagnostics = (\<lambda>_ _. JNull), rdSecurity = JNull, rdUpdate = JNull\<rparr>\<rparr>"

definition demoShared :: "(unit \<times> busctl_call list) shared" where
  "demoShared = \<lparr>shNonces = [], shExec = demoPower, shSec = armed, shProbe = None, shGame = emptySession, shHistory = []\<rparr>"

text \<open>The line a client sends for the action \<open>a\<close>, the value text \<open>v\<close> and the tag \<open>s\<close>.\<close>

definition command_line :: "bytes \<Rightarrow> bytes \<Rightarrow> bytes \<Rightarrow> bytes" where
  "command_line a v s = CHR ''{'' # CHR 0x22 # ''action'' @ CHR 0x22 # CHR '':'' # CHR 0x22 # a @ CHR 0x22 # CHR '','' #
     CHR 0x22 # ''value'' @ CHR 0x22 # CHR '':'' # v @ CHR '','' #
     CHR 0x22 # ''timestamp'' @ CHR 0x22 # CHR '':'' # ''1000'' @ CHR '','' #
     CHR 0x22 # ''nonce'' @ CHR 0x22 # CHR '':'' # CHR 0x22 # replicate 32 (CHR ''a'') @ CHR 0x22 # CHR '','' #
     CHR 0x22 # ''auth'' @ CHR 0x22 # CHR '':'' # CHR 0x22 # s @ CHR 0x22 # CHR ''}'' # [newline]"

definition number_text :: "bytes \<Rightarrow> bool" where
  "number_text v \<longleftrightarrow> (\<forall>s. tokenize (v @ CHR '','' # s) = map_option ((#) (TNum v)) (tokenize (CHR '','' # s)))"

definition string_text :: "bytes \<Rightarrow> bool" where
  "string_text a \<longleftrightarrow> (\<forall>t. tokenize (CHR 0x22 # a @ CHR 0x22 # t) = map_option ((#) (TStr a)) (tokenize t))"

lemma demo_number_texts: "number_text ''1000''" "number_text ''50''" "number_text ''0''"
  unfolding number_text_def
  by (rule allI, subst tokenize.simps,
      simp add: next_token_def json_space_def punct_def keyword_def lex_number_def lex_int_def lex_frac_def lex_exp_def
      span_digits_def is_digit_def lower_byte_def)+

lemma plain_string_text: "list_all plain_char a \<Longrightarrow> string_text a"
  by (simp add: string_text_def tokenize_string)

lemma fan_string_text: "string_text actFan"
proof -
  have "lex_string (actFan @ CHR 0x22 # t) = Some (actFan, t)" for t
    by (simp add: actFan_def lex_string.simps rune_len_def cont_byte_def)
  then show ?thesis
    unfolding string_text_def by (intro allI, subst tokenize.simps) (simp add: next_token_def json_space_def punct_def)
qed

lemma command_tokens:
  assumes "string_text a" "number_text v" "string_text s"
  shows "tokenize (command_line a v s) = Some [TLBrace, TStr ''action'', TColon, TStr a, TComma,
    TStr ''value'', TColon, TNum v, TComma, TStr ''timestamp'', TColon, TNum ''1000'', TComma,
    TStr ''nonce'', TColon, TStr (replicate 32 (CHR ''a'')), TComma, TStr ''auth'', TColon, TStr s, TRBrace]"
proof -
  have p: "string_text ''action''" "string_text ''value''" "string_text ''timestamp''"
    "string_text ''nonce''" "string_text (replicate 32 (CHR ''a''))" "string_text ''auth''"
    by (rule plain_string_text, simp add: plain_char_def list_all_iff)+
  have sp: "json_space newline" by (simp add: json_space_def)
  have c: "punct (CHR ''{'') = Some TLBrace" "punct (CHR ''}'') = Some TRBrace"
    "punct (CHR '':'') = Some TColon" "punct (CHR '','') = Some TComma"
    "\<not> json_space (CHR ''{'')" "\<not> json_space (CHR ''}'')" "\<not> json_space (CHR '':'')" "\<not> json_space (CHR '','')"
    by (simp_all add: punct_def json_space_def)
  note texts = p [unfolded string_text_def, THEN spec] assms(1,3) [unfolded string_text_def, THEN spec]
    assms(2) [unfolded number_text_def, THEN spec] demo_number_texts(1) [unfolded number_text_def, THEN spec]
  show ?thesis
    unfolding command_line_def tokenize_punct [OF c(1) c(5)] texts tokenize_punct [OF c(2) c(6)]
      tokenize_punct [OF c(3) c(7)] tokenize_punct [OF c(4) c(8)] tokenize_end(1) [OF sp]
    by (simp only: option.map)
qed

lemma command_decodes:
  assumes "string_text a" "number_text v" "string_text s" "ParseFloat v = (x, True)"
  shows "decodeCommandStrict (command_line a v s) = Some (statusCommand\<lparr>cAction := a, cValue := x, cAuth := s\<rparr>)"
proof -
  let ?n = "replicate 32 (CHR ''a'')"
  have json: "json_decode (command_line a v s) = Some (JObj [(''action'', JStr a), (''value'', JNum v),
      (''timestamp'', JNum ''1000''), (''nonce'', JStr ?n), (''auth'', JStr s)])"
    unfolding json_decode_def command_tokens [OF assms(1-3)] by (simp add: max_depth_def)
  have "Atoi ''1000'' = Some 1000" by code_simp
  with assms(4) show ?thesis
    unfolding decodeCommandStrict_def rejectAmbiguousCommandJSON_def json
    by (simp add: allowed_fields_def set_field_def emptyCommand_def statusCommand_def)
qed

lemma signature_text: "string_text (signCommand cmd secret)"
proof -
  have "hex_val c \<noteq> None \<Longrightarrow> plain_char c" for c by (auto simp: hex_val_def plain_char_def Let_def split: if_splits)
  with hex_Decode_chars [OF hex_Decode_Encode] have "list_all plain_char (signCommand cmd secret)"
    unfolding signCommand_def list_all_iff by blast
  then show ?thesis by (rule plain_string_text)
qed

text \<open>A signed fan command of 50 percent, and that the handler runs it.\<close>

definition signedFan :: Command where
  "signedFan = (fanCommand (Fin 50))\<lparr>cAuth := signCommand (fanCommand (Fin 50)) ''k''\<rparr>"

definition fan_line :: bytes where
  "fan_line = command_line actFan ''50'' (cAuth signedFan)"

lemma demo_handled:
  assumes "shNonces sh = []"
  shows "handle_request demoRt demoLinux ''k'' (demoReq panic) (RqLine fan_line) sh new_conn =
   run_command demoRt demoLinux ''k'' (demoReq panic) signedFan
     (sh\<lparr>shNonces := snd (consumeCommandNonce [] (cNonce signedFan) 2000000000)\<rparr>) new_conn"
proof -
  have "ParseFloat ''50'' = (Fin 50, True)" by code_simp
  from command_decodes [OF fan_string_text demo_number_texts(2) signature_text this, of "fanCommand (Fin 50)" "''k''"]
  have dec: "decodeCommandStrict fan_line = Some signedFan"
    by (simp add: fan_line_def signedFan_def fanCommand_def)
  have "validateCommand 2000000000 (fanCommand (Fin 50)) = nil" by code_simp
  then have val: "validateCommand 2000000000 signedFan = nil"
    unfolding signedFan_def by (rule signed_valid)
  have auth: "authenticateCommand signedFan ''k''"
    unfolding signedFan_def by (rule signCommand_authentic) simp
  obtain fresh nonces where c: "consumeCommandNonce [] (cNonce signedFan) 2000000000 = (fresh, nonces)" by force
  have fresh using c by (simp add: consumeCommandNonce_def drop_expired_def Let_def maxReplayNonces_def)
  with dec val auth c assms show ?thesis
    by (simp add: handle_request_def handle_line_def Let_def demoReq_def new_conn_def)
qed

lemma demo_dispatch:
  assumes "shExec sh = demoPower"
  shows "\<exists>sh'. dispatch demoRt demoLinux (demoReq None) signedFan sh =
    (success (actFan @ '' applied'') (JObj [(''action'', JStr actFan), (''value'', json_float (Fin 50))]),
     [(''/sys/class/hwmon/hwmon0/pwm1'', ''127'' @ [CHR 0x0A])], sh')"
proof -
  have ex: "executeHardwareCommand id demoLinux (demoExec None 60) signedFan demoPower =
      executeHardwareCommand id demoLinux (demoExec None 60) (fanCommand (Fin 50)) demoPower"
  proof -
    have "cAction signedFan = cAction (fanCommand (Fin 50))" "cValue signedFan = cValue (fanCommand (Fin 50))"
      "cTarget signedFan = cTarget (fanCommand (Fin 50))"
      by (simp_all add: signedFan_def)
    then show ?thesis
      unfolding executeHardwareCommand_def validateFanControlRequest_def validateFanChannelControlRequest_def
      by (simp only:)
  qed
  have act: "cAction signedFan = actFan" "cValue signedFan = Fin 50" by (simp_all add: signedFan_def fanCommand_def)
  have "actFan \<noteq> ''Set Power Mode AC''" "actFan \<noteq> ''Set Power Mode DC''" by (simp_all add: actFan_def)
  moreover have "read_command demoRt demoLinux (demoReq None) signedFan sh = None"
    by (simp add: read_command_def Let_def signedFan_def fanCommand_def actFan_def)
  moreover have "\<exists>ex. executeHardwareCommand (grLower demoRt) demoLinux (rqExec (demoReq None)) signedFan (shExec sh) =
      (nil, [(''/sys/class/hwmon/hwmon0/pwm1'', ''127'' @ [CHR 0x0A])], ex)"
    using ex by (simp add: demoRt_def demoReq_def assms demo_fan_command)
  ultimately show ?thesis by (auto simp: dispatch_def act Let_def)
qed

lemma demo_runs:
  assumes "shNonces sh = []" "shExec sh = demoPower"
  defines "oc \<equiv> handle_request demoRt demoLinux ''k'' (demoReq None) (RqLine fan_line) sh new_conn"
  shows "ocRun oc = Some signedFan" "ocWrites oc = [(''/sys/class/hwmon/hwmon0/pwm1'', ''127'' @ [CHR 0x0A])]"
proof -
  let ?sh = "sh\<lparr>shNonces := snd (consumeCommandNonce [] (cNonce signedFan) 2000000000)\<rparr>"
  have "oc = run_command demoRt demoLinux ''k'' (demoReq None) signedFan ?sh new_conn"
    unfolding oc_def by (rule demo_handled [OF assms(1)])
  moreover have "shExec ?sh = demoPower" using assms(2) by simp
  note demo_dispatch [OF this]
  ultimately show "ocRun oc = Some signedFan" "ocWrites oc = [(''/sys/class/hwmon/hwmon0/pwm1'', ''127'' @ [CHR 0x0A])]"
    by (auto simp: run_command_def demoReq_def panicModeActive_def rate_limited_def new_conn_def Let_def)
qed

subsection \<open>Properties\<close>

lemma bounded_gen:
  "readBoundedRequest limit acc fs = (RqLine line, rest) \<Longrightarrow>
   length line \<le> limit \<and> (\<exists>used f. fs = map SFull used @ SLine f # rest \<and> line = acc @ concat used @ f)"
proof (induction limit acc fs rule: readBoundedRequest.induct)
  case (3 limit acc f fs)
  then have "\<not> limit < length (acc @ f)" "readBoundedRequest limit (acc @ f) fs = (RqLine line, rest)"
    by (auto split: if_splits)
  with 3 obtain used g where "length line \<le> limit" "fs = map SFull used @ SLine g # rest" "line = acc @ concat (f # used) @ g"
    by fastforce
  then have "SFull f # fs = map SFull (f # used) @ SLine g # rest" by simp
  with \<open>length line \<le> limit\<close> \<open>line = acc @ concat (f # used) @ g\<close> show ?case by blast
qed (auto split: if_splits intro: exI [of _ "[]"])

text \<open>The reader hands a request to the parser only if it fits the limit, and then it is exactly the bytes received:
  the buffered fragments up to and including the one that ends the line, in order.\<close>

theorem request_is_bounded:
  assumes "readBoundedRequest limit [] fs = (RqLine line, rest)"
  shows "length line \<le> limit \<and> (\<exists>used f. fs = map SFull used @ SLine f # rest \<and> line = concat used @ f)"
  using bounded_gen [OF assms] by simp

theorem request_is_bounded_witness: "length (''ab'' @ [CHR 0x0A]) \<le> maxRequestBytes"
proof -
  have "readBoundedRequest maxRequestBytes [] [SFull ''a'', SLine (''b'' @ [CHR 0x0A])] = (RqLine (''ab'' @ [CHR 0x0A]), [])"
    by (simp add: maxRequestBytes_def)
  from request_is_bounded [OF this] show ?thesis by blast
qed



text \<open>C13: the rate limit holds over a whole connection: for any sequence of requests, the commands that are carried out
  on one connection are at least 100 milliseconds apart.\<close>

theorem commands_are_rate_limited:
  "sorted_wrt (\<lambda>t u. t + 100 * 1000000 \<le> u) (run_times rqs (fst (handleConnection rt pl secret rqs sh cn)))"
  using connection_times [of cn rqs rt pl secret sh] by (simp add: minimumCommandInterval_def)



end
