(* ===== verification/Bridge.thy ===== *)
theory Bridge
  imports Connection
begin

text \<open>
  The service as a whole: the accept loop of \<open>runBridge\<close> (\<open>bridge_runtime.go\<close>) and any number of
  connections that run concurrently.  A step of the system is one pass of the accept loop, one
  request of one connection, or a connection that ends.  Requests of different connections
  interleave freely; the replay cache is locked, so its uses are ordered, and the clock readings
  passed to it are taken in that order.

  The trace \<open>brRuns\<close> records every command that passed authentication and replay protection and
  was dispatched, with the environment of its request.
\<close>

subsection \<open>The accept loop\<close>

datatype accept_result = AConn | ATimeout | AError bytes

datatype loop_result = LoopContinue | LoopServe | LoopRefuse bytes | LoopReturn gerr

definition maxConcurrentConnections :: nat where
  "maxConcurrentConnections = 64"

text \<open>The text written to a refused client: the Go literal ends in a backslash and an \<open>n\<close>.\<close>

definition refusal :: bytes where
  "refusal = CHR ''{'' # CHR 0x22 # ''status'' @ CHR 0x22 # CHR '':'' # CHR 0x22 # ''ERROR'' @ CHR 0x22 #
     CHR '','' # CHR 0x22 # ''message'' @ CHR 0x22 # CHR '':'' # CHR 0x22 #
     ''too many concurrent connections'' @ CHR 0x22 # CHR ''}'' # CHR 0x5C # ''n''"

record loop_env =
  leTrigger :: trigger_io
  leDecoy :: "bytes res"
  lePanicFile :: "bytes option"
  leStop :: bool
  leDone :: bool
  leAccept :: accept_result
  leStopAfter :: bool

definition accept_step :: "loop_env \<Rightarrow> nat \<Rightarrow> sec_state \<Rightarrow> sec_state \<times> loop_result" where
  "accept_step env slots sec =
     (let sec1 = checkDecoyIntegrity (leTrigger env) (leDecoy env) sec in
      if panicModeActive (lePanicFile env) then
        (sec1\<lparr>ssDiag := recordSecurityDiagnostic (tioAppend (leTrigger env)) (tioNow (leTrigger env))
             (tioDiagPath (leTrigger env)) ''panic-mode-active''
             ''fetch-status canary requested fail-closed mode'' (ssDiag sec1)\<rparr>,
         LoopReturn (Err ''security panic mode active''))
      else if leStop env \<or> leDone env then (sec1, LoopReturn nil)
      else case leAccept env of
             ATimeout \<Rightarrow> (sec1, LoopContinue)
           | AError e \<Rightarrow>
               (sec1, if leStopAfter env then LoopReturn nil else LoopReturn (Err (''listener stopped: '' @ e)))
           | AConn \<Rightarrow> (sec1, if slots < maxConcurrentConnections then LoopServe else LoopRefuse refusal))"

subsection \<open>The system\<close>

record 'w bridge =
  brShared :: "'w shared"
  brConns :: "(nat \<times> conn_state) list"
  brClock :: int
  brRuns :: "(Command \<times> req_env) list"
  brWrites :: "(Command \<times> req_env \<times> writes) list"
  brOpen :: bool

definition add_conn :: "nat \<Rightarrow> 'w bridge \<Rightarrow> 'w bridge" where
  "add_conn i br = br\<lparr>brConns := (i, new_conn) # brConns br\<rparr>"

definition del_conn :: "nat \<Rightarrow> 'w bridge \<Rightarrow> 'w bridge" where
  "del_conn i br = br\<lparr>brConns := filter (\<lambda>(j, _). j \<noteq> i) (brConns br)\<rparr>"

definition put_conn :: "nat \<Rightarrow> conn_state \<Rightarrow> 'w bridge \<Rightarrow> 'w bridge" where
  "put_conn i cn br = br\<lparr>brConns := map (\<lambda>(j, c). (j, if j = i then cn else c)) (brConns br)\<rparr>"

definition after_loop :: "nat \<Rightarrow> sec_state \<times> loop_result \<Rightarrow> 'w bridge \<Rightarrow> 'w bridge" where
  "after_loop i r br =
     (case r of (sec, res) \<Rightarrow>
      let br1 = br\<lparr>brShared := (brShared br)\<lparr>shSec := sec\<rparr>\<rparr> in
      case res of
        LoopServe \<Rightarrow> add_conn i br1
      | LoopReturn _ \<Rightarrow> br1\<lparr>brOpen := False\<rparr>
      | _ \<Rightarrow> br1)"

definition after_request :: "nat \<Rightarrow> req_env \<Rightarrow> 'w outcome \<Rightarrow> 'w bridge \<Rightarrow> 'w bridge" where
  "after_request i env oc br =
     (let br1 = br\<lparr>brShared := ocShared oc, brClock := rqNonceClock env,
            brRuns := brRuns br @ (case ocRun oc of None \<Rightarrow> [] | Some cmd \<Rightarrow> [(cmd, env)]),
            brWrites := brWrites br @ (case ocRun oc of None \<Rightarrow> [] | Some cmd \<Rightarrow> [(cmd, env, ocWrites oc)])\<rparr>
      in if ocContinue oc then put_conn i (ocConn oc) br1 else del_conn i br1)"

inductive bridge_step ::
  "go_runtime \<Rightarrow> (os_view, 'w) platform \<Rightarrow> bytes \<Rightarrow> 'w bridge \<Rightarrow> 'w bridge \<Rightarrow> bool"
  for rt pl secret where
  loop: "brOpen br \<Longrightarrow> i \<notin> fst ` set (brConns br) \<Longrightarrow>
    bridge_step rt pl secret br
      (after_loop i (accept_step env (length (brConns br)) (shSec (brShared br))) br)"
| request: "(i, cn) \<in> set (brConns br) \<Longrightarrow> brClock br \<le> rqNonceClock env \<Longrightarrow>
    bridge_step rt pl secret br
      (after_request i env (handle_request rt pl secret env rq (brShared br) cn) br)"
| hangup: "(i, cn) \<in> set (brConns br) \<Longrightarrow> bridge_step rt pl secret br (del_conn i br)"

inductive_cases bridge_stepE: "bridge_step rt pl secret br br'"

definition initial :: "'w bridge \<Rightarrow> bool" where
  "initial br = (brConns br = [] \<and> brRuns br = [] \<and> brWrites br = [] \<and> shNonces (brShared br) = [])"

inductive reachable ::
  "go_runtime \<Rightarrow> (os_view, 'w) platform \<Rightarrow> bytes \<Rightarrow> 'w bridge \<Rightarrow> bool"
  for rt pl secret where
  start: "initial br \<Longrightarrow> reachable rt pl secret br"
| step: "reachable rt pl secret br \<Longrightarrow> bridge_step rt pl secret br br' \<Longrightarrow> reachable rt pl secret br'"

subsection \<open>One request\<close>

lemma read_command_nonces:
  "read_command rt pl env cmd sh = Some (r, sh') \<Longrightarrow> shNonces sh' = shNonces sh"
  by (auto simp: read_command_def Let_def collect_def collect_game_def get_power_def audio_control_def
      split: if_splits prod.splits sum.splits)

lemma dispatch_nonces: "dispatch rt pl env cmd sh = (r, ws, sh') \<Longrightarrow> shNonces sh' = shNonces sh"
  by (auto simp: dispatch_def Let_def get_power_def dest: read_command_nonces
      split: if_splits prod.splits option.splits)

lemma run_command_cases:
  assumes oc: "run_command rt pl secret env cmd sh cn = oc"
  obtains (refused) "ocRun oc = None" "ocWrites oc = []" "ocShared oc = sh"
  | (ran) "ocRun oc = Some cmd" "panicModeActive (rqPanicFile env) \<longrightarrow> cAction cmd \<in> set panicReadActions"
      "\<not> rate_limited env cn" "ocWrites oc = fst (snd (dispatch rt pl env cmd sh))"
      "shNonces (ocShared oc) = shNonces sh"
proof -
  obtain r ws sh' where d: "dispatch rt pl env cmd sh = (r, ws, sh')" by (metis prod_cases3)
  from dispatch_nonces [OF d] have "shNonces sh' = shNonces sh" .
  with d that oc show ?thesis unfolding run_command_def
    by (auto simp: Let_def split: if_splits)
qed

text \<open>A command is run only when it decodes, is valid, carries the right tag, and its nonce is
  fresh; otherwise nothing is written.  The replay cache is the one the nonce check left.\<close>

definition admitted :: "bytes \<Rightarrow> req_env \<Rightarrow> request \<Rightarrow> nonce_cache \<Rightarrow> Command \<Rightarrow> nonce_cache \<Rightarrow> bool" where
  "admitted secret env rq nonces cmd nonces' =
     (case rq of
        RqLine line \<Rightarrow> rqHealthy env \<and> decodeCommandStrict line = Some cmd \<and>
          validateCommand (rqWall env) cmd = nil \<and> authenticateCommand cmd secret \<and>
          consumeCommandNonce nonces (cNonce cmd) (rqNonceClock env) = (True, nonces')
      | _ \<Rightarrow> False)"

lemma handle_request_cases:
  assumes oc: "handle_request rt pl secret env rq sh cn = oc"
  obtains (refused) "ocRun oc = None" "ocWrites oc = []" "shNonces (ocShared oc) = shNonces sh"
  | (consumed) n where "ocRun oc = None" "ocWrites oc = []"
      "shNonces (ocShared oc) = snd (consumeCommandNonce (shNonces sh) n (rqNonceClock env))"
  | (ran) cmd where "ocRun oc = Some cmd"
      "admitted secret env rq (shNonces sh) cmd (shNonces (ocShared oc))"
      "panicModeActive (rqPanicFile env) \<longrightarrow> cAction cmd \<in> set panicReadActions"
      "ocWrites oc = fst (snd (dispatch rt pl env cmd (sh\<lparr>shNonces := shNonces (ocShared oc)\<rparr>)))"
proof -
  consider (early) "ocRun oc = None" "ocWrites oc = []" "shNonces (ocShared oc) = shNonces sh"
    | (late) line cmd where "rq = RqLine line" "rqHealthy env" "decodeCommandStrict line = Some cmd"
      "validateCommand (rqWall env) cmd = nil" "authenticateCommand cmd secret"
    using oc unfolding handle_request_def handle_line_def
    by (cases rq) (auto simp: Let_def split: if_splits option.splits)
  then show thesis
  proof cases
    case early
    then show ?thesis by (rule refused)
  next
    case late
    obtain fresh nonces where c: "consumeCommandNonce (shNonces sh) (cNonce cmd) (rqNonceClock env) = (fresh, nonces)"
      by force
    let ?sh = "sh\<lparr>shNonces := nonces\<rparr>" and ?cn = "cn\<lparr>cnInvalidRequests := 0, cnAuthFailures := 0\<rparr>"
    show ?thesis
    proof (cases fresh)
      case False
      with late c oc consumed [of "cNonce cmd"] show ?thesis
        by (auto simp: handle_request_def handle_line_def Let_def)
    next
      case True
      with late c oc have run: "run_command rt pl secret env cmd ?sh ?cn = oc"
        by (simp add: handle_request_def handle_line_def Let_def)
      from run show ?thesis
      proof (cases rule: run_command_cases)
        case refused
        with c consumed [of "cNonce cmd"] show ?thesis by simp
      next
        case ran
        with True late c that(3) [of cmd] show ?thesis by (simp add: admitted_def)
      qed
    qed
  qed
qed

subsection \<open>Invariant of the system\<close>

text \<open>A command that was run at time \<open>t\<close> is still in the replay cache, or its window has passed.\<close>

definition remembered :: "nonce_cache \<Rightarrow> int \<Rightarrow> Command \<times> req_env \<Rightarrow> bool" where
  "remembered nonces clock run =
     (let t = rqNonceClock (snd run) in
      (\<exists>e. expiry nonces (cNonce (fst run)) = Some e \<and> t + commandClockSkew \<le> e) \<or> t + commandClockSkew < clock)"

definition apart :: "Command \<times> req_env \<Rightarrow> Command \<times> req_env \<Rightarrow> bool" where
  "apart r1 r2 =
     (cNonce (fst r1) = cNonce (fst r2) \<longrightarrow>
      rqNonceClock (snd r1) + commandClockSkew < rqNonceClock (snd r2))"

definition genuine :: "bytes \<Rightarrow> Command \<times> req_env \<Rightarrow> bool" where
  "genuine secret run =
     (validateCommand (rqWall (snd run)) (fst run) = nil \<and> authenticateCommand (fst run) secret \<and>
      rqHealthy (snd run))"

definition bridge_ok :: "bytes \<Rightarrow> 'w bridge \<Rightarrow> bool" where
  "bridge_ok secret br \<longleftrightarrow>
     distinct (map fst (brConns br)) \<and> length (brConns br) \<le> maxConcurrentConnections \<and>
     cache_ok (shNonces (brShared br)) \<and>
     (\<forall>r \<in> set (brRuns br). genuine secret r \<and> remembered (shNonces (brShared br)) (brClock br) r) \<and>
     sorted_wrt apart (brRuns br) \<and> (\<forall>(i, cn) \<in> set (brConns br). conn_ok cn)"

lemma remembered_later:
  "remembered nonces clock r \<Longrightarrow> clock \<le> clock' \<Longrightarrow> remembered nonces clock' r"
  by (auto simp: remembered_def Let_def)

lemma remembered_consume:
  assumes "cache_ok nonces" and "remembered nonces clock r" and "clock \<le> u"
  shows "remembered (snd (consumeCommandNonce nonces n u)) u r"
proof -
  let ?t = "rqNonceClock (snd r)" and ?n = "cNonce (fst r)"
  from assms(2) consider (kept) e where "expiry nonces ?n = Some e" "?t + commandClockSkew \<le> e"
    | (past) "?t + commandClockSkew < clock"
    by (auto simp: remembered_def Let_def)
  then show ?thesis
  proof cases
    case kept
    show ?thesis
    proof (cases "u \<le> e")
      case True
      with replay.keeps_blocked [OF assms(1) kept(1) True, of n] kept(2) show ?thesis
        by (auto simp: remembered_def Let_def)
    next
      case False
      with kept(2) show ?thesis by (simp add: remembered_def Let_def)
    qed
  next
    case past
    with assms(3) show ?thesis by (simp add: remembered_def Let_def)
  qed
qed

lemma accept_apart:
  assumes "cache_ok nonces" and "remembered nonces clock r" and "clock \<le> u"
    and "consumeCommandNonce nonces n u = (True, nonces')" and "cNonce (fst r) = n"
  shows "rqNonceClock (snd r) + commandClockSkew < u"
proof (rule ccontr)
  assume neg: "\<not> ?thesis"
  with assms(2,3,5) obtain e where e: "expiry nonces n = Some e" "rqNonceClock (snd r) + commandClockSkew \<le> e"
    by (auto simp: remembered_def Let_def)
  with neg have "u \<le> e" by simp
  with replay.refuses [OF assms(1) e(1), of u] assms(4) show False by simp
qed

lemma del_conn_ok: "bridge_ok secret br \<Longrightarrow> bridge_ok secret (del_conn i br)"
  unfolding bridge_ok_def del_conn_def
  by (auto intro: distinct_filter_fst order.trans [OF length_filter_le])

lemma put_conn_ok: "bridge_ok secret br \<Longrightarrow> conn_ok cn \<Longrightarrow> bridge_ok secret (put_conn i cn br)"
proof -
  have keep: "map (fst \<circ> (\<lambda>(j, c). (j, if j = i then cn else c))) cs = map fst cs" for cs :: "(nat \<times> conn_state) list"
    by (induction cs) auto
  show "bridge_ok secret br \<Longrightarrow> conn_ok cn \<Longrightarrow> bridge_ok secret (put_conn i cn br)"
    by (auto simp: bridge_ok_def put_conn_def keep)
qed

lemma after_loop_ok:
  assumes "bridge_ok secret br" and "i \<notin> fst ` set (brConns br)"
    and "r = accept_step env (length (brConns br)) sec"
  shows "bridge_ok secret (after_loop i r br)"
proof -
  have serve: "snd r = LoopServe \<Longrightarrow> length (brConns br) < maxConcurrentConnections"
    using assms(3) by (auto simp: accept_step_def Let_def split: if_splits accept_result.splits)
  with assms(1,2) show ?thesis
    by (cases r) (auto simp: after_loop_def add_conn_def bridge_ok_def Let_def conn_ok_def new_conn_def split: loop_result.split)
qed

lemma after_request_ok:
  assumes ok: "bridge_ok secret br" and clock: "brClock br \<le> rqNonceClock env"
    and oc: "handle_request rt pl secret env rq (brShared br) cn = oc" and cn: "conn_ok cn"
  shows "bridge_ok secret (after_request i env oc br)"
proof -
  let ?u = "rqNonceClock env" and ?old = "shNonces (brShared br)" and ?new = "shNonces (ocShared oc)"
  define br1 where "br1 = br\<lparr>brShared := ocShared oc, brClock := ?u,
    brRuns := brRuns br @ (case ocRun oc of None \<Rightarrow> [] | Some cmd \<Rightarrow> [(cmd, env)]),
    brWrites := brWrites br @ (case ocRun oc of None \<Rightarrow> [] | Some cmd \<Rightarrow> [(cmd, env, ocWrites oc)])\<rparr>"
  have cache: "cache_ok ?old" using ok by (simp add: bridge_ok_def)
  have old: "\<forall>r \<in> set (brRuns br). genuine secret r \<and> remembered ?old (brClock br) r"
    "sorted_wrt apart (brRuns br)"
    using ok by (simp_all add: bridge_ok_def)
  have "bridge_ok secret br1"
    using oc
  proof (cases rule: handle_request_cases)
    case refused
    with ok clock show ?thesis by (auto simp: br1_def bridge_ok_def intro: remembered_later)
  next
    case (consumed n)
    with ok clock old remembered_consume [OF cache] cache_ok_consume [OF cache]
    show ?thesis by (auto simp: br1_def bridge_ok_def)
  next
    case (ran cmd)
    have c: "consumeCommandNonce ?old (cNonce cmd) ?u = (True, ?new)"
      and g: "genuine secret (cmd, env)"
      using ran(2) by (auto simp: admitted_def genuine_def split: request.splits)
    have new: "cache_ok ?new" "expiry ?new (cNonce cmd) = Some (?u + commandClockSkew)"
      using cache_ok_consume [OF cache, of "cNonce cmd" ?u] replay.accept_blocks [OF cache c] c by simp_all
    have "remembered ?new ?u r" if "r \<in> set (brRuns br)" for r
      using remembered_consume [OF cache _ clock, of r "cNonce cmd"] old that c by simp
    moreover have "apart r (cmd, env)" if "r \<in> set (brRuns br)" for r
      using accept_apart [OF cache _ clock c] old that by (simp add: apart_def)
    moreover have "remembered ?new ?u (cmd, env)" using new(2) by (simp add: remembered_def Let_def)
    ultimately show ?thesis
      using ok old g new(1) ran(1) by (simp add: br1_def bridge_ok_def sorted_wrt_append)
  qed
  moreover have "ocContinue oc \<Longrightarrow> conn_ok (ocConn oc)" using handle_request_conn [OF cn] oc by blast
  ultimately show ?thesis
    by (simp add: after_request_def br1_def [symmetric] Let_def put_conn_ok del_conn_ok)
qed

lemma bridge_step_ok:
  "bridge_step rt pl secret br br' \<Longrightarrow> bridge_ok secret br \<Longrightarrow> bridge_ok secret br'"
proof (erule bridge_stepE)
  fix i env
  assume "bridge_ok secret br" "i \<notin> fst ` set (brConns br)"
    "br' = after_loop i (accept_step env (length (brConns br)) (shSec (brShared br))) br"
  then show "bridge_ok secret br'" using after_loop_ok by blast
next
  fix i cn env rq
  assume a: "bridge_ok secret br" "brClock br \<le> rqNonceClock env" "(i, cn) \<in> set (brConns br)"
    "br' = after_request i env (handle_request rt pl secret env rq (brShared br) cn) br"
  then have "conn_ok cn" by (auto simp: bridge_ok_def)
  with a show "bridge_ok secret br'" using after_request_ok by blast
next
  fix i
  assume "bridge_ok secret br" "br' = del_conn i br"
  then show "bridge_ok secret br'" using del_conn_ok by blast
qed

lemma initial_ok: "initial br \<Longrightarrow> bridge_ok secret br"
  by (simp add: initial_def bridge_ok_def cache_ok_def)

lemma reachable_ok: "reachable rt pl secret br \<Longrightarrow> bridge_ok secret br"
  by (induction rule: reachable.induct) (auto intro: initial_ok bridge_step_ok)

subsection \<open>Writes of the system\<close>

text \<open>A recorded write rests on the safety gate, is a duty cycle in range, and goes to a file
  inside the hwmon class directory.\<close>

definition write_ok ::
  "go_runtime \<Rightarrow> (os_view, 'w) platform \<Rightarrow> Command \<times> req_env \<times> writes \<Rightarrow> bool" where
  "write_ok rt pl w =
     (case w of (cmd, env, ws) \<Rightarrow>
        (ws \<noteq> [] \<longrightarrow> safe_write (grLower rt) pl (rqExec env) cmd) \<and>
        list_all (\<lambda>(path, t). inside hwmonRoot path \<and> pwm_text t) ws)"

lemma dispatch_writes:
  assumes "fst (snd (dispatch rt pl env cmd sh)) = ws" and "ws \<noteq> []"
  shows "fst (snd (executeHardwareCommand (grLower rt) pl (rqExec env) cmd (shExec sh))) = ws"
  using assms
  by (auto simp: dispatch_def Let_def get_power_def split: option.splits prod.splits if_splits)

lemma dispatch_write_ok:
  assumes "plFan pl = linux_ops"
  shows "write_ok rt pl (cmd, env, fst (snd (dispatch rt pl env cmd sh)))"
proof (cases "fst (snd (dispatch rt pl env cmd sh)) = []")
  case True
  then show ?thesis by (simp add: write_ok_def)
next
  case False
  note ex = dispatch_writes [OF refl False]
  note safe = linux.execute_safe [OF ex False assms]
  have "inside hwmonRoot path" if "(path, t) \<in> set (fst (snd (dispatch rt pl env cmd sh)))" for path t
    using execute_writes [OF ex False] that setFanControl_inside setFanControlChannel_inside
    by (auto simp: assms linux_ops_def)
  with safe show ?thesis by (auto simp: write_ok_def list_all_iff)
qed

lemma bridge_step_writes:
  assumes "bridge_step rt pl secret br br'" and "plFan pl = linux_ops"
    and "\<forall>w \<in> set (brWrites br). write_ok rt pl w"
  shows "\<forall>w \<in> set (brWrites br'). write_ok rt pl w"
  using assms(1)
proof (cases rule: bridge_step.cases)
  case (loop i env)
  with assms(3) show ?thesis
    by (auto simp: after_loop_def add_conn_def Let_def split: prod.splits loop_result.splits)
next
  case (request i cn env rq)
  obtain oc where oc: "handle_request rt pl secret env rq (brShared br) cn = oc" by blast
  have "write_ok rt pl (cmd, env, ocWrites oc)" if "ocRun oc = Some cmd" for cmd
    using oc that dispatch_write_ok [OF assms(2)] by (cases rule: handle_request_cases) auto
  with request(1) oc assms(3) show ?thesis
    by (auto simp: after_request_def put_conn_def del_conn_def Let_def split: option.splits if_splits)
next
  case (hangup i cn)
  with assms(3) show ?thesis by (simp add: del_conn_def)
qed

lemma reachable_writes:
  "reachable rt pl secret br \<Longrightarrow> plFan pl = linux_ops \<Longrightarrow> \<forall>w \<in> set (brWrites br). write_ok rt pl w"
proof (induction rule: reachable.induct)
  case (start br)
  then show ?case by (simp add: initial_def)
next
  case (step br br')
  then show ?case using bridge_step_writes by blast
qed

subsection \<open>Properties\<close>

text \<open>C3: in every reachable state of the service, with any number of clients interleaved in any order, at most 64
  connections are served and each has fewer than five failures of either kind on record; the replay cache is bounded;
  and every command that was ever carried out was valid at its time, carried a correct tag, and was received while the
  integrity check passed.\<close>

theorem service_invariant:
  assumes "reachable rt pl secret br"
  shows "length (brConns br) \<le> 64 \<and>
    (\<forall>(i, cn) \<in> set (brConns br). cnAuthFailures cn < 5 \<and> cnInvalidRequests cn < 5) \<and>
    cache_ok (shNonces (brShared br)) \<and>
    (\<forall>(cmd, env) \<in> set (brRuns br). validateCommand (rqWall env) cmd = nil \<and> authenticateCommand cmd secret \<and> rqHealthy env)"
  using reachable_ok [OF assms]
  by (auto simp: bridge_ok_def maxConcurrentConnections_def genuine_def conn_ok_def)

definition demoStart :: "(unit \<times> busctl_call list) bridge" where
  "demoStart = \<lparr>brShared = demoShared, brConns = [], brClock = 0, brRuns = [], brWrites = [], brOpen = True\<rparr>"

definition demoAccept :: loop_env where
  "demoAccept = \<lparr>leTrigger = demoIo True, leDecoy = Inr decoyContent, lePanicFile = None, leStop = False, leDone = False,
     leAccept = AConn, leStopAfter = False\<rparr>"

definition demoConnected :: "(unit \<times> busctl_call list) bridge" where
  "demoConnected = after_loop 0 (accept_step demoAccept 0 armed) demoStart"

definition demoServed :: "(unit \<times> busctl_call list) bridge" where
  "demoServed = after_request 0 (demoReq None) (handle_request demoRt demoLinux ''k'' (demoReq None)
     (RqLine fan_line) (brShared demoConnected) new_conn) demoConnected"

lemma demoConnected_state:
  "brConns demoConnected = [(0, new_conn)]" "brClock demoConnected = 0" "brRuns demoConnected = []"
  "\<exists>sec. brShared demoConnected = demoShared\<lparr>shSec := sec\<rparr>"
  by (simp_all add: demoConnected_def after_loop_def accept_step_def demoAccept_def panicModeActive_def Let_def add_conn_def
      demoStart_def maxConcurrentConnections_def)
    (rule exI, rule refl)

lemma demoServed_reachable: "reachable demoRt demoLinux ''k'' demoServed"
proof -
  have "initial demoStart" by (simp add: initial_def demoStart_def demoShared_def)
  moreover have "bridge_step demoRt demoLinux ''k'' demoStart demoConnected"
    using bridge_step.loop [of demoStart 0 demoRt demoLinux "''k''" demoAccept]
    by (simp add: demoConnected_def demoStart_def demoShared_def)
  moreover have "bridge_step demoRt demoLinux ''k'' demoConnected demoServed"
    unfolding demoServed_def by (rule bridge_step.request) (simp_all add: demoConnected_state demoReq_def)
  ultimately show ?thesis by (blast intro: reachable.intros)
qed

theorem service_invariant_witness: "length (brConns demoServed) \<le> 64 \<and> cache_ok (shNonces (brShared demoServed))"
  using service_invariant [OF demoServed_reachable] by blast




lemma demoServed_write:
  "(signedFan, demoReq None, [(''/sys/class/hwmon/hwmon0/pwm1'', ''127'' @ [CHR 0x0A])]) \<in> set (brWrites demoServed)"
proof -
  obtain sec where "brShared demoConnected = demoShared\<lparr>shSec := sec\<rparr>" using demoConnected_state(4) ..
  then have "shNonces (brShared demoConnected) = []" "shExec (brShared demoConnected) = demoPower"
    by (simp_all add: demoShared_def)
  from demo_runs [OF this] show ?thesis
    by (simp add: demoServed_def after_request_def Let_def put_conn_def del_conn_def)
qed


end
