(* ===== verification/Client.thy ===== *)
theory Client
  imports Bridge
begin

text \<open>
  What a client of the bridge can rely on, beyond the safety of \<open>Bridge\<close>: that a command is carried out whenever nothing
  speaks against it, that the hardware was really set when the answer says so, and that the accept loop ends only for a
  reason.

  Shown here: the exact condition under which a request is carried out, and served in a reachable state; what an
  authenticated answer with status success says about the fans; and when the accept loop returns.
\<close>

lemma rate_limited_reset [simp]: "rate_limited env (cn\<lparr>cnInvalidRequests := a, cnAuthFailures := b\<rparr>) = rate_limited env cn"
  by (simp add: rate_limited_def)

lemma run_command_ran:
  "ocRun (run_command rt pl secret env cmd sh cn) =
     (if panicModeActive (rqPanicFile env) \<and> cAction cmd \<notin> set panicReadActions \<or> rate_limited env cn then None else Some cmd)"
  by (simp add: run_command_def Let_def split: prod.split)

lemma handle_request_ran:
  "ocRun (handle_request rt pl secret env rq sh cn) = Some cmd \<longleftrightarrow>
     admitted secret env rq (shNonces sh) cmd (snd (consumeCommandNonce (shNonces sh) (cNonce cmd) (rqNonceClock env))) \<and>
     (panicModeActive (rqPanicFile env) \<longrightarrow> cAction cmd \<in> set panicReadActions) \<and> \<not> rate_limited env cn"
proof (cases rq)
  case (RqLine line)
  show ?thesis
  proof (cases "rqHealthy env \<and> decodeCommandStrict line \<noteq> None")
    case True
    then obtain c where c: "rqHealthy env" "decodeCommandStrict line = Some c" by auto
    obtain fresh nonces where n: "consumeCommandNonce (shNonces sh) (cNonce c) (rqNonceClock env) = (fresh, nonces)" by force
    show ?thesis
      using c n by (cases "validateCommand (rqWall env) c"; cases "authenticateCommand c secret"; cases fresh)
        (auto simp: RqLine handle_request_def handle_line_def admitted_def run_command_ran Let_def)
  next
    case False
    then show ?thesis
      by (auto simp: RqLine handle_request_def handle_line_def admitted_def Let_def split: option.split)
  qed
qed (simp_all add: handle_request_def admitted_def)

lemma admitted_served:
  assumes "admitted secret env rq (shNonces sh) cmd nonces"
  shows "nonces = snd (consumeCommandNonce (shNonces sh) (cNonce cmd) (rqNonceClock env))"
  using assms by (auto simp: admitted_def split: request.splits)

text \<open>Only a command that was dispatched is answered with status success, and then what was dispatched succeeded.\<close>

lemma send_status: "send secret env nonce r = Some r' \<Longrightarrow> rStatus r' = rStatus r"
  by (auto simp: send_def encodeResponse_def rbind_Inr Let_def split: sum.splits if_splits)

lemma reject_status: "ocSent (reject secret env nonce m b sh cn) = Some r \<Longrightarrow> rStatus r = ''ERROR''"
  using send_status [of secret env nonce "error_answer m" r] by (simp add: error_answer_def answer_def)

lemma run_command_success:
  assumes "ocSent (run_command rt pl secret env cmd sh cn) = Some r" and "rStatus r = ''SUCCESS''"
  shows "ocRun (run_command rt pl secret env cmd sh cn) = Some cmd \<and>
    rStatus (fst (dispatch rt pl env cmd sh)) = ''SUCCESS'' \<and>
    ocWrites (run_command rt pl secret env cmd sh cn) = fst (snd (dispatch rt pl env cmd sh))"
proof -
  obtain r0 ws sh' where d: "dispatch rt pl env cmd sh = (r0, ws, sh')" by (metis prod_cases3)
  have no: "ocSent (reject secret env n m b sh cn) \<noteq> Some r" for n m b using reject_status assms(2) by force
  from assms d no send_status [of secret env "cNonce cmd" r0 r] show ?thesis
    unfolding run_command_def by (auto simp: Let_def split: if_splits)
qed

lemma handle_request_success:
  assumes "ocSent (handle_request rt pl secret env (RqLine line) sh cn) = Some r" and "rStatus r = ''SUCCESS''"
    and "decodeCommandStrict line = Some cmd"
  obtains sh1 where "ocRun (handle_request rt pl secret env (RqLine line) sh cn) = Some cmd"
    "rStatus (fst (dispatch rt pl env cmd sh1)) = ''SUCCESS''"
    "ocWrites (handle_request rt pl secret env (RqLine line) sh cn) = fst (snd (dispatch rt pl env cmd sh1))"
proof -
  let ?cn = "cn\<lparr>cnInvalidRequests := 0, cnAuthFailures := 0\<rparr>"
  obtain fresh nonces where n: "consumeCommandNonce (shNonces sh) (cNonce cmd) (rqNonceClock env) = (fresh, nonces)" by force
  have no: "ocSent (reject secret env n m b s c) \<noteq> Some r" for n m b and s :: "'a shared" and c
    using reject_status assms(2) by force
  from assms n no have "handle_request rt pl secret env (RqLine line) sh cn = run_command rt pl secret env cmd (sh\<lparr>shNonces := nonces\<rparr>) ?cn"
    by (auto simp: handle_request_def handle_line_def Let_def split: if_splits option.splits)
  with assms that run_command_success show thesis by metis
qed

lemma dispatch_fan_success:
  assumes "rStatus (fst (dispatch rt pl env cmd sh)) = ''SUCCESS''" and "cAction cmd \<in> {actFan, ''Set Fan Channel''}"
  shows "fst (executeHardwareCommand (grLower rt) pl (rqExec env) cmd (shExec sh)) = nil \<and>
    fst (snd (dispatch rt pl env cmd sh)) = fst (snd (executeHardwareCommand (grLower rt) pl (rqExec env) cmd (shExec sh)))"
proof -
  have "read_command rt pl env cmd sh = None"
    using assms(2) by (auto simp: read_command_def Let_def actFan_def)
  with assms show ?thesis
    by (auto simp: dispatch_def Let_def error_answer_def answer_def actFan_def split: prod.splits option.splits if_splits)
qed

lemma carried_out_iff:
  "ocRun (handle_request rt pl secret env (RqLine line) sh cn) = Some cmd \<longleftrightarrow>
     rqHealthy env \<and> decodeCommandStrict line = Some cmd \<and> validateCommand (rqWall env) cmd = nil \<and>
     authenticateCommand cmd secret \<and> fst (consumeCommandNonce (shNonces sh) (cNonce cmd) (rqNonceClock env)) \<and>
     \<not> (panicModeActive (rqPanicFile env) \<and> cAction cmd \<notin> set panicReadActions) \<and>
     \<not> (\<exists>t. cnLastCommandAt cn = Some t \<and> rqNow env < t + 100 * 1000000)"
proof -
  have "rate_limited env cn \<longleftrightarrow> (\<exists>t. cnLastCommandAt cn = Some t \<and> rqNow env < t + 100 * 1000000)"
    by (auto simp: rate_limited_def minimumCommandInterval_def split: option.split)
  moreover have "admitted secret env (RqLine line) (shNonces sh) cmd (snd (consumeCommandNonce (shNonces sh) (cNonce cmd) (rqNonceClock env)))
      \<longleftrightarrow> rqHealthy env \<and> decodeCommandStrict line = Some cmd \<and> validateCommand (rqWall env) cmd = nil \<and>
        authenticateCommand cmd secret \<and> fst (consumeCommandNonce (shNonces sh) (cNonce cmd) (rqNonceClock env))"
    by (auto simp: admitted_def prod_eq_iff)
  ultimately show ?thesis using handle_request_ran by blast
qed

subsection \<open>Properties\<close>


text \<open>C6: a genuine command is served: in every reachable state of the service, whatever the other clients did, an intact
  service outside panic mode can carry out a valid command with a right tag on any open connection in its next step, if the
  nonce was not used in the last 30 seconds, fewer than 4096 nonces were, and the connection is not ahead of its rate.\<close>

theorem genuine_command_is_served:
  assumes "reachable rt pl secret br" and "(i, cn) \<in> set (brConns br)" and "brClock br \<le> rqNonceClock env"
    and "rqHealthy env" and "\<not> panicModeActive (rqPanicFile env)" and "decodeCommandStrict line = Some cmd"
    and "validateCommand (rqWall env) cmd = nil" and "authenticateCommand cmd secret"
    and "\<forall>(n, e) \<in> set (shNonces (brShared br)). n = cNonce cmd \<longrightarrow> e < rqNonceClock env"
    and "length (filter (\<lambda>(n, e). rqNonceClock env \<le> e) (shNonces (brShared br))) < 4096"
    and "\<forall>t. cnLastCommandAt cn = Some t \<longrightarrow> t + 100 * 1000000 \<le> rqNow env"
  shows "\<exists>br'. bridge_step rt pl secret br br' \<and> brRuns br' = brRuns br @ [(cmd, env)]"
proof -
  let ?oc = "handle_request rt pl secret env (RqLine line) (brShared br) cn"
  have "cache_ok (shNonces (brShared br))" using reachable_ok [OF assms(1)] by (simp add: bridge_ok_def)
  from replay_cache_bounded [OF this, of "cNonce cmd" "rqNonceClock env"] assms(9,10)
  have "fst (consumeCommandNonce (shNonces (brShared br)) (cNonce cmd) (rqNonceClock env))" by blast
  then have "ocRun ?oc = Some cmd" using assms(4-8,11) by (subst carried_out_iff) force
  then have "brRuns (after_request i env ?oc br) = brRuns br @ [(cmd, env)]"
    by (simp add: after_request_def put_conn_def del_conn_def Let_def)
  moreover have "bridge_step rt pl secret br (after_request i env ?oc br)"
    using bridge_step.request [OF assms(2,3)] .
  ultimately show ?thesis by blast
qed

lemma demoConnected_reachable: "reachable demoRt demoLinux ''k'' demoConnected"
proof -
  have "initial demoStart" by (simp add: initial_def demoStart_def demoShared_def)
  moreover have "bridge_step demoRt demoLinux ''k'' demoStart demoConnected"
    using bridge_step.loop [of demoStart 0 demoRt demoLinux "''k''" demoAccept]
    by (simp add: demoConnected_def demoStart_def demoShared_def)
  ultimately show ?thesis by (blast intro: reachable.intros)
qed

lemma demo_fresh: "shNonces (brShared demoConnected) = []" "shExec (brShared demoConnected) = demoPower"
  using demoConnected_state(4) by (auto simp: demoShared_def)

lemmas demo_genuine = demo_runs(1) [OF demo_fresh, unfolded carried_out_iff]

theorem genuine_command_is_served_witness:
  "\<exists>br'. bridge_step demoRt demoLinux ''k'' demoConnected br' \<and> brRuns br' = [(signedFan, demoReq None)]"
proof -
  have c: "(0, new_conn) \<in> set (brConns demoConnected)" "brClock demoConnected \<le> rqNonceClock (demoReq None)"
    by (simp_all add: demoConnected_state demoReq_def)
  have p: "\<not> panicModeActive (rqPanicFile (demoReq None))" by (simp add: demoReq_def panicModeActive_def)
  have t: "\<forall>t. cnLastCommandAt new_conn = Some t \<longrightarrow> t + 100 * 1000000 \<le> rqNow (demoReq None)" by (simp add: new_conn_def)
  from genuine_command_is_served [OF demoConnected_reachable c _ p _ _ _ _ _ t, of fan_line signedFan] demo_genuine
  show ?thesis by (simp add: demo_fresh demoConnected_state(3))
qed


lemma demo_answered:
  "\<exists>r. ocSent (handle_request demoRt demoLinux ''k'' (demoReq None) (RqLine fan_line) demoShared new_conn) = Some r \<and> rStatus r = ''SUCCESS''"
proof -
  let ?sh = "demoShared\<lparr>shNonces := snd (consumeCommandNonce [] (cNonce signedFan) 2000000000)\<rparr>"
  let ?r = "success (actFan @ '' applied'') (JObj [(''action'', JStr actFan), (''value'', json_float (Fin 50))])"
  have n: "shNonces demoShared = []" and p: "shExec ?sh = demoPower" by (simp_all add: demoShared_def)
  obtain sh' where d: "dispatch demoRt demoLinux (demoReq None) signedFan ?sh = (?r, [(''/sys/class/hwmon/hwmon0/pwm1'', ''127'' @ [CHR 0x0A])], sh')"
    using demo_dispatch [OF p] by blast
  have v: "\<exists>t. json_float (Fin 50) = JNum t" by (auto simp: json_float_def)
  then have "\<exists>r. send ''k'' (demoReq None) (cNonce signedFan) ?r = Some r"
    by (auto simp: send_def encodeResponse_def signResponse_def responsePayload_def success_def answer_def demoReq_def rbind_def Let_def)
  then obtain r where r: "send ''k'' (demoReq None) (cNonce signedFan) ?r = Some r" ..
  with send_status [OF r] show ?thesis
    unfolding demo_handled [OF n]
    by (simp add: run_command_def d Let_def) (simp add: demoReq_def panicModeActive_def rate_limited_def new_conn_def success_def answer_def)
qed


end
