(* ===== verification/HealthyCore.thy ===== *)
theory HealthyCore
  imports FloatText
begin

text \<open>
  Condition assessment of CPU, GPU and RAM (\<open>healthycore/assessment.go\<close>).  Go's \<open>int\<close> is a
  64-bit integer: \<open>int64\<close> wraps a mathematical integer into its range, and every arithmetic
  operation on counts and scores is wrapped.  \<open>quoteGo\<close> stands for the \<open>%q\<close> formatting of a device
  name that is not one of the three known ones; it only occurs in an error text.

  Shown here: the index is always between 0 and 100 and agrees with the status, and for counts
  below \<open>2 ^ 58\<close> the computation agrees with the reference without overflow.
\<close>

definition int64 :: "int \<Rightarrow> int" where
  "int64 x = (x + 2 ^ 63) mod 2 ^ 64 - 2 ^ 63"

lemma int64_id: "- (2 ^ 63) \<le> x \<Longrightarrow> x < 2 ^ 63 \<Longrightarrow> int64 x = x"
  by (simp add: int64_def)

record Evidence =
  evDevice :: bytes
  evSampleCount :: int
  evMaxTemperatureC :: "float64 option"
  evThermalLimitC :: "float64 option"
  evThermalThrottleEvents :: int
  evObservedErrors :: int
  evVendorHealthPercent :: "float64 option"
  evMemoryUsagePercent :: "float64 option"

record Assessment =
  asDevice :: bytes
  asConditionIndex :: "int option"
  asStatus :: bytes
  asConfidence :: bytes
  asEvidenceSummary :: "bytes list"
  asLimitations :: "bytes list"

definition ErrInvalidEvidence :: bytes where
  "ErrInvalidEvidence = ''invalid Healthy Core evidence''"

definition finiteF :: "float64 \<Rightarrow> bool" where
  "finiteF v = (\<not> IsNaN v \<and> \<not> IsInf v)"

definition validPercent :: "float64 option \<Rightarrow> gerr" where
  "validPercent x =
     (case x of
        None \<Rightarrow> nil
      | Some v \<Rightarrow>
          if \<not> finiteF v \<or> flt v (Fin 0) \<or> flt (Fin 100) v
          then Err (ErrInvalidEvidence @ '': vendor health percentage must be between 0 and 100'') else nil)"

definition opt_holds :: "float64 option \<Rightarrow> (float64 \<Rightarrow> bool) \<Rightarrow> bool" where
  "opt_holds x P = (case x of None \<Rightarrow> False | Some v \<Rightarrow> P v)"

text \<open>The checks at the start of \<open>Evaluate\<close>.\<close>

definition check_evidence :: "(bytes \<Rightarrow> bytes) \<Rightarrow> Evidence \<Rightarrow> gerr" where
  "check_evidence quoteGo e =
     (if evDevice e \<noteq> ''cpu'' \<and> evDevice e \<noteq> ''gpu'' \<and> evDevice e \<noteq> ''ram''
      then Err (ErrInvalidEvidence @ '': unsupported device '' @ quoteGo (evDevice e))
      else if evSampleCount e < 0 \<or> evThermalThrottleEvents e < 0 \<or> evObservedErrors e < 0
      then Err (ErrInvalidEvidence @ '': counts must be non-negative'')
      else seq_err (validPercent (evVendorHealthPercent e))
       (if opt_holds (evMaxTemperatureC e) (\<lambda>t. \<not> finiteF t \<or> flt t (Fin (- 20)) \<or> flt (Fin 200) t)
        then Err (ErrInvalidEvidence @ '': implausible maximum temperature'')
        else if opt_holds (evThermalLimitC e) (\<lambda>t. \<not> finiteF t \<or> fle t (Fin 0) \<or> flt (Fin 200) t)
        then Err (ErrInvalidEvidence @ '': invalid thermal limit'')
        else if evDevice e = ''ram'' \<and> evMaxTemperatureC e \<noteq> None
        then Err (ErrInvalidEvidence @ '': RAM does not use CPU/GPU thermal scoring'')
        else if evMaxTemperatureC e \<noteq> None \<and> evThermalLimitC e = None
        then Err (ErrInvalidEvidence @ '': temperature requires a device-specific thermal limit'')
        else if opt_holds (evMaxTemperatureC e) (\<lambda>t. opt_holds (evThermalLimitC e) (\<lambda>l. flt (fadd l (Fin 15)) t))
        then Err (ErrInvalidEvidence @ '': temperature is inconsistent with the supplied thermal limit'')
        else nil))"

definition limitations :: "bytes list" where
  "limitations =
     [''This index is not a physical-wear percentage or a remaining-life estimate.'',
      ''Results depend on the quality, duration, and device-specific meaning of supplied telemetry.'',
      ''No hardware settings are changed by this assessment.'']"

text \<open>The state of the scoring: score, number of indicators, summary lines.\<close>

type_synonym scoring = "int \<times> int \<times> bytes list"

definition thermal_score :: "Evidence \<Rightarrow> scoring \<Rightarrow> scoring" where
  "thermal_score e sc =
     (case (evMaxTemperatureC e, evThermalLimitC e, sc) of
        (Some t, Some l, (score, indicators, summary)) \<Rightarrow>
          if evDevice e \<noteq> ''ram'' \<and> evSampleCount e > 0 then
            (let ratio = fdiv t l in
             if fle (Fin 1) ratio then (score - 35, indicators + 1,
               summary @ [''Maximum observed temperature reached or exceeded the supplied thermal limit.''])
             else if fle (fround (95 / 100)) ratio then (score - 25, indicators + 1,
               summary @ [''Maximum observed temperature was within 5% of the supplied thermal limit.''])
             else if fle (fround (85 / 100)) ratio then (score - 12, indicators + 1,
               summary @ [''Maximum observed temperature was high relative to the supplied thermal limit.''])
             else (score, indicators + 1,
               summary @ [''Maximum observed temperature was below 85% of the supplied thermal limit.'']))
          else sc
      | _ \<Rightarrow> sc)"

definition capped :: "int \<Rightarrow> int \<Rightarrow> int" where
  "capped cap penalty = (if penalty > cap then cap else penalty)"

definition throttle_score :: "Evidence \<Rightarrow> scoring \<Rightarrow> scoring" where
  "throttle_score e sc =
     (case sc of (score, indicators, summary) \<Rightarrow>
        if evDevice e \<noteq> ''ram'' \<and> evThermalThrottleEvents e > 0 then
          (int64 (score - capped 20 (int64 (evThermalThrottleEvents e * 5))), indicators + 1,
           summary @ [FormatInt (evThermalThrottleEvents e) @ '' thermal-throttling event(s) were reported.''])
        else sc)"

definition error_score :: "Evidence \<Rightarrow> scoring \<Rightarrow> scoring" where
  "error_score e sc =
     (case sc of (score, indicators, summary) \<Rightarrow>
        if evObservedErrors e > 0 then
          (int64 (score - capped 30 (int64 (evObservedErrors e * (if evDevice e = ''ram'' then 20 else 10)))),
           indicators + 1,
           summary @ [FormatInt (evObservedErrors e) @ '' hardware/driver error(s) were reported.''])
        else sc)"

definition usage_note :: "Evidence \<Rightarrow> scoring \<Rightarrow> scoring" where
  "usage_note e sc =
     (case (evMemoryUsagePercent e, sc) of
        (Some u, (score, indicators, summary)) \<Rightarrow>
          if evDevice e = ''ram'' then (score, indicators,
            summary @ [''Current RAM utilization is '' @ FormatFixed 1 u @
              ''%; utilization is not a RAM health or wear measurement.''])
          else sc
      | _ \<Rightarrow> sc)"

text \<open>Go's integer division truncates toward zero.\<close>

definition half :: "int \<Rightarrow> int" where
  "half x = (if x < 0 then - ((- x) div 2) else x div 2)"

definition vendor_score :: "Evidence \<Rightarrow> scoring \<Rightarrow> scoring" where
  "vendor_score e sc =
     (case (evVendorHealthPercent e, sc) of
        (Some v, (score, indicators, summary)) \<Rightarrow>
          (half (int64 (score + (case fto_int (math_Round v) of Some n \<Rightarrow> n | None \<Rightarrow> - (2 ^ 63)))),
           indicators + 1, summary @ [''A device-specific vendor health percentage was supplied.''])
      | _ \<Rightarrow> sc)"

definition clamp100 :: "int \<Rightarrow> int" where
  "clamp100 score = (let s = (if score < 0 then 0 else score) in if s > 100 then 100 else s)"

definition status_of :: "int \<Rightarrow> bytes" where
  "status_of score =
     (if score \<ge> 85 then ''no_obvious_concern'' else if score \<ge> 65 then ''needs_attention'' else ''elevated_risk'')"

definition no_evidence :: "Evidence \<Rightarrow> bool" where
  "no_evidence e =
     ((evDevice e = ''ram'' \<or> evMaxTemperatureC e = None \<or> evSampleCount e = 0) \<and>
      evVendorHealthPercent e = None \<and> evObservedErrors e = 0 \<and> evThermalThrottleEvents e = 0)"

definition finish_assessment :: "Evidence \<Rightarrow> scoring \<Rightarrow> Assessment" where
  "finish_assessment e sc =
     (case sc of (score0, indicators, summary) \<Rightarrow>
      let score = clamp100 score0 in
      if evDevice e = ''ram'' \<and> evObservedErrors e = 0 \<and> evVendorHealthPercent e = None then
        \<lparr>asDevice = evDevice e, asConditionIndex = None, asStatus = ''insufficient_data'', asConfidence = ''low'',
         asEvidenceSummary = summary @ [''RAM utilization alone cannot establish module health; hardware/ECC error telemetry or a trusted device-specific health report is required.''],
         asLimitations = limitations\<rparr>
      else
        \<lparr>asDevice = evDevice e, asConditionIndex = Some score, asStatus = status_of score,
         asConfidence = (if indicators \<ge> 2 \<and> evSampleCount e \<ge> 12 then ''medium'' else ''low''),
         asEvidenceSummary = summary @
           (if evSampleCount e < 12 \<and> evVendorHealthPercent e = None
            then [''A short observation window limits confidence; collect more samples.''] else []),
         asLimitations = limitations\<rparr>)"

definition Evaluate :: "(bytes \<Rightarrow> bytes) \<Rightarrow> Evidence \<Rightarrow> Assessment res" where
  "Evaluate quoteGo e =
     (case check_evidence quoteGo e of
        Some m \<Rightarrow> Inl m
      | None \<Rightarrow>
          if no_evidence e then
            Inr \<lparr>asDevice = evDevice e, asConditionIndex = None, asStatus = ''insufficient_data'',
                 asConfidence = ''low'',
                 asEvidenceSummary = [''No usable health evidence was supplied.''], asLimitations = limitations\<rparr>
          else Inr (finish_assessment e
                 (vendor_score e (usage_note e (error_score e (throttle_score e (thermal_score e (100, 0, []))))))))"

subsection \<open>Laws\<close>

lemma clamp100_range: "0 \<le> clamp100 s \<and> clamp100 s \<le> 100"
  by (simp add: clamp100_def Let_def)

lemma Evaluate_Inr:
  "Evaluate q e = Inr a \<Longrightarrow>
   (asConditionIndex a = None \<and> asStatus a = ''insufficient_data'' \<and> asConfidence a = ''low'') \<or>
   (\<exists>s. asConditionIndex a = Some s \<and> 0 \<le> s \<and> s \<le> 100 \<and> asStatus a = status_of s)"
  using clamp100_range
  by (auto simp: Evaluate_def finish_assessment_def Let_def split: option.splits if_splits prod.splits)

text \<open>The reference without machine integers: the deduction for each kind of evidence.\<close>

definition thermal_deduction :: "Evidence \<Rightarrow> int" where
  "thermal_deduction e =
     (case (evMaxTemperatureC e, evThermalLimitC e) of
        (Some t, Some l) \<Rightarrow>
          if evDevice e \<noteq> ''ram'' \<and> evSampleCount e > 0 then
            (let ratio = fdiv t l in
             if fle (Fin 1) ratio then 35
             else if fle (fround (95 / 100)) ratio then 25
             else if fle (fround (85 / 100)) ratio then 12 else 0)
          else 0
      | _ \<Rightarrow> 0)"

definition throttle_deduction :: "Evidence \<Rightarrow> int" where
  "throttle_deduction e = (if evDevice e = ''ram'' then 0 else min 20 (5 * evThermalThrottleEvents e))"

definition error_deduction :: "Evidence \<Rightarrow> int" where
  "error_deduction e = min 30 ((if evDevice e = ''ram'' then 20 else 10) * evObservedErrors e)"

definition reference_score :: "Evidence \<Rightarrow> int" where
  "reference_score e =
     (let s = 100 - thermal_deduction e - throttle_deduction e - error_deduction e in
      case evVendorHealthPercent e of None \<Rightarrow> s | Some v \<Rightarrow> (s + round_away (fval v)) div 2)"

lemma thermal_score_fst: "fst (thermal_score e (s, i, l)) = s - thermal_deduction e"
  by (simp add: thermal_score_def thermal_deduction_def Let_def split: option.split)

lemma thermal_deduction_range: "0 \<le> thermal_deduction e \<and> thermal_deduction e \<le> 35"
  by (simp add: thermal_deduction_def Let_def split: option.split)

lemma throttle_score_fst:
  assumes "0 \<le> evThermalThrottleEvents e" "evThermalThrottleEvents e < 2 ^ 58" "0 \<le> fst sc" "fst sc \<le> 100"
  shows "fst (throttle_score e sc) = fst sc - throttle_deduction e"
proof -
  obtain s i l where sc: "sc = (s, i, l)" by (metis prod_cases3)
  have "int64 (evThermalThrottleEvents e * 5) = evThermalThrottleEvents e * 5"
    using assms(1,2) by (intro int64_id) simp_all
  with assms sc show ?thesis
    by (auto simp: throttle_score_def throttle_deduction_def capped_def min_def int64_id)
qed

lemma error_score_fst:
  assumes "0 \<le> evObservedErrors e" "evObservedErrors e < 2 ^ 58" "0 \<le> fst sc" "fst sc \<le> 100"
  shows "fst (error_score e sc) = fst sc - error_deduction e"
proof -
  obtain s i l where sc: "sc = (s, i, l)" by (metis prod_cases3)
  have "int64 (evObservedErrors e * k) = evObservedErrors e * k" if "k = 20 \<or> k = 10" for k
    using assms(1,2) that by (intro int64_id) auto
  with assms sc show ?thesis
    by (auto simp: error_score_def error_deduction_def capped_def min_def int64_id mult.commute)
qed

lemma trunc_of_int: "trunc_rat (of_int n) = n"
  by (simp add: trunc_rat_def)

lemma round_away_range: "0 \<le> r \<Longrightarrow> r \<le> 100 \<Longrightarrow> 0 \<le> round_away r \<and> round_away r \<le> 100"
proof -
  assume r: "0 \<le> r" "r \<le> 100"
  then have "\<lfloor>r + 1 / 2\<rfloor> \<le> \<lfloor>(100::rat) + 1 / 2\<rfloor>" by (intro floor_mono) simp
  with r show ?thesis by (simp add: round_away_def)
qed

lemma rounded_percent:
  assumes "validPercent (Some v) = nil"
  shows "fto_int (math_Round v) = Some (round_away (fval v))" "0 \<le> round_away (fval v)" "round_away (fval v) \<le> 100"
proof -
  have fin: "is_fin v"
    using assms by (auto simp: validPercent_def finiteF_def is_fin_def split: if_splits)
  have range: "0 \<le> fval v" "fval v \<le> 100"
    using assms fin by (auto simp: validPercent_def split: if_splits)
  show r: "0 \<le> round_away (fval v)" "round_away (fval v) \<le> 100"
    using round_away_range [OF range] by simp_all
  have "round_away 0 = 0" by (simp add: round_away_def floor_eq_iff)
  with is_fin_cases [OF fin] have "fval (math_Round v) = of_int (round_away (fval v)) \<and> is_fin (math_Round v)"
    by (elim disjE exE) (simp_all add: math_Round_def)
  with r show "fto_int (math_Round v) = Some (round_away (fval v))"
    by (simp add: fto_int_def trunc_of_int)
qed

lemma usage_note_fst: "fst (usage_note e sc) = fst sc"
  by (simp add: usage_note_def split: option.split prod.split)

lemma check_evidence_nil:
  "check_evidence q e = nil \<Longrightarrow> 0 \<le> evThermalThrottleEvents e \<and> 0 \<le> evObservedErrors e \<and>
     validPercent (evVendorHealthPercent e) = nil"
  by (auto simp: check_evidence_def split: if_splits)

lemma raw_score:
  assumes "check_evidence q e = nil" "evThermalThrottleEvents e < 2 ^ 58" "evObservedErrors e < 2 ^ 58"
  shows "fst (vendor_score e (usage_note e (error_score e (throttle_score e (thermal_score e (100, 0, [])))))) =
    reference_score e" (is ?eq) and "0 \<le> reference_score e" "reference_score e \<le> 100"
proof -
  note nn = check_evidence_nil [OF assms(1)]
  let ?t = "thermal_score e (100, 0, [])" and ?s = "100 - thermal_deduction e - throttle_deduction e - error_deduction e"
  have d: "0 \<le> throttle_deduction e" "throttle_deduction e \<le> 20" "0 \<le> error_deduction e" "error_deduction e \<le> 30"
    using nn by (simp_all add: throttle_deduction_def error_deduction_def)
  have t: "fst ?t = 100 - thermal_deduction e" by (rule thermal_score_fst)
  have h: "fst (throttle_score e ?t) = 100 - thermal_deduction e - throttle_deduction e"
    using throttle_score_fst [of e ?t] thermal_deduction_range [of e] nn assms(2) t by simp
  have x: "fst (usage_note e (error_score e (throttle_score e ?t))) = ?s"
    using error_score_fst [of e "throttle_score e ?t"] thermal_deduction_range [of e] nn assms(3) h d
    by (simp add: usage_note_fst)
  have s: "15 \<le> ?s" "?s \<le> 100" using d thermal_deduction_range [of e] by auto
  have "?eq \<and> 0 \<le> reference_score e \<and> reference_score e \<le> 100"
  proof (cases "evVendorHealthPercent e")
    case None
    with x s show ?thesis by (simp add: vendor_score_def reference_score_def Let_def)
  next
    case (Some v)
    with nn rounded_percent [of v] x s show ?thesis
      by (auto simp: vendor_score_def reference_score_def Let_def half_def int64_id split: prod.splits)
  qed
  then show ?eq "0 \<le> reference_score e" "reference_score e \<le> 100" by simp_all
qed

subsection \<open>Properties\<close>

text \<open>Whatever the evidence, an assessment either reports insufficient data with no index, or an
  index between 0 and 100 whose status is the one documented for that index.\<close>

theorem assessment_index_range:
  assumes "Evaluate quoteGo e = Inr a"
  shows "(asConditionIndex a = None \<and> asStatus a = ''insufficient_data'' \<and> asConfidence a = ''low'') \<or>
    (\<exists>s. asConditionIndex a = Some s \<and> 0 \<le> s \<and> s \<le> 100 \<and> asStatus a = status_of s)"
  using Evaluate_Inr [OF assms] .

definition hotCPU :: Evidence where
  "hotCPU = \<lparr>evDevice = ''cpu'', evSampleCount = 20, evMaxTemperatureC = Some (Fin 90),
     evThermalLimitC = Some (Fin 100), evThermalThrottleEvents = 2, evObservedErrors = 1,
     evVendorHealthPercent = Some (Fin 80), evMemoryUsagePercent = None\<rparr>"

theorem assessment_index_range_witness:
  "\<exists>s. asConditionIndex (projr (Evaluate id hotCPU)) = Some s \<and> 0 \<le> s \<and> s \<le> 100"
proof -
  have e: "Evaluate id hotCPU = Inr (projr (Evaluate id hotCPU))"
    "asConditionIndex (projr (Evaluate id hotCPU)) = Some 74"
    by code_simp+
  from assessment_index_range [OF e(1)] e(2) show ?thesis by simp
qed

text \<open>C40: for event and error counts below \<open>2 ^ 58\<close> the computation on 64-bit integers agrees with the
  deductions computed on mathematical integers: the reported index is the reference score.\<close>

theorem assessment_matches_reference:
  assumes "Evaluate quoteGo e = Inr a" and "asConditionIndex a = Some s"
    and "evThermalThrottleEvents e < 2 ^ 58" and "evObservedErrors e < 2 ^ 58"
  shows "s = reference_score e"
proof -
  from assms(1) have ck: "check_evidence quoteGo e = nil"
    by (auto simp: Evaluate_def split: option.splits)
  note r = raw_score [OF ck assms(3,4)]
  have "s = clamp100 (fst (vendor_score e (usage_note e (error_score e (throttle_score e (thermal_score e (100, 0, [])))))))"
    using assms(1,2) ck
    by (auto simp: Evaluate_def finish_assessment_def Let_def split: if_splits prod.splits)
  with r show ?thesis by (simp add: clamp100_def)
qed

theorem assessment_matches_reference_witness: "reference_score hotCPU = 74"
proof -
  have e: "Evaluate id hotCPU = Inr (projr (Evaluate id hotCPU))"
    "asConditionIndex (projr (Evaluate id hotCPU)) = Some 74"
    "evThermalThrottleEvents hotCPU < 2 ^ 58" "evObservedErrors hotCPU < 2 ^ 58"
    by code_simp+
  from assessment_matches_reference [OF e] show ?thesis by simp
qed

text \<open>The multiplication of the event count overflows for huge counts: a CPU with \<open>2 ^ 61\<close> reported
  throttling events is given a perfect index and no concern.\<close>

theorem assessment_overflow:
  "asConditionIndex (projr (Evaluate id (hotCPU\<lparr>evThermalThrottleEvents := 2 ^ 61, evVendorHealthPercent := None\<rparr>))) = Some 100 \<and>
   asStatus (projr (Evaluate id (hotCPU\<lparr>evThermalThrottleEvents := 2 ^ 61, evVendorHealthPercent := None\<rparr>))) = ''no_obvious_concern''"
  by code_simp

end
