(* ===== verification/Files.thy ===== *)
theory Files
  imports Paths Sha256
begin

text \<open>
  What the program learns about a file: the results of \<open>os.Lstat\<close> and \<open>os.ReadFile\<close>.  An error
  carries the text of the Go error value, and the two constructors for errors distinguish what
  \<open>os.IsNotExist\<close> distinguishes.  The digest of a file, common to the integrity components, is
  the hexadecimal SHA-256 of its contents.
\<close>

datatype fkind = KRegular | KSymlink | KDir | KSocket | KOther

datatype fstat = SMissing bytes | SError bytes | SInfo fkind "32 word" int

datatype fread = RMissing bytes | RError bytes | RData bytes

definition hex_sha256 :: "bytes \<Rightarrow> bytes" where
  "hex_sha256 data = hex_EncodeToString (sha256 data)"

lemma length_hex_sha256 [simp]: "length (hex_sha256 m) = 64"
  by (simp add: hex_sha256_def)

text \<open>Reading a file: \<open>os.ReadFile\<close> or \<open>os.Open\<close> and \<open>io.Copy\<close>, with whatever error occurs.\<close>

definition read_result :: "fread \<Rightarrow> bytes res" where
  "read_result r = (case r of RData d \<Rightarrow> Inr d | RMissing e \<Rightarrow> Inl e | RError e \<Rightarrow> Inl e)"

lemma read_result_Inr [err_simps]: "read_result r = Inr d \<longleftrightarrow> r = RData d"
  by (cases r) (auto simp: read_result_def)

end
