(* ===== verification/Inventory.thy ===== *)
theory Inventory
  imports Files "HOL-Library.Multiset" "HOL-Library.List_Lexorder" "HOL-Library.Char_ord"
begin

text \<open>
  The inventory of the installation (\<open>collectVerifyInventory\<close> of \<open>verify_integrity.go\<close>): the walk
  over the tree, and the pool of goroutines that hash the files.  The tree is given as the
  sequence of visits of \<open>filepath.Walk\<close>; a file is what \<open>os.Lstat\<close> and reading it return.

  The pool is a step relation: the feeder hands paths to idle workers over the unbuffered channel
  \<open>jobs\<close>, a worker puts its result into the buffered channel \<open>results\<close>, the collector takes them
  out; the channels are closed as the code closes them.  Shown here: the pool cannot deadlock,
  every run of it ends, and whatever the interleaving, the inventory is the one that hashing the
  files one after the other gives.
\<close>

subsection \<open>Records\<close>

record verifyFileRecord =
  vfPath :: bytes
  vfSize :: int
  vfSHA256 :: bytes

record verifyInventoryResult =
  virPath :: bytes
  virRecord :: verifyFileRecord
  virErr :: gerr

definition noRecord :: verifyFileRecord where
  "noRecord = \<lparr>vfPath = [], vfSize = 0, vfSHA256 = []\<rparr>"

text \<open>
  \<open>append(nil, records...)\<close> and \<open>sort.Slice\<close>: the copy of an empty slice is the nil slice, so a
  slice is \<open>None\<close> (nil) or \<open>Some xs\<close>.  Paths are ordered byte by byte; for equal paths, which the
  inventory does not have, the library leaves the order open and the model keeps it.
\<close>

type_synonym records = "verifyFileRecord list option"

definition slice_of :: "'a list option \<Rightarrow> 'a list" where
  "slice_of s = (case s of None \<Rightarrow> [] | Some xs \<Rightarrow> xs)"

definition canonicalVerifyRecords :: "records \<Rightarrow> records" where
  "canonicalVerifyRecords records =
     (if slice_of records = [] then None else Some (sort_key vfPath (slice_of records)))"

definition verifyRecordsEqual :: "records \<Rightarrow> records \<Rightarrow> bool" where
  "verifyRecordsEqual expected actual =
     (let e = slice_of (canonicalVerifyRecords expected); a = slice_of (canonicalVerifyRecords actual) in
      length e = length a \<and> list_all (\<lambda>i. e ! i = a ! i) [0..<length e])"

subsection \<open>Hashing one file\<close>

type_synonym file_view = "bytes \<Rightarrow> fstat \<times> fread"

definition verifyFileDigest :: "file_view \<Rightarrow> bytes \<Rightarrow> verifyFileRecord res" where
  "verifyFileDigest fs path =
     (case fst (fs path) of
        SMissing e \<Rightarrow> Inl e
      | SError e \<Rightarrow> Inl e
      | SInfo kind _ sz \<Rightarrow>
          if kind = KSymlink \<or> kind \<noteq> KRegular then Inl (''non-regular file: '' @ path)
          else rbind (read_result (snd (fs path)))
                 (\<lambda>data. Inr \<lparr>vfPath = path, vfSize = sz, vfSHA256 = hex_sha256 data\<rparr>))"

text \<open>The body of a worker for one path.\<close>

definition hash_path :: "file_view \<Rightarrow> bytes \<Rightarrow> bytes \<Rightarrow> verifyInventoryResult" where
  "hash_path fs dir path =
     (case verifyFileDigest fs path of
        Inl e \<Rightarrow> \<lparr>virPath = path, virRecord = noRecord, virErr = Err e\<rparr>
      | Inr r \<Rightarrow>
          (case Rel dir path of
             None \<Rightarrow> \<lparr>virPath = path, virRecord = r,
                       virErr = Err (''Rel: can'' @ CHR 0x27 # ''t make '' @ path @ '' relative to '' @ dir)\<rparr>
           | Some rel \<Rightarrow> \<lparr>virPath = path, virRecord = r\<lparr>vfPath := rel\<rparr>, virErr = nil\<rparr>))"

subsection \<open>The walk\<close>

datatype walk_entry = WError bytes | WDir bytes | WFile bytes

fun walk_paths :: "bytes \<Rightarrow> bytes \<Rightarrow> walk_entry list \<Rightarrow> bytes list res" where
  "walk_paths statePath keyPath [] = Inr []"
| "walk_paths statePath keyPath (WError e # es) = Inl e"
| "walk_paths statePath keyPath (WDir p # es) = walk_paths statePath keyPath es"
| "walk_paths statePath keyPath (WFile p # es) =
     (if Clean p = Clean statePath \<or> Clean p = Clean keyPath then walk_paths statePath keyPath es
      else rbind (walk_paths statePath keyPath es) (\<lambda>ps. Inr (p # ps)))"

subsection \<open>The pool\<close>

datatype worker = Idle | Busy bytes | Exited

record pool =
  plTodo :: "bytes list"
  plWorkers :: "worker list"
  plResults :: "verifyInventoryResult list"
  plGot :: "verifyInventoryResult list"
  plJobsClosed :: bool
  plResultsClosed :: bool

definition poolSize :: "nat \<Rightarrow> nat \<Rightarrow> nat" where
  "poolSize procs n =
     (let workers = procs; workers = (if workers > 4 then 4 else workers) in
      if workers > n then n else workers)"

definition start_pool :: "nat \<Rightarrow> bytes list \<Rightarrow> pool" where
  "start_pool workers paths =
     \<lparr>plTodo = paths, plWorkers = replicate workers Idle, plResults = [], plGot = [],
      plJobsClosed = False, plResultsClosed = False\<rparr>"

inductive pool_step :: "(bytes \<Rightarrow> verifyInventoryResult) \<Rightarrow> pool \<Rightarrow> pool \<Rightarrow> bool" for h where
  hand: "plTodo s = p # ps \<Longrightarrow> i < length (plWorkers s) \<Longrightarrow> plWorkers s ! i = Idle \<Longrightarrow>
    pool_step h s (s\<lparr>plTodo := ps, plWorkers := (plWorkers s)[i := Busy p]\<rparr>)"
| close_jobs: "plTodo s = [] \<Longrightarrow> \<not> plJobsClosed s \<Longrightarrow> pool_step h s (s\<lparr>plJobsClosed := True\<rparr>)"
| send: "i < length (plWorkers s) \<Longrightarrow> plWorkers s ! i = Busy p \<Longrightarrow> length (plResults s) < length (plWorkers s) \<Longrightarrow>
    pool_step h s (s\<lparr>plWorkers := (plWorkers s)[i := Idle], plResults := plResults s @ [h p]\<rparr>)"
| exit: "plJobsClosed s \<Longrightarrow> i < length (plWorkers s) \<Longrightarrow> plWorkers s ! i = Idle \<Longrightarrow>
    pool_step h s (s\<lparr>plWorkers := (plWorkers s)[i := Exited]\<rparr>)"
| close_results: "plJobsClosed s \<Longrightarrow> list_all (\<lambda>w. w = Exited) (plWorkers s) \<Longrightarrow> \<not> plResultsClosed s \<Longrightarrow>
    pool_step h s (s\<lparr>plResultsClosed := True\<rparr>)"
| recv: "plResults s = r # rs \<Longrightarrow> pool_step h s (s\<lparr>plResults := rs, plGot := plGot s @ [r]\<rparr>)"

inductive_cases pool_stepE: "pool_step h s s'"

text \<open>The collector has left its loop: the channel is closed and drained.\<close>

definition pool_done :: "pool \<Rightarrow> bool" where
  "pool_done s = (plResultsClosed s \<and> plResults s = [])"

subsection \<open>Collecting\<close>

fun collect_results :: "verifyInventoryResult list \<Rightarrow> gerr \<times> verifyFileRecord list" where
  "collect_results [] = (nil, [])"
| "collect_results (r # rs) =
     (case collect_results rs of (later, records) \<Rightarrow>
        (case virErr r of
           Some e \<Rightarrow> (Err (''inventory '' @ Base (virPath r) @ '': '' @ e), records)
         | None \<Rightarrow> (later, virRecord r # records)))"

text \<open>
  \<open>arrive\<close> is the order in which the results of the pool arrive, a permutation of the paths by the
  theorems below.
\<close>

definition collectVerifyInventory ::
  "(bytes list \<Rightarrow> bytes list) \<Rightarrow> file_view \<Rightarrow> bytes \<Rightarrow> bytes \<Rightarrow> walk_entry list \<Rightarrow> bytes \<Rightarrow> records res" where
  "collectVerifyInventory arrive fs statePath keyPath walk dir =
     rbind (walk_paths statePath keyPath walk) (\<lambda>paths.
       if paths = [] then Inr (Some [])
       else (case collect_results (map (hash_path fs dir) (arrive paths)) of
               (Some e, _) \<Rightarrow> Inl e
             | (None, records) \<Rightarrow> Inr (canonicalVerifyRecords (Some records))))"

subsection \<open>The pool: invariant, progress and termination\<close>

definition busy :: "worker list \<Rightarrow> bytes list" where
  "busy ws = concat (map (\<lambda>w. case w of Busy p \<Rightarrow> [p] | _ \<Rightarrow> []) ws)"

definition pool_inv :: "(bytes \<Rightarrow> verifyInventoryResult) \<Rightarrow> nat \<Rightarrow> bytes list \<Rightarrow> pool \<Rightarrow> bool" where
  "pool_inv h n paths s =
     (mset (map h (plTodo s)) + mset (map h (busy (plWorkers s))) + mset (plResults s) + mset (plGot s)
        = mset (map h paths)
      \<and> length (plWorkers s) = n
      \<and> (plJobsClosed s \<longrightarrow> plTodo s = [])
      \<and> (Exited \<in> set (plWorkers s) \<longrightarrow> plJobsClosed s)
      \<and> (plResultsClosed s \<longrightarrow> plJobsClosed s \<and> list_all (\<lambda>w. w = Exited) (plWorkers s)))"

fun weight :: "worker \<Rightarrow> nat" where
  "weight Idle = 1"
| "weight (Busy p) = 3"
| "weight Exited = 0"

definition pool_measure :: "pool \<Rightarrow> nat" where
  "pool_measure s = 3 * length (plTodo s) + sum_list (map weight (plWorkers s)) + length (plResults s)
     + (if plJobsClosed s then 0 else 1) + (if plResultsClosed s then 0 else 1)"

lemma mset_busy_update:
  assumes "i < length ws"
  shows "mset (busy (ws[i := w])) + mset (busy [ws ! i]) = mset (busy ws) + mset (busy [w])"
  using assms
proof (induction ws arbitrary: i)
  case (Cons v ws)
  then show ?case by (cases i) (auto simp: busy_def add_ac)
qed simp

lemma weight_update:
  assumes "i < length ws"
  shows "sum_list (map weight (ws[i := w])) + weight (ws ! i) = sum_list (map weight ws) + weight w"
  using assms
proof (induction ws arbitrary: i)
  case (Cons v ws)
  then show ?case by (cases i) auto
qed simp

lemma pool_step_measure: "pool_step h s s' \<Longrightarrow> pool_measure s' < pool_measure s"
proof (induction rule: pool_step.induct)
  case (hand s p ps i)
  with weight_update [of i "plWorkers s" "Busy p"] show ?case by (simp add: pool_measure_def)
next
  case (send i s p)
  with weight_update [of i "plWorkers s" Idle] show ?case by (simp add: pool_measure_def)
next
  case (exit s i)
  with weight_update [of i "plWorkers s" Exited] show ?case by (simp add: pool_measure_def)
qed (simp_all add: pool_measure_def)

lemma pool_inv_start: "pool_inv h n paths (start_pool n paths)"
  by (cases n) (auto simp: pool_inv_def start_pool_def busy_def)

lemma pool_inv_step: "pool_step h s s' \<Longrightarrow> pool_inv h n paths s \<Longrightarrow> pool_inv h n paths s'"
proof (induction rule: pool_step.induct)
  case (hand s p ps i)
  have "Exited \<in> set (plWorkers s)" if "Exited \<in> set ((plWorkers s)[i := Busy p])"
    using that set_update_subset_insert by fastforce
  moreover have "\<not> list_all (\<lambda>w. w = Exited) (plWorkers s)"
    using hand(2,3) by (auto simp: list_all_length)
  moreover have "mset (map h (busy ((plWorkers s)[i := Busy p]))) = mset (map h (busy (plWorkers s))) + {#h p#}"
    using arg_cong [OF mset_busy_update [OF hand(2), of "Busy p"], of "image_mset h"] hand(3) by (simp add: busy_def)
  ultimately show ?case using hand by (auto simp: pool_inv_def)
next
  case (send i s p)
  have "Exited \<in> set (plWorkers s)" if "Exited \<in> set ((plWorkers s)[i := Idle])"
    using that set_update_subset_insert by fastforce
  moreover have "\<not> list_all (\<lambda>w. w = Exited) (plWorkers s)"
    using send(1,2) by (auto simp: list_all_length)
  moreover have "mset (map h (busy (plWorkers s))) = mset (map h (busy ((plWorkers s)[i := Idle]))) + {#h p#}"
    using arg_cong [OF mset_busy_update [OF send(1), of Idle], of "image_mset h"] send(2) by (simp add: busy_def)
  ultimately show ?case using send by (auto simp: pool_inv_def ac_simps)
next
  case (exit s i)
  have "\<not> list_all (\<lambda>w. w = Exited) (plWorkers s)"
    using exit(2,3) by (auto simp: list_all_length)
  moreover have "mset (map h (busy ((plWorkers s)[i := Exited]))) = mset (map h (busy (plWorkers s)))"
    using arg_cong [OF mset_busy_update [OF exit(2), of Exited], of "image_mset h"] exit(3) by (simp add: busy_def)
  ultimately show ?case using exit by (auto simp: pool_inv_def)
qed (auto simp: pool_inv_def)

lemma pool_progress:
  assumes inv: "pool_inv h n paths s" and "0 < n" and "\<not> pool_done s"
  shows "\<exists>s'. pool_step h s s'"
proof (cases "plResults s")
  case (Cons r rs)
  then show ?thesis using pool_step.recv by blast
next
  case Nil
  consider (busy) i p where "i < length (plWorkers s)" "plWorkers s ! i = Busy p"
    | (idle) i where "i < length (plWorkers s)" "plWorkers s ! i = Idle"
    | (exited) "list_all (\<lambda>w. w = Exited) (plWorkers s)"
    unfolding list_all_length by (metis worker.exhaust)
  then show ?thesis
  proof cases
    case busy
    moreover have "length (plResults s) < length (plWorkers s)" using Nil busy(1) by auto
    ultimately show ?thesis using pool_step.send [of i s p h] by blast
  next
    case idle
    then show ?thesis using pool_step.hand [of s _ _ i] pool_step.close_jobs [of s] pool_step.exit [of s i]
      by (cases "plTodo s"; cases "plJobsClosed s") blast+
  next
    case exited
    then have "plWorkers s ! 0 = Exited" "0 < length (plWorkers s)"
      using inv \<open>0 < n\<close> by (auto simp: list_all_length pool_inv_def)
    then have "plJobsClosed s" using inv by (auto simp: pool_inv_def in_set_conv_nth)
    moreover have "\<not> plResultsClosed s" using assms(3) Nil by (simp add: pool_done_def)
    ultimately show ?thesis using pool_step.close_results exited by blast
  qed
qed

lemma pool_done_got:
  assumes "pool_inv h n paths s" and "pool_done s"
  shows "mset (plGot s) = mset (map h paths)"
proof -
  have "busy (plWorkers s) = []" if "list_all (\<lambda>w. w = Exited) (plWorkers s)"
    using that by (auto simp: busy_def list_all_iff)
  with assms show ?thesis by (auto simp: pool_inv_def pool_done_def)
qed

lemma pool_run:
  "(pool_step h ^^ k) (start_pool n paths) s \<Longrightarrow> pool_inv h n paths s \<and> k + pool_measure s \<le> pool_measure (start_pool n paths)"
proof (induction k arbitrary: s)
  case 0
  then show ?case using pool_inv_start by auto
next
  case (Suc k)
  then obtain t where "(pool_step h ^^ k) (start_pool n paths) t" "pool_step h t s" by auto
  with Suc.IH pool_inv_step pool_step_measure show ?case by fastforce
qed

lemma pool_finishes:
  assumes "pool_inv h n paths s" and "0 < n"
  shows "\<exists>s'. (pool_step h)\<^sup>*\<^sup>* s s' \<and> pool_done s'"
  using assms(1)
proof (induction "pool_measure s" arbitrary: s rule: less_induct)
  case less
  show ?case
  proof (cases "pool_done s")
    case False
    then obtain t where t: "pool_step h s t" using pool_progress less.prems assms(2) by blast
    with less pool_step_measure pool_inv_step obtain s' where "(pool_step h)\<^sup>*\<^sup>* t s'" "pool_done s'" by blast
    with t show ?thesis by (meson converse_rtranclp_into_rtranclp)
  qed auto
qed

subsection \<open>The order of arrival\<close>

lemma collect_results_err: "fst (collect_results rs) = None \<longleftrightarrow> (\<forall>r \<in> set rs. virErr r = None)"
  by (induction rs) (auto split: prod.split option.split)

lemma collect_results_records: "fst (collect_results rs) = None \<Longrightarrow> snd (collect_results rs) = map virRecord rs"
  by (induction rs) (auto split: prod.splits option.splits)

lemma sort_key_sorted: "sorted (map f xs) \<Longrightarrow> sort_key f xs = xs"
  by (induction xs) (simp_all add: insort_is_Cons)

lemma mset_map_order:
  assumes "mset ys = mset (map f xs)"
  shows "\<exists>zs. mset zs = mset xs \<and> ys = map f zs"
  using assms
proof (induction ys arbitrary: xs)
  case (Cons y ys)
  then have "y \<in> f ` set xs" by (metis list.set_intros(1) list.set_map set_mset_mset)
  then obtain x where x: "x \<in> set xs" "f x = y" by blast
  then have "mset (map f xs) = add_mset y (mset (map f (remove1 x xs)))"
    by (metis (no_types) image_mset_add_mset insert_DiffM mset_map mset_remove1 set_mset_mset)
  with Cons.prems have "mset ys = mset (map f (remove1 x xs))" by simp
  from Cons.IH [OF this] obtain zs where "mset zs = mset (remove1 x xs)" "ys = map f zs" by blast
  with x show ?case by (intro exI [of _ "x # zs"]) simp
qed simp

text \<open>Relative paths of different files are different.\<close>

lemma Join_inj:
  assumes "Join cs [slash] = Join ds [slash]" and "cs \<noteq> []" and "ds \<noteq> []"
    and "\<forall>c \<in> set cs. slash \<notin> set c" and "\<forall>c \<in> set ds. slash \<notin> set c"
  shows "cs = ds"
  using Split_Join [of cs slash] Split_Join [of ds slash] assms by metis

lemma Join_dot: "\<forall>c \<in> set cs. comp_ok c \<Longrightarrow> cs \<noteq> [] \<Longrightarrow> Join cs [slash] \<noteq> ''.''"
proof
  assume cs: "\<forall>c \<in> set cs. comp_ok c" "cs \<noteq> []" and "Join cs [slash] = ''.''"
  moreover have "Split ''.'' slash = [''.'']" by simp
  ultimately have "cs = [''.'']" using Split_Join [of cs slash] by (simp add: comp_ok_def)
  with cs(1) show False by (simp add: comp_ok_def)
qed

lemma Rel_text_inj:
  assumes "(if cs = [] then ''.'' else Join cs [slash]) = (if ds = [] then ''.'' else Join ds [slash])"
    and "\<forall>c \<in> set cs. comp_ok c" and "\<forall>c \<in> set ds. comp_ok c"
  shows "cs = ds"
proof (cases "cs = [] \<or> ds = []")
  case True
  with assms Join_dot [of cs] Join_dot [of ds] show ?thesis by (metis (full_types))
next
  case False
  with assms show ?thesis using Join_inj [of cs ds] by (simp add: comp_ok_def)
qed

lemma ups_inj:
  assumes "map (\<lambda>_. u) as @ xs = map (\<lambda>_. u) bs @ ys" and "u \<notin> set xs" and "u \<notin> set ys"
  shows "length as = length bs \<and> xs = ys"
proof -
  have "takeWhile (\<lambda>c. c = u) (map (\<lambda>_. u) zs @ ws) = map (\<lambda>_. u) zs" if "u \<notin> set ws" for zs :: "'z list" and ws
    using that by (induction zs) (auto simp: takeWhile_eq_Nil_iff)
  from arg_cong [OF assms(1), of "takeWhile (\<lambda>c. c = u)"] this [of xs as] this [of ys bs] assms
  have "map (\<lambda>_. u) as = map (\<lambda>_. u) bs" by simp
  with assms(1) show ?thesis by (metis length_map same_append_eq)
qed

lemma Rel_inj:
  assumes abs: "IsAbs dir" "IsAbs p" "IsAbs q" and "Rel dir p = Some r" and "Rel dir q = Some r"
  shows "Clean p = Clean q"
proof -
  have form: "\<exists>rb rt pre. clean_comps dir = pre @ rb \<and> clean_comps x = pre @ rt \<and>
      r = (if map (\<lambda>_. ''..'') rb @ rt = [] then ''.'' else Join (map (\<lambda>_. ''..'') rb @ rt) [slash]) \<and> ''..'' \<notin> set rt
      \<and> (\<forall>c \<in> set (map (\<lambda>_. ''..'') rb @ rt). comp_ok c)"
    if x: "IsAbs x" "Rel dir x = Some r" for x
  proof (cases "Clean dir = Clean x")
    case True
    with x abs(1) have "clean_comps dir = clean_comps x" "r = ''.''"
      using clean_comps_Clean by (metis, simp add: Rel_def)
    then show ?thesis by (intro exI [of _ "[]"] exI [of _ "clean_comps dir"]) simp
  next
    case False
    obtain rb rt where s: "strip_common (clean_comps dir) (clean_comps x) = (rb, rt)" by fastforce
    from strip_common_append [OF s] obtain pre where pre: "clean_comps dir = pre @ rb" "clean_comps x = pre @ rt" by blast
    have "rb \<noteq> [] \<or> rt \<noteq> []" using False pre Clean_abs x(1) abs(1) by auto
    moreover have "r = Join (map (\<lambda>_. ''..'') rb @ rt) [slash]"
      using x abs(1) False s by (auto simp: Rel_def split: if_splits)
    moreover have "''..'' \<notin> set rt" using clean_comps_no_up [OF x(1)] pre(2) by simp
    moreover have "\<forall>c \<in> set rt. comp_ok c" using clean_comps_ok [of _ x] pre(2) by auto
    moreover have "comp_ok ''..''" by (simp add: comp_ok_def)
    ultimately show ?thesis using pre by (intro exI [of _ rb] exI [of _ rt] exI [of _ pre]) auto
  qed
  from form [OF abs(2) assms(4)] form [OF abs(3) assms(5)]
  obtain rb rt pre rb' rt' pre' where
    p: "clean_comps dir = pre @ rb" "clean_comps p = pre @ rt" "''..'' \<notin> set rt" "\<forall>c \<in> set (map (\<lambda>_. ''..'') rb @ rt). comp_ok c"
      "r = (if map (\<lambda>_. ''..'') rb @ rt = [] then ''.'' else Join (map (\<lambda>_. ''..'') rb @ rt) [slash])" and
    q: "clean_comps dir = pre' @ rb'" "clean_comps q = pre' @ rt'" "''..'' \<notin> set rt'" "\<forall>c \<in> set (map (\<lambda>_. ''..'') rb' @ rt'). comp_ok c"
      "r = (if map (\<lambda>_. ''..'') rb' @ rt' = [] then ''.'' else Join (map (\<lambda>_. ''..'') rb' @ rt') [slash])"
    by blast
  have "map (\<lambda>_. ''..'') rb @ rt = map (\<lambda>_. ''..'') rb' @ rt'"
    by (rule Rel_text_inj [OF trans [OF p(5) [symmetric] q(5)] p(4) q(4)])
  then have "length rb = length rb'" "rt = rt'" using ups_inj [OF _ p(3) q(3)] by blast+
  with p(1) q(1) have "pre = pre'" by (metis append_eq_append_conv)
  with p(2) q(2) \<open>rt = rt'\<close> have "clean_comps p = clean_comps q" by simp
  with abs show ?thesis by (simp add: Clean_abs)
qed

lemma hash_path_ok:
  assumes "virErr (hash_path fs dir p) = None"
  shows "\<exists>r. Rel dir p = Some r \<and> vfPath (virRecord (hash_path fs dir p)) = r"
  using assms by (auto simp: hash_path_def split: sum.splits option.splits)

lemma inventory_paths_distinct:
  assumes "distinct (map Clean paths)" and "IsAbs dir" and "\<forall>p \<in> set paths. IsAbs p"
    and "\<forall>p \<in> set paths. virErr (hash_path fs dir p) = None"
  shows "inj_on vfPath ((\<lambda>p. virRecord (hash_path fs dir p)) ` set paths)"
proof (rule inj_onI, elim imageE, simp)
  fix p q
  assume pq: "p \<in> set paths" "q \<in> set paths"
    and eq: "vfPath (virRecord (hash_path fs dir p)) = vfPath (virRecord (hash_path fs dir q))"
  have "Clean p = Clean q"
    using Rel_inj assms(2-4) pq eq hash_path_ok by metis
  with assms(1) pq have "p = q" by (simp add: distinct_map inj_on_def)
  then show "virRecord (hash_path fs dir p) = virRecord (hash_path fs dir q)" by simp
qed

text \<open>Results in another order are the same inventory, or fail too.\<close>

lemma collect_order:
  fixes fs
  assumes "mset order = mset paths" and "distinct (map Clean paths)" and "IsAbs dir" and "\<forall>p \<in> set paths. IsAbs p"
  defines "seq \<equiv> collect_results (map (hash_path fs dir) paths)" and "par \<equiv> collect_results (map (hash_path fs dir) order)"
  shows "(fst par = None \<longleftrightarrow> fst seq = None) \<and>
    (fst seq = None \<longrightarrow> canonicalVerifyRecords (Some (snd par)) = canonicalVerifyRecords (Some (snd seq)))"
proof -
  have set: "set order = set paths" using assms(1) mset_eq_setD by blast
  then have err: "fst par = None \<longleftrightarrow> fst seq = None" by (simp add: par_def seq_def collect_results_err)
  have "sort_key vfPath (snd par) = sort_key vfPath (snd seq)" if "fst seq = None"
  proof -
    let ?rec = "\<lambda>p. virRecord (hash_path fs dir p)"
    have records: "snd seq = map ?rec paths" "snd par = map ?rec order"
      using that err by (simp_all add: seq_def par_def collect_results_records)
    have "\<forall>p \<in> set paths. virErr (hash_path fs dir p) = None"
      using that by (simp add: seq_def collect_results_err)
    from inventory_paths_distinct [OF assms(2-4) this] have "inj_on vfPath (set (snd par))"
      by (simp add: records set)
    moreover have "mset (snd par) = mset (sort_key vfPath (snd seq))"
      using assms(1) by (simp add: records)
    ultimately show ?thesis by (intro sort_key_inj_key_eq) simp_all
  qed
  moreover have "snd par = [] \<longleftrightarrow> snd seq = []" if "fst seq = None"
    using that err assms(1) by (simp add: seq_def par_def collect_results_records) auto
  ultimately show ?thesis using err by (simp add: canonicalVerifyRecords_def slice_of_def)
qed

subsection \<open>Properties\<close>

text \<open>C21: the pool of hashing goroutines always finishes: with at least one processor and one file, every run has at most
  3n + w + 2 steps (n files, w workers), a state in which the collector has not finished always has a next step (no deadlock
  on the two channels), and when the collector finishes it has received the result of every file exactly once.\<close>

theorem inventory_pool_terminates:
  fixes fs dir procs
  assumes "paths \<noteq> []" and "0 < procs"
  defines "w \<equiv> poolSize procs (length paths)" and "h \<equiv> hash_path fs dir"
  assumes "(pool_step h ^^ k) (start_pool w paths) s"
  shows "k \<le> 3 * length paths + w + 2 \<and> (pool_done s \<or> (\<exists>s'. pool_step h s s'))
    \<and> (pool_done s \<longrightarrow> mset (plGot s) = mset (map h paths))"
proof -
  have w: "0 < w" using assms(1,2) by (simp add: w_def poolSize_def Let_def)
  have "sum_list (map weight (replicate w Idle)) = w" by (induction w) auto
  then have "pool_measure (start_pool w paths) = 3 * length paths + w + 2"
    by (simp add: pool_measure_def start_pool_def)
  with pool_run [OF assms(5)] w show ?thesis using pool_progress pool_done_got by fastforce
qed

theorem inventory_pool_terminates_witness:
  "\<exists>s'. pool_step (hash_path (\<lambda>_. (SMissing ''ENOENT'', RMissing ''ENOENT'')) ''/opt'') (start_pool 1 [''/opt/a'']) s'"
proof -
  have "poolSize 8 (length [''/opt/a'']) = 1" "\<not> pool_done (start_pool 1 [''/opt/a''])"
    by (simp_all add: poolSize_def Let_def pool_done_def start_pool_def)
  with inventory_pool_terminates [of "[''/opt/a'']" 8 0 "\<lambda>_. (SMissing ''ENOENT'', RMissing ''ENOENT'')" "''/opt''"
      "start_pool 1 [''/opt/a'']"]
  show ?thesis by simp
qed

text \<open>C22: the result does not depend on the interleaving: if the walk found absolute paths of different files, then whatever
  order the finished pool received the results in, the inventory it builds is the one that hashing the files one after the
  other builds, and it reports an error exactly when that does.\<close>

theorem inventory_is_deterministic:
  assumes "walk_paths statePath keyPath walk = Inr paths" and "paths \<noteq> []" and "distinct (map Clean paths)"
    and "IsAbs dir" and "\<forall>p \<in> set paths. IsAbs p"
    and "(pool_step (hash_path fs dir))\<^sup>*\<^sup>* (start_pool w paths) s" and "pool_done s"
  shows "case collect_results (plGot s) of
      (None, records) \<Rightarrow> collectVerifyInventory (\<lambda>ps. ps) fs statePath keyPath walk dir = Inr (canonicalVerifyRecords (Some records))
    | (Some _, _) \<Rightarrow> \<exists>e. collectVerifyInventory (\<lambda>ps. ps) fs statePath keyPath walk dir = Inl e"
proof -
  obtain k where "(pool_step (hash_path fs dir) ^^ k) (start_pool w paths) s"
    using assms(6) rtranclp_imp_relpowp by metis
  then have "mset (plGot s) = mset (map (hash_path fs dir) paths)"
    using pool_run pool_done_got assms(7) by blast
  then obtain order where "mset order = mset paths" and got: "plGot s = map (hash_path fs dir) order"
    using mset_map_order by blast
  with collect_order [OF _ assms(3-5), of order fs] show ?thesis
    using assms(1,2) by (auto simp: collectVerifyInventory_def split: prod.splits option.splits)
qed

definition demoTree :: file_view where
  "demoTree p = (SInfo KRegular 420 3, RData (if p = ''/opt/b'' then ''new'' else ''old''))"

theorem inventory_is_deterministic_witness:
  "\<exists>rs. collectVerifyInventory (\<lambda>ps. ps) demoTree ''/state'' [] [WDir ''/opt'', WFile ''/opt/a''] ''/opt'' = Inr rs"
proof -
  let ?h = "hash_path demoTree ''/opt''"
  have "Rel ''/opt'' ''/opt/a'' = Some ''a''" by code_simp
  then have h: "virErr (?h ''/opt/a'') = None"
    by (simp add: hash_path_def verifyFileDigest_def demoTree_def read_result_def)
  have walk: "walk_paths ''/state'' [] [WDir ''/opt'', WFile ''/opt/a''] = Inr [''/opt/a'']" by code_simp
  have abs: "IsAbs ''/opt''" "IsAbs ''/opt/a''" by code_simp+
  obtain s where s: "(pool_step ?h)\<^sup>*\<^sup>* (start_pool 1 [''/opt/a'']) s" "pool_done s"
    using pool_finishes [OF pool_inv_start] by (metis zero_less_one)
  have "pool_inv ?h 1 [''/opt/a''] s" using s(1) pool_run rtranclp_imp_relpowp by metis
  then have "plGot s = [?h ''/opt/a'']" using pool_done_got [OF _ s(2)] by fastforce
  with inventory_is_deterministic [OF walk _ _ abs(1) _ s] abs(2) h show ?thesis by simp
qed

end
