(* ===== verification/Unmarshal.thy ===== *)
theory Unmarshal
  imports Audio
begin

text \<open>
  \<open>encoding/json\<close> decoding into Go structs, shared by the components that read documents.  A struct
  is described by the table of its fields: the folded member name and what a value does to the
  state of decoding.  Members are stored in the order of the document, so a repeated member
  overwrites an earlier one; \<open>null\<close> leaves a value as it is, and empties a pointer or a slice; an
  array is stored over what the slice's memory holds.  With \<open>strict\<close> an unknown member is an error
  (\<open>DisallowUnknownFields\<close>).  \<open>None\<close> is an error of the decoder.
\<close>

type_synonym 's fields = "(bytes \<times> (json \<Rightarrow> 's \<Rightarrow> 's option)) list"

fun set_fields :: "bool \<Rightarrow> 's fields \<Rightarrow> (bytes \<times> json) list \<Rightarrow> 's \<Rightarrow> 's option" where
  "set_fields strict fs [] s = Some s"
| "set_fields strict fs ((k, v) # ms) s =
     (case map_of fs (fold_name k) of
        None \<Rightarrow> if strict then None else set_fields strict fs ms s
      | Some f \<Rightarrow> (case f v s of None \<Rightarrow> None | Some s' \<Rightarrow> set_fields strict fs ms s'))"

definition elem_struct :: "bool \<Rightarrow> 's fields \<Rightarrow> 's \<Rightarrow> json \<Rightarrow> 's option" where
  "elem_struct strict fs old v =
     (case v of JNull \<Rightarrow> Some old | JObj ms \<Rightarrow> set_fields strict fs ms old | _ \<Rightarrow> None)"

definition field :: "('s \<Rightarrow> 'a) \<Rightarrow> ('a \<Rightarrow> 's \<Rightarrow> 's) \<Rightarrow> ('a \<Rightarrow> json \<Rightarrow> 'a option) \<Rightarrow> json \<Rightarrow> 's \<Rightarrow> 's option" where
  "field get put elem v s = map_option (\<lambda>x. put x s) (elem (get s) v)"

definition elem_str :: "bytes \<Rightarrow> json \<Rightarrow> bytes option" where
  "elem_str old v = (case v of JNull \<Rightarrow> Some old | JStr s \<Rightarrow> Some s | _ \<Rightarrow> None)"

text \<open>A pointer field: \<open>null\<close> makes it nil, a value is stored in the pointee, which is created when needed.\<close>

definition elem_ptr :: "'a \<Rightarrow> ('a \<Rightarrow> json \<Rightarrow> 'a option) \<Rightarrow> 'a option \<Rightarrow> json \<Rightarrow> 'a option option" where
  "elem_ptr zero elem old v =
     (if v = JNull then Some None
      else map_option Some (elem (case old of None \<Rightarrow> zero | Some x \<Rightarrow> x) v))"

text \<open>A slice field: the memory of the slice and the slice itself; \<open>None\<close> in the slice is nil.\<close>

fun fill_elems :: "('a \<Rightarrow> json \<Rightarrow> 'a option) \<Rightarrow> 'a \<Rightarrow> 'a list \<Rightarrow> json list \<Rightarrow> 'a list option" where
  "fill_elems elem zero backing [] = Some backing"
| "fill_elems elem zero backing (v # vs) =
     (case elem (case backing of [] \<Rightarrow> zero | x # _ \<Rightarrow> x) v of
        None \<Rightarrow> None
      | Some y \<Rightarrow> map_option ((#) y) (fill_elems elem zero (tl backing) vs))"

definition elem_list ::
  "('a \<Rightarrow> json \<Rightarrow> 'a option) \<Rightarrow> 'a \<Rightarrow> 'a list \<times> 'a list option \<Rightarrow> json \<Rightarrow> ('a list \<times> 'a list option) option" where
  "elem_list elem zero old v =
     (case v of
        JNull \<Rightarrow> Some ([], None)
      | JArr [] \<Rightarrow> Some ([], Some [])
      | JArr vs \<Rightarrow> map_option (\<lambda>b. (b, Some (take (length vs) b))) (fill_elems elem zero (fst old) vs)
      | _ \<Rightarrow> None)"

text \<open>
  \<open>json.Decoder.Decode\<close> reads the first value of a stream and leaves the rest.  No proper prefix of an object
  is a document, so an object (or \<open>null\<close>) at the head of the stream is its shortest prefix that is one;
  for a struct every other kind of value is an error, whatever its extent.
\<close>

definition first_value :: "bytes \<Rightarrow> json option" where
  "first_value s =
     (case find (\<lambda>n. json_decode (take n s) \<noteq> None) [0..<Suc (length s)] of
        None \<Rightarrow> None
      | Some n \<Rightarrow> json_decode (take n s))"

subsection \<open>What a decoded value satisfies\<close>

text \<open>A property of the state of decoding that every field of the table keeps.\<close>

lemma set_fields_inv:
  assumes "set_fields strict fs ms s = Some s'" and "P s"
    and "\<And>n f v t t'. (n, f) \<in> set fs \<Longrightarrow> f v t = Some t' \<Longrightarrow> P t \<Longrightarrow> P t'"
  shows "P s'"
  using assms(1,2)
proof (induction ms arbitrary: s)
  case (Cons m ms)
  obtain k v where m: "m = (k, v)" by fastforce
  from Cons show ?case
    by (auto simp: m split: option.splits if_splits dest: map_of_SomeD assms(3))
qed simp

lemma fill_elems_fresh:
  "list_all2 (\<lambda>v x. elem zero v = Some x) vs xs \<Longrightarrow> fill_elems elem zero [] vs = Some xs"
  by (induction vs xs rule: list_all2_induct) simp_all

lemma elem_list_fresh:
  assumes "list_all2 (\<lambda>v x. elem zero v = Some x) vs xs"
  shows "elem_list elem zero ([], r) (JArr vs) = Some (xs, Some xs)"
proof (cases vs)
  case (Cons w ws)
  with fill_elems_fresh [of elem zero vs xs, OF assms] list_all2_lengthD [OF assms] show ?thesis
    by (simp add: elem_list_def del: fill_elems.simps)
qed (use assms in \<open>simp add: elem_list_def\<close>)

end
