(* ===== verification/Verify.thy ===== *)
theory Verify
  imports Inventory JsonText Unmarshal WinPaths
begin

text \<open>
  The installation baseline (\<open>verify_integrity.go\<close>): the state document with its HMAC, writing it
  through a temporary file, and \<open>verifyInstallationStateWithKey\<close>, which creates the baseline on
  the first start and compares the inventory with it afterwards.  The state file is what reading
  it returns; the result of a call holds the file as it is left behind.  The place of the
  state follows the rules of the system, the relative paths of its records those of Unix;
  the text of a decoding error is left out of the message that wraps it.

  Shown here: a baseline that was written is accepted exactly as long as the inventory is the
  same; whatever is accepted carries a valid tag, and the tag determines the records.
\<close>

subsection \<open>The document\<close>

record verifyState =
  vsVersion :: int
  vsFiles :: records
  vsMAC :: bytes

definition verifyStateVersion :: int where
  "verifyStateVersion = 1"

definition record_json :: "verifyFileRecord \<Rightarrow> json" where
  "record_json r = JObj [(''path'', JStr (vfPath r)), (''size'', JNum (FormatInt (vfSize r))), (''sha256'', JStr (vfSHA256 r))]"

definition state_json :: "verifyState \<Rightarrow> json" where
  "state_json st = JObj
     [(''version'', JNum (FormatInt (vsVersion st))),
      (''files'', case vsFiles st of None \<Rightarrow> JNull | Some rs \<Rightarrow> JArr (map record_json rs)),
      (''mac'', JStr (vsMAC st))]"

text \<open>An ignored error of \<open>json.Marshal\<close> leaves the nil slice.\<close>

definition verifyStatePayload :: "verifyState \<Rightarrow> bytes" where
  "verifyStatePayload st = (case json_marshal (state_json (st\<lparr>vsMAC := []\<rparr>)) of Inr payload \<Rightarrow> payload | Inl _ \<Rightarrow> [])"

definition verifyStateMAC :: "bytes \<Rightarrow> verifyState \<Rightarrow> bytes" where
  "verifyStateMAC key st = hex_EncodeToString (hmac_sha256 key (verifyStatePayload st))"

subsection \<open>Reading the document\<close>

fun set_record_fields :: "(bytes \<times> json) list \<Rightarrow> verifyFileRecord \<Rightarrow> verifyFileRecord option" where
  "set_record_fields [] r = Some r"
| "set_record_fields ((k, v) # ms) r =
     (let n = fold_name k in
      case (if n = ''path'' then map_option (\<lambda>s. r\<lparr>vfPath := s\<rparr>) (elem_str (vfPath r) v)
            else if n = ''size'' then map_option (\<lambda>i. r\<lparr>vfSize := i\<rparr>) (elem_int (vfSize r) v)
            else if n = ''sha256'' then map_option (\<lambda>s. r\<lparr>vfSHA256 := s\<rparr>) (elem_str (vfSHA256 r) v)
            else Some r) of
        None \<Rightarrow> None
      | Some r' \<Rightarrow> set_record_fields ms r')"

definition elem_record :: "verifyFileRecord \<Rightarrow> json \<Rightarrow> verifyFileRecord option" where
  "elem_record old v =
     (case v of JNull \<Rightarrow> Some old | JObj ms \<Rightarrow> set_record_fields ms old | _ \<Rightarrow> None)"

text \<open>As for audio requests, an array is stored over what an earlier member left in the slice's memory.\<close>

fun fill_records :: "verifyFileRecord list \<Rightarrow> json list \<Rightarrow> verifyFileRecord list option" where
  "fill_records backing [] = Some backing"
| "fill_records backing (v # vs) =
     (case elem_record (case backing of [] \<Rightarrow> noRecord | r # _ \<Rightarrow> r) v of
        None \<Rightarrow> None
      | Some r \<Rightarrow> map_option ((#) r) (fill_records (tl backing) vs))"

definition elem_records :: "verifyFileRecord list \<Rightarrow> json \<Rightarrow> (verifyFileRecord list \<times> records) option" where
  "elem_records backing v =
     (case v of
        JNull \<Rightarrow> Some ([], None)
      | JArr [] \<Rightarrow> Some ([], Some [])
      | JArr vs \<Rightarrow> map_option (\<lambda>b. (b, Some (take (length vs) b))) (fill_records backing vs)
      | _ \<Rightarrow> None)"

fun set_state_fields :: "(bytes \<times> json) list \<Rightarrow> verifyFileRecord list \<times> verifyState \<Rightarrow> verifyState option" where
  "set_state_fields [] st = Some (snd st)"
| "set_state_fields ((k, v) # ms) (b, st) =
     (let n = fold_name k in
      case (if n = ''version'' then map_option (\<lambda>i. (b, st\<lparr>vsVersion := i\<rparr>)) (elem_int (vsVersion st) v)
            else if n = ''files'' then map_option (\<lambda>(b', rs). (b', st\<lparr>vsFiles := rs\<rparr>)) (elem_records b v)
            else if n = ''mac'' then map_option (\<lambda>s. (b, st\<lparr>vsMAC := s\<rparr>)) (elem_str (vsMAC st) v)
            else Some (b, st)) of
        None \<Rightarrow> None
      | Some st' \<Rightarrow> set_state_fields ms st')"

definition emptyState :: verifyState where
  "emptyState = \<lparr>vsVersion = 0, vsFiles = None, vsMAC = []\<rparr>"

text \<open>\<open>json.Unmarshal(data, &state)\<close>; a document \<open>null\<close> changes nothing.\<close>

definition decode_state :: "bytes \<Rightarrow> verifyState option" where
  "decode_state data =
     (case json_decode data of
        Some (JObj ms) \<Rightarrow> set_state_fields ms ([], emptyState)
      | Some JNull \<Rightarrow> Some emptyState
      | _ \<Rightarrow> None)"

subsection \<open>Writing the document\<close>

definition verifyStateDir :: "bytes \<Rightarrow> bytes \<Rightarrow> bytes \<Rightarrow> bytes \<Rightarrow> bytes" where
  "verifyStateDir goos configured dataDir tempDir =
     (if TrimSpace configured \<noteq> [] then TrimSpace configured
      else if TrimSpace dataDir \<noteq> [] then osJoin goos [TrimSpace dataDir, ''HWControl'', ''security'', ''state'']
      else osJoin goos [osDir goos tempDir, ''hwcontrol-security-state''])"

definition verifyStatePath :: "bytes \<Rightarrow> bytes \<Rightarrow> bytes" where
  "verifyStatePath goos dir = osJoin goos [dir, ''verify.state'']"

text \<open>The outcome of the calls that write the file, in the order of the code.\<close>

record write_env =
  wrMkdir :: gerr
  wrTemp :: gerr
  wrChmod :: gerr
  wrWrite :: gerr
  wrSync :: gerr
  wrClose :: gerr
  wrRename :: gerr

definition writeVerifyState :: "write_env \<Rightarrow> verifyState \<Rightarrow> fread \<Rightarrow> gerr \<times> fread" where
  "writeVerifyState wr st file =
     (case wrMkdir wr of
        Some e \<Rightarrow> (Err (''create verify state directory: '' @ e), file)
      | None \<Rightarrow>
          (case json_marshal_indent (state_json (st\<lparr>vsFiles := canonicalVerifyRecords (vsFiles st)\<rparr>)) of
             Inl e \<Rightarrow> (Err e, file)
           | Inr data \<Rightarrow>
               (case seq_err (wrTemp wr) (seq_err (wrChmod wr) (seq_err (wrWrite wr)
                       (seq_err (wrSync wr) (seq_err (wrClose wr) (wrRename wr))))) of
                  Some e \<Rightarrow> (Err e, file)
                | None \<Rightarrow> (nil, RData data))))"

subsection \<open>Verification\<close>

text \<open>The inventory, or its error, as \<open>collectVerifyInventory\<close> returns it for the root, is an argument.\<close>

definition verifyInstallationStateWithKey :: "write_env \<Rightarrow> records res \<Rightarrow> bytes \<Rightarrow> fread \<Rightarrow> gerr \<times> fread" where
  "verifyInstallationStateWithKey wr inventory key file =
     (case file of
        RMissing _ \<Rightarrow>
          (case inventory of
             Inl e \<Rightarrow> (Err (''create verify baseline: '' @ e), file)
           | Inr records \<Rightarrow>
               (let st = \<lparr>vsVersion = verifyStateVersion, vsFiles = records, vsMAC = []\<rparr>;
                    st = st\<lparr>vsMAC := verifyStateMAC key st\<rparr> in
                case writeVerifyState wr st file of
                  (Some e, file') \<Rightarrow> (Err (''persist verify baseline: '' @ e), file')
                | (None, file') \<Rightarrow> (nil, file')))
      | RError e \<Rightarrow> (Err (''read verify state: '' @ e), file)
      | RData data \<Rightarrow>
          (case decode_state data of
             None \<Rightarrow> (Err ''verify state is invalid'', file)
           | Some st \<Rightarrow>
               if vsVersion st \<noteq> verifyStateVersion then (Err ''verify state version mismatch'', file)
               else if (case hex_DecodeString (vsMAC st) of
                          None \<Rightarrow> True
                        | Some mac \<Rightarrow> verifyStateMAC key st \<noteq> vsMAC st \<or> length mac \<noteq> 32)
               then (Err ''verify state authentication failed'', file)
               else (case inventory of
                       Inl e \<Rightarrow> (Err (''collect current installation inventory: '' @ e), file)
                     | Inr actual \<Rightarrow>
                         if \<not> verifyRecordsEqual (vsFiles st) actual
                         then (Err ''installation inventory changed: file added, removed, or modified'', file)
                         else (nil, file))))"

subsection \<open>Laws of the document\<close>

definition int64 :: "int \<Rightarrow> bool" where
  "int64 i = (- (2 ^ 63) \<le> i \<and> i < 2 ^ 63)"

definition record_ok :: "verifyFileRecord \<Rightarrow> bool" where
  "record_ok r = (valid_utf8 (vfPath r) \<and> int64 (vfSize r) \<and> valid_utf8 (vfSHA256 r))"

definition state_ok :: "verifyState \<Rightarrow> bool" where
  "state_ok st = (int64 (vsVersion st) \<and> list_all record_ok (slice_of (vsFiles st)) \<and> valid_utf8 (vsMAC st))"

lemma hex_ascii: "list_all (\<lambda>c. byte c < 0x80) (hex_EncodeToString s)"
proof -
  have "byte (hex_digit n) < 0x80" if "n < 16" for n
    using hex_val_digit [OF that] by (auto simp: hex_val_def Let_def split: if_splits)
  moreover have "byte c div 16 < 16" for c by (rule less_mult_imp_div_less) simp
  ultimately show ?thesis by (induction s) simp_all
qed

lemma valid_hex [simp]: "valid_utf8 (hex_EncodeToString s)"
  by (rule valid_utf8_ascii [OF hex_ascii])

lemma member_names [simp]:
  "valid_utf8 ''path''" "valid_utf8 ''size''" "valid_utf8 ''sha256''" "valid_utf8 ''version''" "valid_utf8 ''files''"
  "valid_utf8 ''mac''"
  by (simp_all add: valid_utf8_ascii)

lemma record_json_ok: "record_ok r \<Longrightarrow> json_ok (record_json r)" "shallow (Suc n) (record_json r)"
  by (simp_all add: record_json_def record_ok_def number_ok_FormatInt)

lemma state_json_ok: "state_ok st \<Longrightarrow> json_ok (state_json st)" "shallow 100 (state_json st)"
proof -
  have "shallow (Suc (Suc (Suc n))) (state_json st)" for n
    by (auto simp: state_json_def list_all_iff record_json_ok(2) split: option.split)
  from this [of 97] show "shallow 100 (state_json st)" by (simp add: numeral_eq_Suc)
  show "state_ok st \<Longrightarrow> json_ok (state_json st)"
    by (auto simp: state_json_def state_ok_def slice_of_def list_all_iff number_ok_FormatInt record_json_ok(1)
        split: option.split)
qed

lemma fold_names [simp]:
  "fold_name ''path'' = ''path''" "fold_name ''size'' = ''size''" "fold_name ''sha256'' = ''sha256''"
  "fold_name ''version'' = ''version''" "fold_name ''files'' = ''files''" "fold_name ''mac'' = ''mac''"
  by code_simp+

lemma elem_record_json: "record_ok r \<Longrightarrow> elem_record old (record_json r) = Some r"
  by (simp add: elem_record_def record_json_def record_ok_def int64_def elem_str_def elem_int_def Atoi_FormatInt
      del: fold_name.simps)

lemma fill_records_json: "list_all record_ok rs \<Longrightarrow> fill_records [] (map record_json rs) = Some rs"
  by (induction rs) (simp_all add: elem_record_json)

lemma elem_records_json:
  assumes "list_all record_ok (slice_of rs)"
  shows "map_option snd (elem_records [] (case rs of None \<Rightarrow> JNull | Some xs \<Rightarrow> JArr (map record_json xs))) = Some rs"
proof (cases rs)
  case (Some xs)
  with assms fill_records_json [of xs] show ?thesis
    by (cases xs) (simp_all add: elem_records_def slice_of_def del: fill_records.simps)
qed (simp add: elem_records_def)

lemma state_fields_json:
  assumes "state_ok st"
  shows "\<exists>ms. state_json st = JObj ms \<and> set_state_fields ms ([], emptyState) = Some st"
proof -
  obtain b where b: "elem_records [] (case vsFiles st of None \<Rightarrow> JNull | Some xs \<Rightarrow> JArr (map record_json xs)) = Some (b, vsFiles st)"
    using elem_records_json [of "vsFiles st"] assms by (auto simp: state_ok_def)
  have v: "elem_int old (JNum (FormatInt (vsVersion st))) = Some (vsVersion st)" for old
    using assms by (simp add: elem_int_def Atoi_FormatInt state_ok_def int64_def)
  show ?thesis
    by (simp add: state_json_def v b elem_str_def emptyState_def del: fold_name.simps)
qed

lemma decode_state_json: "state_ok st \<Longrightarrow> json_decode d = Some (state_json st) \<Longrightarrow> decode_state d = Some st"
  using state_fields_json [of st] by (auto simp: decode_state_def)

lemma state_written:
  "state_ok st \<Longrightarrow> \<exists>d. json_marshal_indent (state_json st) = Inr d \<and> decode_state d = Some st"
  using marshal_indent_roundtrip [OF state_json_ok] decode_state_json by blast

text \<open>The payload that is authenticated determines the version and the records.\<close>

lemma payload_inject:
  assumes "state_ok st" and "state_ok st'" and "verifyStatePayload st = verifyStatePayload st'"
  shows "vsVersion st = vsVersion st' \<and> vsFiles st = vsFiles st'"
proof -
  have read: "decode_state (verifyStatePayload s) = Some (s\<lparr>vsMAC := []\<rparr>)" if "state_ok s" for s
  proof -
    have ok: "state_ok (s\<lparr>vsMAC := []\<rparr>)" using that by (simp add: state_ok_def)
    from marshal_roundtrip [OF state_json_ok(1) [OF ok] state_json_ok(2), of "[]"] show ?thesis
      using decode_state_json [OF ok] by (auto simp: verifyStatePayload_def)
  qed
  from read [OF assms(1)] read [OF assms(2)] assms(3)
  have "st\<lparr>vsMAC := []\<rparr> = st'\<lparr>vsMAC := []\<rparr>" by simp
  then show ?thesis by (metis verifyState.select_convs(1,2) verifyState.surjective verifyState.update_convs(3))
qed

lemma slice_canonical: "slice_of (canonicalVerifyRecords rs) = sort_key vfPath (slice_of rs)"
  by (simp add: canonicalVerifyRecords_def) (simp add: slice_of_def)

lemma canonical_eq_iff:
  "canonicalVerifyRecords x = canonicalVerifyRecords y \<longleftrightarrow> sort_key vfPath (slice_of x) = sort_key vfPath (slice_of y)"
proof
  assume "canonicalVerifyRecords x = canonicalVerifyRecords y"
  then show "sort_key vfPath (slice_of x) = sort_key vfPath (slice_of y)" by (simp flip: slice_canonical)
next
  assume eq: "sort_key vfPath (slice_of x) = sort_key vfPath (slice_of y)"
  then have "slice_of x = [] \<longleftrightarrow> slice_of y = []" by (metis length_0_conv length_sort)
  with eq show "canonicalVerifyRecords x = canonicalVerifyRecords y" by (simp add: canonicalVerifyRecords_def)
qed

lemma verifyRecordsEqual_iff: "verifyRecordsEqual e a \<longleftrightarrow> canonicalVerifyRecords e = canonicalVerifyRecords a"
proof -
  have "length xs = length ys \<and> list_all (\<lambda>i. xs ! i = ys ! i) [0..<length xs] \<longleftrightarrow> xs = ys" for xs ys :: "'z list"
    using nth_equalityI [of xs ys] by (auto simp: list_all_iff)
  then show ?thesis by (simp only: verifyRecordsEqual_def Let_def canonical_eq_iff slice_canonical)
qed

lemma canonical_idem [simp]: "canonicalVerifyRecords (canonicalVerifyRecords rs) = canonicalVerifyRecords rs"
  by (simp add: canonical_eq_iff slice_canonical sort_key_sorted)

lemma inventory_canonical:
  "collectVerifyInventory arrive fs sp kp walk dir = Inr rs \<Longrightarrow> rs = Some [] \<or> canonicalVerifyRecords rs = rs"
  by (auto simp: collectVerifyInventory_def rbind_Inr split: if_splits prod.splits option.splits)

lemma baseline_document:
  assumes "rs = Some xs" and "list_all record_ok xs" and "canonicalVerifyRecords rs = rs"
    and "verifyInstallationStateWithKey wr (Inr rs) key (RMissing e) = (None, file)"
  shows "\<exists>d st. file = RData d \<and> decode_state d = Some st \<and> vsVersion st = verifyStateVersion \<and> vsFiles st = rs
    \<and> vsMAC st = verifyStateMAC key st"
proof -
  define st0 where "st0 = \<lparr>vsVersion = verifyStateVersion, vsFiles = rs, vsMAC = []\<rparr>"
  define st where "st = st0\<lparr>vsMAC := verifyStateMAC key st0\<rparr>"
  have mac: "verifyStateMAC key st = verifyStateMAC key st0"
    by (simp add: verifyStateMAC_def verifyStatePayload_def st_def)
  have ok: "state_ok st"
    using assms(1,2) by (simp add: st_def st0_def state_ok_def slice_of_def int64_def verifyStateVersion_def verifyStateMAC_def)
  have "st\<lparr>vsFiles := canonicalVerifyRecords (vsFiles st)\<rparr> = st" by (simp add: st_def st0_def assms(3))
  moreover obtain d where "json_marshal_indent (state_json st) = Inr d" "decode_state d = Some st"
    using state_written [OF ok] by blast
  moreover have "writeVerifyState wr st (RMissing e) = (None, file)"
    using assms(4) by (simp add: verifyInstallationStateWithKey_def Let_def st_def st0_def split: prod.splits option.splits)
  ultimately have "file = RData d" by (simp add: writeVerifyState_def split: option.splits)
  with \<open>decode_state d = Some st\<close> mac show ?thesis by (simp add: st_def st0_def)
qed

lemma verify_against:
  assumes "decode_state d = Some st" and "vsVersion st = verifyStateVersion" and "vsMAC st = verifyStateMAC key st"
  shows "verifyInstallationStateWithKey wr inventory key (RData d) = (case inventory of
      Inl e \<Rightarrow> (Err (''collect current installation inventory: '' @ e), RData d)
    | Inr actual \<Rightarrow>
        if canonicalVerifyRecords (vsFiles st) \<noteq> canonicalVerifyRecords actual
        then (Err ''installation inventory changed: file added, removed, or modified'', RData d) else (nil, RData d))"
proof -
  have "hex_DecodeString (verifyStateMAC key st) = Some (hmac_sha256 key (verifyStatePayload st))"
    by (simp add: verifyStateMAC_def)
  then show ?thesis using assms by (cases inventory) (simp_all add: verifyInstallationStateWithKey_def verifyRecordsEqual_iff)
qed

lemma verified_document:
  assumes "verifyInstallationStateWithKey wr inventory key (RData d) = (None, file)"
  shows "\<exists>st. decode_state d = Some st \<and> vsVersion st = verifyStateVersion \<and> vsMAC st = verifyStateMAC key st"
proof (cases "decode_state d")
  case None
  with assms show ?thesis by (simp add: verifyInstallationStateWithKey_def)
next
  case (Some st)
  with assms show ?thesis
    by (cases "hex_DecodeString (vsMAC st)") (auto simp: verifyInstallationStateWithKey_def split: if_splits)
qed

subsection \<open>Properties\<close>


text \<open>C19: nothing unauthenticated is accepted: if a verification against an existing state file succeeds, the file is a
  document of version 1 whose tag is the HMAC of its contents under the key, the inventory could be taken and agrees with
  its records, and the file is left as it was; and a document with the same authenticated text has the same records.\<close>

theorem accepted_baseline:
  assumes "verifyInstallationStateWithKey wr inventory key (RData d) = (nil, file)"
  shows "\<exists>st actual. decode_state d = Some st \<and> vsVersion st = 1
    \<and> vsMAC st = hex_EncodeToString (hmac_sha256 key (verifyStatePayload st))
    \<and> inventory = Inr actual \<and> canonicalVerifyRecords (vsFiles st) = canonicalVerifyRecords actual \<and> file = RData d
    \<and> (\<forall>st'. state_ok st \<longrightarrow> state_ok st' \<longrightarrow> verifyStatePayload st' = verifyStatePayload st \<longrightarrow> vsFiles st' = vsFiles st)"
proof -
  from verified_document [OF assms] obtain st where
    st: "decode_state d = Some st" "vsVersion st = verifyStateVersion" "vsMAC st = verifyStateMAC key st" by blast
  with assms obtain actual where "inventory = Inr actual" "canonicalVerifyRecords (vsFiles st) = canonicalVerifyRecords actual"
      "file = RData d"
    unfolding verify_against [OF st] by (auto split: sum.splits if_splits)
  moreover have "\<forall>st'. state_ok st \<longrightarrow> state_ok st' \<longrightarrow> verifyStatePayload st' = verifyStatePayload st \<longrightarrow> vsFiles st' = vsFiles st"
    using payload_inject by blast
  moreover have "vsVersion st = 1" "vsMAC st = hex_EncodeToString (hmac_sha256 key (verifyStatePayload st))"
    using st by (simp_all add: verifyStateVersion_def verifyStateMAC_def)
  ultimately show ?thesis using st(1) by blast
qed

text \<open>An empty installation cannot be verified again: its baseline is tagged with an empty list of files but written with
  \<open>null\<close>, so a later verification with the key succeeds only if two different texts have the same HMAC.\<close>

theorem empty_baseline_is_rejected:
  assumes "verifyInstallationStateWithKey wr (Inr (Some [])) key (RMissing e) = (nil, file)"
  shows "fst (verifyInstallationStateWithKey wr' inventory key file) = nil \<longrightarrow>
    (\<exists>p q. p \<noteq> q \<and> hmac_sha256 key p = hmac_sha256 key q)"
proof
  assume accepted: "fst (verifyInstallationStateWithKey wr' inventory key file) = nil"
  define st0 where "st0 = \<lparr>vsVersion = verifyStateVersion, vsFiles = Some [], vsMAC = []\<rparr>"
  define st where "st = st0\<lparr>vsFiles := None, vsMAC := verifyStateMAC key st0\<rparr>"
  have ok: "state_ok st" "state_ok st0"
    by (simp_all add: st_def st0_def state_ok_def slice_of_def int64_def verifyStateVersion_def verifyStateMAC_def)
  obtain d where d: "json_marshal_indent (state_json st) = Inr d" "decode_state d = Some st"
    using state_written [OF ok(1)] by blast
  have "writeVerifyState wr (st0\<lparr>vsMAC := verifyStateMAC key st0\<rparr>) (RMissing e) = (None, file)"
    using assms(1) by (simp add: verifyInstallationStateWithKey_def Let_def st0_def split: prod.splits option.splits)
  then have "file = RData d"
    using d(1) by (simp add: writeVerifyState_def canonicalVerifyRecords_def slice_of_def st_def st0_def split: option.splits)
  with accepted d(2) have "vsMAC st = verifyStateMAC key st"
    using verified_document [of wr' inventory key d] by (metis option.inject prod.collapse)
  then have "hmac_sha256 key (verifyStatePayload st) = hmac_sha256 key (verifyStatePayload st0)"
    by (simp add: verifyStateMAC_def st_def)
  moreover have "verifyStatePayload st \<noteq> verifyStatePayload st0"
    using payload_inject [OF ok] by (auto simp: st_def st0_def)
  ultimately show "\<exists>p q. p \<noteq> q \<and> hmac_sha256 key p = hmac_sha256 key q" by blast
qed

text \<open>A baseline of one file, with every file operation succeeding.\<close>

definition okWrite :: write_env where
  "okWrite = \<lparr>wrMkdir = nil, wrTemp = nil, wrChmod = nil, wrWrite = nil, wrSync = nil, wrClose = nil, wrRename = nil\<rparr>"

definition demoRecords :: "verifyFileRecord list" where
  "demoRecords = [\<lparr>vfPath = ''a'', vfSize = 3, vfSHA256 = hex_sha256 ''old''\<rparr>]"

lemma demoRecords_ok: "list_all record_ok demoRecords" "canonicalVerifyRecords (Some demoRecords) = Some demoRecords"
  by (simp_all add: demoRecords_def record_ok_def int64_def hex_sha256_def valid_utf8_ascii canonicalVerifyRecords_def slice_of_def)

lemma demo_inventory:
  "collectVerifyInventory (\<lambda>ps. ps) demoTree ''/state'' [] [WDir ''/opt'', WFile ''/opt/a''] ''/opt'' = Inr (Some demoRecords)"
proof -
  have "Rel ''/opt'' ''/opt/a'' = Some ''a''" by code_simp
  moreover have "walk_paths ''/state'' [] [WDir ''/opt'', WFile ''/opt/a''] = Inr [''/opt/a'']" by code_simp
  ultimately show ?thesis
    by (simp add: collectVerifyInventory_def hash_path_def verifyFileDigest_def demoTree_def read_result_def
        canonicalVerifyRecords_def slice_of_def demoRecords_def)
qed

lemma first_baseline:
  assumes "list_all record_ok (slice_of rs)"
  shows "\<exists>d. verifyInstallationStateWithKey okWrite (Inr rs) key (RMissing e) = (None, RData d)"
proof -
  define st where "st = \<lparr>vsVersion = verifyStateVersion, vsFiles = canonicalVerifyRecords rs,
    vsMAC = verifyStateMAC key \<lparr>vsVersion = verifyStateVersion, vsFiles = rs, vsMAC = []\<rparr>\<rparr>"
  have "set (slice_of (canonicalVerifyRecords rs)) = set (slice_of rs)" by (simp add: slice_canonical)
  then have "state_ok st"
    using assms by (simp add: st_def state_ok_def int64_def verifyStateVersion_def verifyStateMAC_def list_all_iff)
  then obtain d where "json_marshal_indent (state_json st) = Inr d" using state_written by blast
  then show ?thesis
    by (simp add: verifyInstallationStateWithKey_def writeVerifyState_def okWrite_def Let_def st_def)
qed


theorem accepted_baseline_witness:
  "\<exists>d st. decode_state d = Some st \<and> vsVersion st = 1
    \<and> vsMAC st = hex_EncodeToString (hmac_sha256 ''key'' (verifyStatePayload st))"
proof -
  obtain d where d: "verifyInstallationStateWithKey okWrite (Inr (Some demoRecords)) ''key'' (RMissing ''ENOENT'') = (None, RData d)"
    using first_baseline [of "Some demoRecords"] demoRecords_ok(1) by (auto simp: slice_of_def)
  obtain st where "decode_state d = Some st" "vsVersion st = verifyStateVersion" "vsFiles st = Some demoRecords"
      "vsMAC st = verifyStateMAC ''key'' st"
    using baseline_document [OF refl demoRecords_ok(1,2) d] by auto
  then have "verifyInstallationStateWithKey okWrite (Inr (Some demoRecords)) ''key'' (RData d) = (nil, RData d)"
    by (simp add: verify_against)
  from accepted_baseline [OF this] show ?thesis by blast
qed

theorem empty_baseline_is_rejected_witness:
  "\<exists>file. fst (verifyInstallationStateWithKey okWrite (Inr (Some [])) ''key'' file) = nil \<longrightarrow>
    (\<exists>p q. p \<noteq> q \<and> hmac_sha256 ''key'' p = hmac_sha256 ''key'' q)"
proof -
  obtain d where "verifyInstallationStateWithKey okWrite (Inr (Some [])) ''key'' (RMissing ''ENOENT'') = (None, RData d)"
    using first_baseline [of "Some []"] by (auto simp: slice_of_def)
  from empty_baseline_is_rejected [OF this] show ?thesis by blast
qed

end
