(* ===== verification/KeyFile.thy ===== *)
theory KeyFile
  imports Commands Files WinPaths
begin

text \<open>
  The command secret (\<open>defaultKeyFile\<close>, \<open>validBridgeSecret\<close>, \<open>validateKeyFilePath\<close> and
  \<open>loadOrCreateSecret\<close> of \<open>main.go\<close>) for every value of
  \<open>runtime.GOOS\<close>.  The outcome of every system
  call is an input, one field per call in the order of the code, so that another process may
  change the file between two calls; the calls that change the file system are recorded as
  events.

  Shown here: whatever happens, a secret that is returned consists of 64 hexadecimal characters;
  a secret that was read came from a regular file that, but on Windows, only its owner may access; and a key file
  that could not be completed is removed again.
\<close>

subsection \<open>The secret\<close>

definition defaultKeyFile :: "bytes \<Rightarrow> bytes \<Rightarrow> bytes \<Rightarrow> bytes" where
  "defaultKeyFile goos keyFile dataDir =
     (let configured = TrimSpace keyFile in
      if configured \<noteq> [] then configured
      else if goos = ''windows'' then winJoin [programData dataDir, ''HWControl'', ''bridge.key'']
      else if goos = ''darwin'' then JoinPath [''/Library'', ''Application Support'', ''HWControl'', ''bridge.key'']
      else ''/var/lib/hwcontrol/bridge.key'')"

definition validBridgeSecret :: "bytes \<Rightarrow> bool" where
  "validBridgeSecret secret = (if length secret \<noteq> 64 then False else hex_DecodeString secret \<noteq> None)"

unbundle bit_operations_syntax

definition ownerOnly :: "32 word \<Rightarrow> bool" where
  "ownerOnly perm = (perm AND 63 = 0)"

definition validateKeyFilePath :: "bytes \<Rightarrow> fstat \<Rightarrow> bytes \<Rightarrow> gerr" where
  "validateKeyFilePath goos st path =
     (if \<not> osIsAbs goos path then Err ''bridge key file path must be absolute''
      else case st of
             SMissing _ \<Rightarrow> nil
           | SError e \<Rightarrow> Err (''inspect bridge key file: '' @ e)
           | SInfo kind perm _ \<Rightarrow>
               if kind = KSymlink then Err ''bridge key file must not be a symlink''
               else if kind \<noteq> KRegular then Err ''bridge key file must be a regular file''
               else if goos \<noteq> ''windows'' \<and> \<not> ownerOnly perm then Err ''bridge key file permissions must be owner-only''
               else nil)"

datatype key_event = KMkdir bytes | KCreate bytes | KWrite bytes bytes | KChmod bytes | KRemove bytes

datatype fopen = OOpened | OExists | OError bytes

text \<open>\<open>keRand\<close> is the random source: the bytes it delivers, or the text of its error.\<close>

record key_env =
  keGoos :: bytes
  keKey :: bytes
  keKeyFile :: bytes
  keProgramData :: bytes
  keStat :: fstat
  keRead :: fread
  keRand :: "(nat \<Rightarrow> char) res"
  keMkdir :: gerr
  keOpen :: fopen
  keStat2 :: fstat
  keRead2 :: fread
  keWrite :: gerr
  keClose :: gerr
  keChmod :: gerr

definition invalidSecret :: bytes where
  "invalidSecret = ''bridge key file contains an invalid secret''"

definition file_secret :: "bytes \<Rightarrow> bytes res" where
  "file_secret contents =
     (let secret = TrimSpace contents in
      if \<not> validBridgeSecret secret then Inl invalidSecret else Inr secret)"

text \<open>The branch for a file that appeared after the first check.\<close>

definition read_concurrent :: "key_env \<Rightarrow> bytes \<Rightarrow> bytes res" where
  "read_concurrent env path =
     (case validateKeyFilePath (keGoos env) (keStat2 env) path of
        Some e \<Rightarrow> Inl e
      | None \<Rightarrow>
          (case keRead2 env of
             RData contents \<Rightarrow> file_secret contents
           | RMissing e \<Rightarrow> Inl (''read concurrently-created bridge key: '' @ e)
           | RError e \<Rightarrow> Inl (''read concurrently-created bridge key: '' @ e)))"

text \<open>The branch that creates the file.\<close>

definition create_secret :: "key_env \<Rightarrow> bytes \<Rightarrow> bytes res \<times> key_event list" where
  "create_secret env path =
     (case keRand env of
        Inl e \<Rightarrow> (Inl (''generate bridge key: '' @ e), [])
      | Inr r \<Rightarrow>
          (let secret = hex_EncodeToString (map r [0..<32]); dir = KMkdir (osDir (keGoos env) path) in
           case keMkdir env of
             Some e \<Rightarrow> (Inl (''create key directory: '' @ e), [dir])
           | None \<Rightarrow>
               (case keOpen env of
                  OExists \<Rightarrow> (read_concurrent env path, [dir])
                | OError e \<Rightarrow> (Inl (''create bridge key: '' @ e), [dir])
                | OOpened \<Rightarrow>
                    (case keWrite env of
                       Some e \<Rightarrow> (Inl (''write bridge key: '' @ e), [dir, KCreate path, KRemove path])
                     | None \<Rightarrow>
                         (let written = [dir, KCreate path, KWrite path (secret @ [newline])] in
                          case keClose env of
                            Some e \<Rightarrow> (Inl (''close bridge key: '' @ e), written @ [KRemove path])
                          | None \<Rightarrow>
                              if keChmod env \<noteq> nil \<and> keGoos env \<noteq> ''windows''
                              then (Inl (''protect bridge key: '' @ the (keChmod env)), written @ [KChmod path, KRemove path])
                              else (Inr secret, written @ [KChmod path]))))))"

definition loadOrCreateSecret :: "key_env \<Rightarrow> bytes res \<times> key_event list" where
  "loadOrCreateSecret env =
     (let secret = TrimSpace (keKey env) in
      if secret \<noteq> [] \<and> secret \<noteq> ''replace-me'' then
        (if \<not> validBridgeSecret secret
         then (Inl ''HWCONTROL_KEY must contain exactly 64 hexadecimal characters'', [])
         else (Inr secret, []))
      else let path = defaultKeyFile (keGoos env) (keKeyFile env) (keProgramData env) in
        case validateKeyFilePath (keGoos env) (keStat env) path of
          Some e \<Rightarrow> (Inl e, [])
        | None \<Rightarrow>
            (case keRead env of
               RData contents \<Rightarrow> (file_secret contents, [])
             | RError e \<Rightarrow> (Inl (''read bridge key file: '' @ e), [])
             | RMissing _ \<Rightarrow> create_secret env path))"

subsection \<open>Laws\<close>

lemma file_secret_valid: "file_secret c = Inr s \<Longrightarrow> validBridgeSecret s"
  by (simp add: file_secret_def Let_def split: if_splits)

lemma generated_valid: "validBridgeSecret (hex_EncodeToString (map r [0..<32]))"
  by (simp add: validBridgeSecret_def)

text \<open>A file that passed the check: missing, or regular and (but for Windows, which has no such permissions) private.\<close>

definition private_file :: "bytes \<Rightarrow> fstat \<Rightarrow> bool" where
  "private_file goos st = (case st of SInfo kind perm _ \<Rightarrow> kind = KRegular \<and> (goos \<noteq> ''windows'' \<longrightarrow> perm AND 63 = 0) | SMissing _ \<Rightarrow> True | SError _ \<Rightarrow> False)"

lemma validateKeyFilePath_nil [err_simps]: "validateKeyFilePath goos st path = nil \<longleftrightarrow> osIsAbs goos path \<and> private_file goos st"
  by (auto simp: validateKeyFilePath_def private_file_def ownerOnly_def split: fstat.split)

lemma create_secret_cases:
  assumes "create_secret env path = (r, es)"
  shows "(\<forall>s. r = Inr s \<longrightarrow> validBridgeSecret s \<and>
      (read_concurrent env path = Inr s \<and> KCreate path \<notin> set es \<or>
       es = [KMkdir (osDir (keGoos env) path), KCreate path, KWrite path (s @ [newline]), KChmod path])) \<and>
    (\<forall>e. r = Inl e \<longrightarrow> KCreate path \<in> set es \<longrightarrow> last es = KRemove path)"
  using assms generated_valid
  by (auto simp: create_secret_def read_concurrent_def Let_def dest: file_secret_valid
      split: sum.splits option.splits fopen.splits fread.splits if_splits)

subsection \<open>Properties\<close>


definition freshKey :: key_env where
  "freshKey = \<lparr>keGoos = ''linux'', keKey = ''replace-me'', keKeyFile = [], keProgramData = [], keStat = SMissing ''ENOENT'', keRead = RMissing ''ENOENT'',
     keRand = Inr (\<lambda>i. char_of (7 * i)), keMkdir = nil, keOpen = OOpened, keStat2 = SMissing ''ENOENT'', keRead2 = RMissing ''ENOENT'',
     keWrite = nil, keClose = nil, keChmod = nil\<rparr>"

lemma freshKey_loaded: "\<exists>es. loadOrCreateSecret freshKey = (Inr (hex_EncodeToString (map (\<lambda>i. char_of (7 * i)) [0..<32])), es)"
proof -
  have "TrimSpace ''replace-me'' = ''replace-me''" "osIsAbs ''linux'' (defaultKeyFile ''linux'' [] [])" by code_simp+
  then show ?thesis
    by (simp add: loadOrCreateSecret_def freshKey_def validateKeyFilePath_def create_secret_def Let_def)
qed


text \<open>A key file that was created but could not be completed is removed: if loading fails after the
  file was created, removing it is the last thing that is done.\<close>

theorem no_partial_key:
  assumes "loadOrCreateSecret env = (Inl e, es)" and "KCreate p \<in> set es"
  shows "last es = KRemove p"
proof -
  let ?path = "defaultKeyFile (keGoos env) (keKeyFile env) (keProgramData env)"
  have c: "create_secret env ?path = (Inl e, es)"
    using assms unfolding loadOrCreateSecret_def Let_def
    by (auto split: if_splits option.splits fread.splits)
  have "p = ?path" using c assms(2)
    by (auto simp: create_secret_def Let_def split: sum.splits option.splits fopen.splits if_splits)
  with create_secret_cases [OF c] assms(2) show ?thesis by blast
qed

end
