(* ===== verification/VerifyKey.thy ===== *)
theory VerifyKey
  imports Verify KeyFile
begin

text \<open>
  The key of the installation baseline on Windows (\<open>verify_key_windows.go\<close>).  The system's data
  protection (\<open>CryptProtectData\<close>, \<open>CryptUnprotectData\<close>) is a pair of parameters; that the second
  undoes the first is a named hypothesis where it is needed.  As for the command secret, system
  calls are inputs and changes to the file system are recorded as events.
\<close>

definition verifyKeySize :: nat where
  "verifyKeySize = 32"

record dpapi =
  dpProtect :: "bytes \<Rightarrow> bytes res"
  dpUnprotect :: "bytes \<Rightarrow> bytes res"

definition protectVerifyKey :: "dpapi \<Rightarrow> bytes \<Rightarrow> bytes res" where
  "protectVerifyKey dp key =
     (if length key \<noteq> verifyKeySize then Inl ''verify.key must be 32 bytes''
      else case dpProtect dp key of
             Inl e \<Rightarrow> Inl (''CryptProtectData: '' @ e)
           | Inr blob \<Rightarrow> Inr blob)"

definition unprotectVerifyKey :: "dpapi \<Rightarrow> bytes \<Rightarrow> bytes res" where
  "unprotectVerifyKey dp blob =
     (if length blob = 0 then Inl ''protected verify.key is empty''
      else case dpUnprotect dp blob of
             Inl e \<Rightarrow> Inl (''CryptUnprotectData: '' @ e)
           | Inr key \<Rightarrow> if length key \<noteq> verifyKeySize then Inl ''verify.key has invalid length'' else Inr key)"

text \<open>Where the key lies; the Unix counterpart of the file (\<open>verify_key_other.go\<close>) has no key.\<close>

definition verifyKeyPath :: "bytes \<Rightarrow> bytes" where
  "verifyKeyPath dataDir = winJoin [programData dataDir, ''HWControl'', ''security'', ''verify.key'']"

definition otherVerifyKeyPath :: bytes where
  "otherVerifyKeyPath = []"

definition otherLoadOrCreateVerifyKey :: "bytes res" where
  "otherLoadOrCreateVerifyKey = Inl ''Windows verify.key is not available on this platform''"

record verify_key_env =
  vkMkdir :: gerr
  vkRead :: fread
  vkRand :: "(nat \<Rightarrow> char) res"
  vkOpen :: fopen
  vkRead2 :: fread
  vkWrite :: gerr
  vkSync :: gerr
  vkClose :: gerr

text \<open>The part after the key was protected: \<open>O_EXCL\<close> creation, writing and syncing.\<close>

definition store_verify_key :: "dpapi \<Rightarrow> verify_key_env \<Rightarrow> bytes \<Rightarrow> bytes \<Rightarrow> bytes \<Rightarrow> bytes res \<times> key_event list" where
  "store_verify_key dp env path key blob =
     (case vkOpen env of
        OExists \<Rightarrow> (rbind (read_result (vkRead2 env)) (unprotectVerifyKey dp), [])
      | OError e \<Rightarrow> (Inl e, [])
      | OOpened \<Rightarrow>
          (case vkWrite env of
             Some e \<Rightarrow> (Inl e, [KCreate path, KRemove path])
           | None \<Rightarrow>
               (case seq_err (vkSync env) (vkClose env) of
                  Some e \<Rightarrow> (Inl e, [KCreate path, KWrite path blob])
                | None \<Rightarrow> (Inr key, [KCreate path, KWrite path blob]))))"

definition loadOrCreateVerifyKey :: "dpapi \<Rightarrow> verify_key_env \<Rightarrow> bytes \<Rightarrow> bytes res \<times> key_event list" where
  "loadOrCreateVerifyKey dp env path =
     (case vkMkdir env of
        Some e \<Rightarrow> (Inl e, [])
      | None \<Rightarrow>
          (case vkRead env of
             RData blob \<Rightarrow> (unprotectVerifyKey dp blob, [])
           | RError e \<Rightarrow> (Inl e, [])
           | RMissing _ \<Rightarrow>
               (case vkRand env of
                  Inl e \<Rightarrow> (Inl (''generate verify.key: '' @ e), [])
                | Inr r \<Rightarrow>
                    (let key = map r [0..<verifyKeySize] in
                     case protectVerifyKey dp key of
                       Inl e \<Rightarrow> (Inl e, [])
                     | Inr blob \<Rightarrow> store_verify_key dp env path key blob))))"

text \<open>\<open>verifyInstallationState\<close> on Windows.\<close>

definition windowsVerifyInstallationState ::
  "dpapi \<Rightarrow> verify_key_env \<Rightarrow> bytes \<Rightarrow> write_env \<Rightarrow> records res \<Rightarrow> fread \<Rightarrow> gerr \<times> fread" where
  "windowsVerifyInstallationState dp env dataDir wr inventory file =
     (case fst (loadOrCreateVerifyKey dp env (verifyKeyPath dataDir)) of
        Inl e \<Rightarrow> (Err (''load verify.key: '' @ e), file)
      | Inr key \<Rightarrow> verifyInstallationStateWithKey wr inventory key file)"

lemma unprotect_length: "unprotectVerifyKey dp blob = Inr key \<Longrightarrow> length key = verifyKeySize"
  by (auto simp: unprotectVerifyKey_def split: if_splits sum.splits)

lemma store_verify_key_result:
  assumes "store_verify_key dp env path key blob = (Inr k, es)" and "length key = verifyKeySize"
  shows "length k = verifyKeySize \<and> (KWrite path b \<in> set es \<longrightarrow> b = blob \<and> k = key)"
  using assms unprotect_length
  by (auto simp: store_verify_key_def rbind_Inr split: fopen.splits option.splits)

text \<open>If the system can undo its own protection (and never protects to nothing), a key that was created is the key
  that the next start reads: every key has 32 bytes, and a file that was written with the result of a successful call is
  read back as the same key, so that a baseline tagged on the first start can be verified on the next.\<close>

theorem verify_key_roundtrip:
  assumes undo: "\<And>k b. dpProtect dp k = Inr b \<Longrightarrow> dpUnprotect dp b = Inr k \<and> b \<noteq> []"
    and "loadOrCreateVerifyKey dp env path = (Inr key, es)"
  shows "length key = verifyKeySize \<and>
    (KWrite path blob \<in> set es \<and> vkMkdir env' = nil \<and> vkRead env' = RData blob \<longrightarrow>
      loadOrCreateVerifyKey dp env' path = (Inr key, []))"
proof -
  consider (stored) b where "vkRead env = RData b" "unprotectVerifyKey dp b = Inr key" "es = []"
    | (created) r b where "protectVerifyKey dp (map r [0..<verifyKeySize]) = Inr b"
        "store_verify_key dp env path (map r [0..<verifyKeySize]) b = (Inr key, es)"
    using assms(2) unfolding loadOrCreateVerifyKey_def Let_def
    by (auto split: option.splits fread.splits sum.splits)
  then show ?thesis
  proof cases
    case stored
    then show ?thesis using unprotect_length by auto
  next
    case created
    have "dpProtect dp (map r [0..<verifyKeySize]) = Inr b"
      using created(1) by (simp add: protectVerifyKey_def split: sum.splits)
    with undo have "unprotectVerifyKey dp b = Inr (map r [0..<verifyKeySize])" by (simp add: unprotectVerifyKey_def)
    with store_verify_key_result [OF created(2), of blob] show ?thesis
      by (auto simp: loadOrCreateVerifyKey_def)
  qed
qed

definition demoDpapi :: dpapi where
  "demoDpapi = \<lparr>dpProtect = (\<lambda>k. Inr (CHR ''P'' # k)), dpUnprotect = (\<lambda>b. Inr (tl b))\<rparr>"

definition demoKeyEnv :: verify_key_env where
  "demoKeyEnv = \<lparr>vkMkdir = nil, vkRead = RMissing ''ENOENT'', vkRand = Inr (\<lambda>i. char_of i), vkOpen = OOpened,
     vkRead2 = RMissing ''ENOENT'', vkWrite = nil, vkSync = nil, vkClose = nil\<rparr>"

theorem verify_key_roundtrip_witness:
  "loadOrCreateVerifyKey demoDpapi (demoKeyEnv\<lparr>vkRead := RData (CHR ''P'' # map char_of [0..<32])\<rparr>) ''verify.key''
     = (Inr (map char_of [0..<32]), [])"
proof -
  have undo: "dpProtect demoDpapi k = Inr b \<Longrightarrow> dpUnprotect demoDpapi b = Inr k \<and> b \<noteq> []" for k b
    by (auto simp: demoDpapi_def)
  have created: "loadOrCreateVerifyKey demoDpapi demoKeyEnv ''verify.key'' =
      (Inr (map char_of [0..<32]), [KCreate ''verify.key'', KWrite ''verify.key'' (CHR ''P'' # map char_of [0..<32])])"
    by (simp add: loadOrCreateVerifyKey_def demoKeyEnv_def protectVerifyKey_def store_verify_key_def demoDpapi_def verifyKeySize_def Let_def
        del: upt_Suc)
  define env' where "env' = demoKeyEnv\<lparr>vkRead := RData (CHR ''P'' # map char_of [0..<32])\<rparr>"
  have "vkMkdir env' = nil" "vkRead env' = RData (CHR ''P'' # map char_of [0..<32])"
    by (simp_all add: env'_def demoKeyEnv_def del: upt_Suc)
  with verify_key_roundtrip [OF undo created, of "CHR ''P'' # map char_of [0..<32]" env']
  show ?thesis unfolding env'_def [symmetric] by (metis list.set_intros)
qed

end
