(* ===== verification/Redaction.thy ===== *)
theory Redaction
  imports Safety WinPaths
begin

text \<open>
  Redaction of text before it is logged (\<open>redaction.go\<close>) and the log file of the bridge (\<open>runBridge\<close> of
  \<open>bridge_runtime.go\<close>).  The regular expressions are values of a small datatype; \<open>remainders\<close> is Go's
  leftmost-first matching: what is left of the text after a match at its head, in the order in which
  backtracking would find it.  Text is matched rune by rune, a byte that is not valid UTF-8 being a rune of
  its own.  Under \<open>(?i)\<close> a letter matches both cases, and k and s also match the Kelvin sign and the long s.

  Shown here: a match contains its mandatory runes in order; the value of \<open>HWCONTROL_KEY\<close> never reaches the
  log; and the credentials of an \<open>Authorization\<close> header that are not bearer tokens do.
\<close>

subsection \<open>Runes\<close>

function runes :: "bytes \<Rightarrow> bytes list" where
  "runes [] = []"
| "runes (c # s) = take (max 1 (rune_len (c # s))) (c # s) # runes (drop (rune_len (c # s) - 1) s)"
  by pat_completeness auto
termination
  by (relation "measure length") auto

declare runes.simps [simp del]

definition folds :: "char \<Rightarrow> bytes \<Rightarrow> bool" where
  "folds c r =
     (map lower_byte r = [lower_byte c] \<or> (lower_byte c = CHR ''k'' \<and> r = [CHR 0xE2, CHR 0x84, CHR 0xAA]) \<or>
      (lower_byte c = CHR ''s'' \<and> r = [CHR 0xC5, CHR 0xBF]))"

definition is_rune :: "bytes \<Rightarrow> bytes \<Rightarrow> bool" where
  "is_rune cs r = (case r of [c] \<Rightarrow> c \<in> set cs | _ \<Rightarrow> False)"

text \<open>\<open>\s\<close>, and the letters of \<open>[A-Z]\<close> under \<open>(?i)\<close>.\<close>

definition rune_space :: "bytes \<Rightarrow> bool" where
  "rune_space = is_rune [CHR 0x09, CHR 0x0A, CHR 0x0C, CHR 0x0D, CHR '' '']"

definition rune_letter :: "bytes \<Rightarrow> bool" where
  "rune_letter r = list_ex (\<lambda>c. folds c r) ''abcdefghijklmnopqrstuvwxyz''"

definition rune_key :: "bytes \<Rightarrow> bool" where
  "rune_key r = (rune_letter r \<or> is_rune ''0123456789 '' r)"

subsection \<open>Regular expressions\<close>

datatype re = Eps | Sat "bytes \<Rightarrow> bool" | Cat re re | Or re re | Many bool "bytes \<Rightarrow> bool"

text \<open>The ends of the runs of a class at the head of a text, the shortest run first.\<close>

fun run_ends :: "(bytes \<Rightarrow> bool) \<Rightarrow> bytes list \<Rightarrow> bytes list list" where
  "run_ends p [] = [[]]"
| "run_ends p (x # xs) = (x # xs) # (if p x then run_ends p xs else [])"

fun remainders :: "re \<Rightarrow> bytes list \<Rightarrow> bytes list list" where
  "remainders Eps s = [s]"
| "remainders (Sat p) s = (case s of [] \<Rightarrow> [] | x # xs \<Rightarrow> if p x then [xs] else [])"
| "remainders (Cat a b) s = concat (map (remainders b) (remainders a s))"
| "remainders (Or a b) s = remainders a s @ remainders b s"
| "remainders (Many greedy p) s = (if greedy then rev (run_ends p s) else run_ends p s)"

fun lit :: "bytes \<Rightarrow> re" where
  "lit [] = Eps"
| "lit (c # cs) = Cat (Sat (folds c)) (lit cs)"

definition plus :: "(bytes \<Rightarrow> bool) \<Rightarrow> re" where
  "plus p = Cat (Sat p) (Many True p)"

definition optional :: "re \<Rightarrow> re" where
  "optional r = Or r Eps"

fun cats :: "re list \<Rightarrow> re" where
  "cats [] = Eps"
| "cats (r # rs) = Cat r (cats rs)"

fun ors :: "re list \<Rightarrow> re" where
  "ors [] = Eps"
| "ors [r] = r"
| "ors (r # rs) = Or r (ors rs)"

text \<open>\<open>ReplaceAllStringFunc\<close>.  None of the expressions below matches the empty text.\<close>

function replace_all :: "re \<Rightarrow> (bytes \<Rightarrow> bytes) \<Rightarrow> bytes list \<Rightarrow> bytes" where
  "replace_all r f [] = []"
| "replace_all r f (x # xs) =
     (case remainders r (x # xs) of
        [] \<Rightarrow> x @ replace_all r f xs
      | rest # _ \<Rightarrow>
          if length rest < length (x # xs)
          then f (concat (take (length (x # xs) - length rest) (x # xs))) @ replace_all r f rest
          else x @ replace_all r f xs)"
  by pat_completeness auto
termination
  by (relation "measure (\<lambda>(r, f, s). length s)") auto

declare replace_all.simps [simp del]

subsection \<open>The patterns\<close>

abbreviation spaces :: re where "spaces \<equiv> Many True rune_space"

abbreviation word_rune :: "bytes \<Rightarrow> bool" where "word_rune r \<equiv> \<not> rune_space r"

abbreviation value_rune :: "bytes \<Rightarrow> bool" where "value_rune r \<equiv> \<not> rune_space r \<and> \<not> is_rune '',;'' r"

abbreviation assign :: re where "assign \<equiv> Sat (is_rune ''=:'')"

definition pemPattern :: re where
  "pemPattern = cats [lit ''-----BEGIN '', Many True rune_key, lit ''KEY-----'', Many False (\<lambda>_. True),
     lit ''-----END '', Many True rune_key, lit ''KEY-----'']"

definition authBearerPattern :: re where
  "authBearerPattern = cats [lit ''Authorization'', spaces, lit '':'', spaces, lit ''Bearer'', plus rune_space, plus word_rune]"

definition bearerPattern :: re where
  "bearerPattern = cats [lit ''Bearer'', plus rune_space, plus word_rune]"

definition bridgeKeyPattern :: re where
  "bridgeKeyPattern = cats [lit ''HWCONTROL_KEY'', optional (lit ''_FILE''), spaces, assign, spaces, plus value_rune]"

definition credentialPattern :: re where
  "credentialPattern =
     (let sep = optional (Sat (is_rune ''_-'')) in
      cats [ors [lit ''HMAC'', cats [lit ''API'', sep, lit ''KEY''], cats [lit ''ACCESS'', sep, lit ''TOKEN''],
                 cats [lit ''REFRESH'', sep, lit ''TOKEN''], lit ''PASSWORD'', lit ''SECRET''],
            spaces, assign, spaces, plus value_rune])"

definition authPattern :: re where
  "authPattern = cats [lit ''Authorization'', spaces, lit '':'', spaces, plus word_rune]"

definition redactionPatterns :: "re list" where
  "redactionPatterns = [pemPattern, authBearerPattern, bearerPattern, bridgeKeyPattern, credentialPattern, authPattern]"

abbreviation path_sep :: "bytes \<Rightarrow> bool" where "path_sep \<equiv> is_rune [CHR 0x5C, CHR ''/'']"

definition userPathPattern :: re where
  "userPathPattern = ors
     [cats [Sat rune_letter, lit '':'', plus path_sep, lit ''Users'', plus path_sep, plus (\<lambda>r. \<not> path_sep r \<and> \<not> rune_space r)],
      cats [lit ''/Users/'', plus (\<lambda>r. \<not> is_rune ''/'' r \<and> \<not> rune_space r)],
      cats [lit ''/home/'', plus (\<lambda>r. \<not> is_rune ''/'' r \<and> \<not> rune_space r)]]"

subsection \<open>Redaction\<close>

definition cut_value :: "bytes \<Rightarrow> bytes option" where
  "cut_value m =
     (let head = takeWhile (\<lambda>c. c \<notin> set ''=:'') m in
      if length head < length m then Some (take (length head + 1) m @ ''[REDACTED]'') else None)"

definition redact_match :: "(bytes \<Rightarrow> bytes) \<Rightarrow> bytes \<Rightarrow> bytes" where
  "redact_match lowerU m =
     (let lower = ToLower lowerU m;
          plain = (case cut_value m of Some t \<Rightarrow> t | None \<Rightarrow> ''[REDACTED]'')
      in if Contains lower ''private key'' then ''[REDACTED_PRIVATE_KEY]''
         else if (HasPrefix (ToLower lowerU (TrimSpace m)) ''bearer'' \<or> Contains lower ''authorization'') \<and> Contains lower ''bearer''
         then ''Bearer [REDACTED]''
         else plain)"

text \<open>The template \<open>$1<USER>\<close>: only the first alternative, which starts with a drive letter, sets the group; it
  is the match up to its last separator.\<close>

definition user_path :: "bytes \<Rightarrow> bytes" where
  "user_path m =
     (if HasPrefix m ''/'' then [] else rev (dropWhile (\<lambda>c. c \<noteq> CHR 0x5C \<and> c \<noteq> CHR ''/'') (rev m))) @ ''<USER>''"

definition redactSensitiveText :: "(bytes \<Rightarrow> bytes) \<Rightarrow> bytes \<Rightarrow> bytes" where
  "redactSensitiveText lowerU input =
     (let out = fold (\<lambda>p t. replace_all p (redact_match lowerU) (runes t)) redactionPatterns input
      in replace_all userPathPattern user_path (runes out))"

text \<open>\<open>redactingWriter\<close>: \<open>dst\<close> is the writer behind it.\<close>

definition redacting_Write :: "(bytes \<Rightarrow> bytes) \<Rightarrow> (bytes \<Rightarrow> 'w \<Rightarrow> (int \<times> gerr) \<times> 'w) \<Rightarrow> bytes \<Rightarrow> 'w \<Rightarrow> (int \<times> gerr) \<times> 'w" where
  "redacting_Write lowerU dst p w = dst (redactSensitiveText lowerU p) w"

definition redactEnvironmentValue :: "(bytes \<Rightarrow> bytes) \<Rightarrow> (bytes \<Rightarrow> bytes) \<Rightarrow> bytes \<Rightarrow> bytes \<Rightarrow> bytes" where
  "redactEnvironmentValue lowerU getenv name val =
     (let lower = ToLower lowerU name in
      if Contains lower ''key'' \<or> Contains lower ''token'' \<or> Contains lower ''secret'' \<or> Contains lower ''password''
      then ''[REDACTED]''
      else if val = getenv ''HWCONTROL_KEY'' then ''[REDACTED]''
      else redactSensitiveText lowerU val)"

text \<open>The log file, and what a line adds to it once the set-up of \<open>runBridge\<close> is
  done: nothing if the directory or the file could not be created, since the logger then keeps its default.\<close>

definition defaultBridgeLogPath :: "bytes \<Rightarrow> bytes \<Rightarrow> bytes" where
  "defaultBridgeLogPath goos dataDir =
     (if goos = ''windows'' then winJoin [programData dataDir, ''HWControl'', ''bridge.log''] else ''hwcontrol.log'')"

definition bridge_log_path :: "bytes \<Rightarrow> (bytes \<Rightarrow> bytes) \<Rightarrow> bytes" where
  "bridge_log_path goos getenv =
     (if getenv ''HWCONTROL_LOG'' = [] then defaultBridgeLogPath goos (getenv ''ProgramData'') else getenv ''HWCONTROL_LOG'')"

definition append_log :: "bytes \<Rightarrow> bytes \<Rightarrow> (int \<times> gerr) \<times> bytes" where
  "append_log p contents = ((int (length p), nil), contents @ p)"

definition log_line :: "(bytes \<Rightarrow> bytes) \<Rightarrow> gerr \<Rightarrow> gerr \<Rightarrow> bytes \<Rightarrow> bytes \<Rightarrow> bytes" where
  "log_line lowerU mkdir opened line contents =
     (if mkdir = nil \<and> opened = nil then snd (redacting_Write lowerU append_log line contents) else contents)"

subsection \<open>What a match contains\<close>

text \<open>The runes that every match of an expression has, in order; an alternative and a repetition promise nothing.\<close>

fun chain :: "re \<Rightarrow> (bytes \<Rightarrow> bool) list" where
  "chain (Sat p) = [p]"
| "chain (Cat a b) = chain a @ chain b"
| "chain _ = []"

fun occurs :: "('a \<Rightarrow> bool) list \<Rightarrow> 'a list \<Rightarrow> bool" where
  "occurs [] s = True"
| "occurs (p # ps) [] = False"
| "occurs (p # ps) (x # xs) = ((p x \<and> occurs ps xs) \<or> occurs (p # ps) xs)"

lemma occurs_prefix: "occurs ps v \<Longrightarrow> occurs ps (u @ v)"
  by (induction u) (cases ps; simp)+

lemma occurs_suffix: "occurs ps u \<Longrightarrow> occurs ps (u @ v)"
  by (induction ps u rule: occurs.induct) auto

lemma occurs_append: "occurs ps u \<Longrightarrow> occurs qs v \<Longrightarrow> occurs (ps @ qs) (u @ v)"
proof (induction ps u rule: occurs.induct)
  case (1 s)
  then show ?case using occurs_prefix by simp
qed auto

lemma run_ends_split: "rest \<in> set (run_ends p s) \<Longrightarrow> \<exists>u. s = u @ rest \<and> list_all p u"
proof (induction s)
  case (Cons x xs)
  show ?case
  proof (cases "rest = x # xs")
    case False
    with Cons obtain u where "p x" "xs = u @ rest" "list_all p u" by (auto split: if_splits)
    then show ?thesis by (intro exI [of _ "x # u"]) simp
  qed (auto intro!: exI [of _ "[]"])
qed simp

text \<open>A match is a prefix of the text that contains the mandatory runes.\<close>

lemma match_contains: "rest \<in> set (remainders r s) \<Longrightarrow> \<exists>u. s = u @ rest \<and> occurs (chain r) u"
proof (induction r s arbitrary: rest rule: remainders.induct)
  case (3 a b s)
  then obtain mid u v where "s = u @ mid" "occurs (chain a) u" "mid = v @ rest" "occurs (chain b) v" by force
  then show ?case using occurs_append by (intro exI [of _ "u @ v"]) simp
next
  case (5 greedy p s)
  then show ?case using run_ends_split [of rest p s] by (auto split: if_splits)
qed (auto split: list.splits if_splits)

fun possible :: "re \<Rightarrow> bytes list \<Rightarrow> bool" where
  "possible (Or a b) s = (possible a s \<or> possible b s)"
| "possible r s = occurs (chain r) s"

lemma match_occurs: "remainders r s \<noteq> [] \<Longrightarrow> occurs (chain r) s"
  using match_contains [of "hd (remainders r s)" r s] occurs_suffix by (metis list.set_sel(1))

lemma match_possible: "remainders r s \<noteq> [] \<Longrightarrow> possible r s"
proof (induction r)
  case (Or a b)
  then show ?case by auto
qed (use match_occurs in \<open>auto simp del: remainders.simps chain.simps\<close>)

lemma possible_Cons: "possible r xs \<Longrightarrow> possible r (x # xs)"
  using occurs_prefix [of _ xs "[x]"] by (induction r xs rule: possible.induct) auto

lemma replace_none: "\<not> possible r s \<Longrightarrow> replace_all r f s = concat s"
proof (induction s)
  case (Cons x xs)
  then have "remainders r (x # xs) = []" "\<not> possible r xs" using match_possible possible_Cons by blast+
  with Cons show ?case by (simp add: replace_all.simps)
qed (simp add: replace_all.simps)

text \<open>What the first rune of a match can be.\<close>

fun starts :: "re \<Rightarrow> bytes \<Rightarrow> bool" where
  "starts (Sat p) x = p x"
| "starts (Cat a b) x = starts a x"
| "starts (Or a b) x = (starts a x \<or> starts b x)"
| "starts _ x = True"

lemma starts_match: "\<not> starts r x \<Longrightarrow> remainders r (x # xs) = []"
  by (induction r x rule: starts.induct) auto

lemma replace_skip: "\<not> starts r x \<Longrightarrow> replace_all r f (x # xs) = x @ replace_all r f xs"
  by (simp add: replace_all.simps starts_match)

lemma replace_skip_all: "list_all (\<lambda>x. \<not> starts r x) u \<Longrightarrow> replace_all r f (u @ v) = concat u @ replace_all r f v"
  by (induction u) (simp_all add: replace_skip)

lemma replace_step: "remainders r (x # xs) = [] \<Longrightarrow> replace_all r f (x # xs) = x @ replace_all r f xs"
  by (simp add: replace_all.simps)

lemma replace_match:
  assumes "remainders r (u @ v) = v # others" and "u \<noteq> []"
  shows "replace_all r f (u @ v) = f (concat u) @ replace_all r f v"
  using assms by (cases u) (simp_all add: replace_all.simps)

subsection \<open>Mandatory runes\<close>

lemma occurs_tl: "occurs (p # ps) s \<Longrightarrow> occurs ps s"
  by (induction s) (use occurs_prefix [of ps _ "[_]"] in auto)

lemma occurs_drop_second: "occurs (p # q # ps) s \<Longrightarrow> occurs (p # ps) s"
  by (induction s) (auto dest: occurs_tl)

lemma occurs_nth: "occurs ps s \<Longrightarrow> i < length ps \<Longrightarrow> occurs (ps ! i # drop (Suc i) ps) s"
  by (induction i arbitrary: ps) (use occurs_tl Cons_nth_drop_Suc in \<open>metis drop0, metis Suc_lessD\<close>)

lemma occurs_skip: "list_all (\<lambda>x. \<not> p x) u \<Longrightarrow> occurs (p # ps) (u @ v) = occurs (p # ps) v"
  by (induction u) auto

lemma occurs_some: "occurs (p # ps) s \<Longrightarrow> \<exists>x \<in> set s. p x"
  by (induction s) auto

subsection \<open>ASCII text\<close>

abbreviation singles :: "bytes \<Rightarrow> bytes list" where "singles t \<equiv> map (\<lambda>c. [c]) t"

lemma runes_ascii: "list_all (\<lambda>c. byte c < 128) t \<Longrightarrow> runes t = singles t"
  by (induction t) (simp_all add: runes.simps rune_len_def)

lemma concat_singles [simp]: "concat (singles t) = t"
  by (induction t) simp_all

text \<open>Case folding of a byte, on numbers.\<close>

definition low :: "nat \<Rightarrow> nat" where
  "low n = (if 65 \<le> n \<and> n \<le> 90 then n + 32 else n)"

lemma byte_lower: "byte (lower_byte c) = low (byte c)"
  by (simp add: lower_byte_def low_def)

lemma folds_single: "folds c [x] \<longleftrightarrow> low (byte x) = low (byte c)"
  unfolding byte_lower [symmetric] by (simp add: folds_def)

lemma is_rune_single [simp]: "is_rune cs [x] \<longleftrightarrow> x \<in> set cs"
  by (simp add: is_rune_def)

lemma space_single: "rune_space [x] \<longleftrightarrow> x \<in> {CHR 0x09, CHR 0x0A, CHR 0x0C, CHR 0x0D, CHR '' ''}"
  by (simp add: rune_space_def)

lemmas rune_simps = folds_single space_single low_def

text \<open>The mandatory rune at a position of the chain, and what has to follow it.\<close>

lemma impossible_after:
  assumes "occurs ps s" and "i < length ps" and "list_all (\<lambda>x. \<not> (ps ! i) x) u" and "s = u @ v"
  shows "occurs (drop i ps) v"
  using occurs_nth [OF assms(1,2)] occurs_skip [OF assms(3)] assms(2,4) by (metis Cons_nth_drop_Suc)

lemma occurs_mem: "occurs ps s \<Longrightarrow> i < length ps \<Longrightarrow> \<exists>x \<in> set s. (ps ! i) x"
  using occurs_nth occurs_some by metis

text \<open>The bytes of a time stamp, of a secret in an assignment, and of a credential.\<close>

definition stamp_byte :: "char \<Rightarrow> bool" where
  "stamp_byte c = (c \<in> set ''0123456789/: '')"

definition secret_byte :: "char \<Rightarrow> bool" where
  "secret_byte c = (33 \<le> byte c \<and> byte c < 127 \<and> c \<noteq> CHR '','' \<and> c \<noteq> CHR '';'')"

definition credential_byte :: "char \<Rightarrow> bool" where
  "credential_byte c = (is_digit c \<or> (97 \<le> byte c \<and> byte c \<le> 122) \<or> (65 \<le> byte c \<and> byte c \<le> 90))"

lemma stamp_fold: "stamp_byte c \<Longrightarrow> lower_byte c = c" "stamp_byte c \<Longrightarrow> byte c < 128"
  by (auto simp: stamp_byte_def lower_byte_def)

lemma secret_space: "secret_byte c \<Longrightarrow> \<not> rune_space [c]"
  by (auto simp: space_single secret_byte_def)

lemma secret_ascii: "secret_byte c \<Longrightarrow> byte c < 128"
  by (simp add: secret_byte_def)

subsection \<open>The key in the log\<close>

abbreviation keyName :: bytes where "keyName \<equiv> ''HWCONTROL_KEY=''"

lemma stamp_no_letter: "stamp_byte c \<Longrightarrow> 97 \<le> byte d \<Longrightarrow> byte d \<le> 122 \<Longrightarrow> \<not> folds d [c]"
  by (auto simp: stamp_byte_def folds_single low_def)

lemma stamp_no_dash: "stamp_byte c \<Longrightarrow> \<not> folds (CHR ''-'') [c]"
  by (auto simp: stamp_byte_def folds_single low_def)

lemma pem_chain:
  "chain pemPattern ! 0 = folds (CHR ''-'')" "chain pemPattern ! 10 = folds (CHR '' '')" "10 < length (chain pemPattern)"
  by (simp_all add: pemPattern_def)

lemma key_no_dash: "list_all (\<lambda>x. \<not> folds (CHR ''-'') x) (singles keyName)"
  by (simp add: rune_simps)

lemma secret_no_blank: "list_all secret_byte secret \<Longrightarrow> list_all (\<lambda>x. \<not> folds (CHR '' '') x) (singles (secret @ [newline]))"
proof -
  have "\<not> folds (CHR '' '') [c]" if "secret_byte c" for c
  proof -
    have "33 \<le> byte c" using that by (simp add: secret_byte_def)
    then have "32 < low (byte c)" by (simp add: low_def)
    then show ?thesis by (simp add: folds_single low_def [of 32])
  qed
  moreover have "\<not> folds (CHR '' '') [newline]" by (simp add: rune_simps)
  moreover assume "list_all secret_byte secret"
  ultimately show ?thesis by (simp add: list_all_iff)
qed

lemma pem_none:
  assumes "list_all stamp_byte stamp" and "list_all secret_byte secret"
  shows "\<not> occurs (chain pemPattern) (singles (stamp @ keyName @ secret @ [newline]))"
proof
  let ?v = "singles (secret @ [newline])"
  assume o: "occurs (chain pemPattern) (singles (stamp @ keyName @ secret @ [newline]))"
  have "list_all (\<lambda>x. \<not> folds (CHR ''-'') x) (singles stamp)"
    using assms(1) by (auto simp: list_all_iff stamp_no_dash)
  then have "list_all (\<lambda>x. \<not> (chain pemPattern ! 0) x) (singles (stamp @ keyName))"
    using key_no_dash by (simp only: pem_chain map_append list_all_append)
  moreover have "chain pemPattern \<noteq> []" using pem_chain(3) by auto
  ultimately have "occurs (chain pemPattern) ?v" using impossible_after [OF o, of 0 "singles (stamp @ keyName)" ?v] by simp
  from occurs_mem [OF this pem_chain(3)] secret_no_blank [OF assms(2)] show False
    by (auto simp only: pem_chain list_all_iff)
qed

lemma key_no_space: "list_all (\<lambda>x. \<not> rune_space x) (singles keyName)"
  by (simp add: rune_simps)

text \<open>No expression that asks for a letter, then white space, then something else matches the line.\<close>

lemma after_key:
  assumes "list_all stamp_byte stamp" and "list_all secret_byte secret"
    and "i < j" and "Suc j < length ps" and "ps ! i = folds d" and "97 \<le> byte d \<and> byte d \<le> 122"
    and "ps ! j = rune_space" and "ps ! Suc j = word_rune"
  shows "\<not> occurs ps (singles (stamp @ keyName @ secret @ [newline]))"
proof
  let ?w = "singles (keyName @ secret)"
  assume o: "occurs ps (singles (stamp @ keyName @ secret @ [newline]))"
  have "list_all (\<lambda>x. \<not> folds d x) (singles stamp)"
    using assms(1,6) by (simp add: list_all_iff stamp_no_letter)
  with impossible_after [OF o, of i "singles stamp" "?w @ [[newline]]"] assms(3,4,5)
  have o2: "occurs (drop i ps) (?w @ [[newline]])" by simp
  have "list_all (\<lambda>x. \<not> rune_space x) (singles secret)"
    using assms(2) by (simp add: list_all_iff secret_space)
  then have "list_all (\<lambda>x. \<not> rune_space x) ?w" using key_no_space by (simp only: map_append list_all_append)
  with impossible_after [OF o2, of "j - i" ?w "[[newline]]"] assms(3,4,7) have "occurs (drop j ps) [[newline]]" by simp
  moreover have "drop j ps = rune_space # word_rune # drop (Suc (Suc j)) ps"
    using assms(4,7,8) by (metis Cons_nth_drop_Suc Suc_lessD)
  ultimately show False by simp
qed

lemma bearer_none:
  assumes "list_all stamp_byte stamp" and "list_all secret_byte secret"
  shows "\<not> occurs (chain bearerPattern) (singles (stamp @ keyName @ secret @ [newline]))"
    "\<not> occurs (chain authBearerPattern) (singles (stamp @ keyName @ secret @ [newline]))"
  using after_key [OF assms, of 1 6 "chain bearerPattern" "CHR ''e''"]
    after_key [OF assms, of 15 20 "chain authBearerPattern" "CHR ''e''"]
  by (simp_all add: bearerPattern_def authBearerPattern_def plus_def)

lemma run_ends_all:
  "list_all p u \<Longrightarrow> \<not> p x \<Longrightarrow> \<exists>others. rev (run_ends p (u @ x # v)) = (x # v) # others"
  by (induction u) auto

lemma value_secret: "secret_byte c \<Longrightarrow> value_rune [c]"
  using secret_space by (auto simp: secret_byte_def)

lemma key_matches:
  assumes "secret \<noteq> []" and "list_all secret_byte secret"
  shows "\<exists>others. remainders bridgeKeyPattern (singles (keyName @ secret) @ [[newline]]) = [[newline]] # others"
proof -
  obtain c cs where s: "secret = c # cs" "secret_byte c" "list_all secret_byte cs" using assms by (cases secret) auto
  have "list_all value_rune (singles cs)" using s(3) value_secret by (simp add: list_all_iff)
  moreover have "\<not> value_rune [newline]" by (simp add: space_single)
  ultimately obtain others where r: "rev (run_ends value_rune (singles cs @ [[newline]])) = [[newline]] # others"
    using run_ends_all [of value_rune "singles cs" "[newline]" "[]"] by auto
  have c: "\<not> rune_space [c]" "c \<noteq> CHR '',''" "c \<noteq> CHR '';''" using s(2) secret_space value_secret by auto
  have e: "\<not> rune_space ''=''" by (simp add: space_single)
  show ?thesis
    unfolding bridgeKeyPattern_def s(1)
    by (simp add: plus_def optional_def folds_single low_def c e r)
qed

lemma HasPrefix_subset: "HasPrefix s t \<Longrightarrow> set t \<subseteq> set s"
  unfolding HasPrefix_def by (metis set_take_subset)

lemma Contains_subset: "Contains s t \<Longrightarrow> set t \<subseteq> set s"
  by (induction s t rule: Contains.induct) (use HasPrefix_subset in \<open>fastforce split: if_splits\<close>)+

lemma private_key_blank: "Contains s ''private key'' \<Longrightarrow> CHR '' '' \<in> set s"
  using Contains_subset [of s "''private key''"] by simp

lemma not_in_map: "(\<And>c. c \<in> set t \<Longrightarrow> f c \<noteq> x) \<Longrightarrow> x \<notin> set (map f t)"
  by auto

lemma redact_key:
  assumes "list_all secret_byte secret"
  shows "redact_match lowerU (keyName @ secret) \<in> {keyName @ ''[REDACTED]'', ''Bearer [REDACTED]''}"
proof -
  have ascii: "list_all (\<lambda>c. byte c < 128) (keyName @ secret)"
    using assms secret_ascii by (simp add: list_all_iff)
  have "lower_byte c \<noteq> CHR '' ''" if "c \<in> set (keyName @ secret)" for c
  proof -
    have "list_all (\<lambda>c. 32 < byte c) keyName" by simp
    moreover have "list_all (\<lambda>c. 32 < byte c) secret" using assms by (rule list.pred_mono_strong) (simp add: secret_byte_def)
    ultimately have "32 < byte c" using that unfolding list_all_iff set_append by blast
    then have "32 < byte (lower_byte c)" by (simp add: byte_lower low_def)
    then show ?thesis by (intro notI) simp
  qed
  then have "CHR '' '' \<notin> set (map lower_byte (keyName @ secret))" by (rule not_in_map)
  then have "\<not> Contains (map lower_byte (keyName @ secret)) ''private key''" using private_key_blank by blast
  then have "\<not> Contains (ToLower lowerU (keyName @ secret)) ''private key''"
    unfolding ToLower_def using ascii by (simp only: if_True not_False_eq_True)
  moreover have "cut_value (keyName @ secret) = Some (keyName @ ''[REDACTED]'')"
    by (simp add: cut_value_def Let_def)
  ultimately show ?thesis unfolding redact_match_def Let_def by simp
qed

text \<open>What a redacted line looks like, and that the later passes leave it alone.\<close>

definition redacted_tails :: "bytes list" where
  "redacted_tails = [keyName @ ''[REDACTED]'' @ [newline], ''Bearer [REDACTED]'' @ [newline]]"

lemmas match_eval = replace_all.simps plus_def optional_def Let_def folds_single low_def space_single

lemma tail_credential: "list_all (\<lambda>t. replace_all credentialPattern f (singles t) = t) redacted_tails"
  by (simp add: redacted_tails_def credentialPattern_def match_eval)

lemma tail_auth: "list_all (\<lambda>t. replace_all authPattern f (singles t) = t) redacted_tails"
  by (simp add: redacted_tails_def authPattern_def match_eval)

lemma user_path_chains:
  "possible userPathPattern s \<Longrightarrow>
     (\<exists>ps. occurs ps s \<and> 3 < length ps \<and> (ps ! 2 = path_sep \<or> ps ! 0 = folds (CHR ''/'')))"
  by (auto simp: userPathPattern_def plus_def simp del: occurs.simps)

lemma fold_slash: "folds (CHR ''/'') [c] \<longleftrightarrow> c = CHR ''/''"
proof -
  have "low (byte c) = 47 \<longleftrightarrow> byte c = 47" by (auto simp: low_def)
  also have "\<dots> \<longleftrightarrow> byte c = byte (CHR ''/'')" by simp
  also have "\<dots> \<longleftrightarrow> c = CHR ''/''" by (simp only: of_char_eq_iff)
  finally show ?thesis by (simp add: folds_single low_def [of 47])
qed

lemma user_path_none:
  assumes "list_all (\<lambda>c. c \<noteq> CHR ''/'' \<and> c \<noteq> CHR 0x5C) t"
  shows "\<not> possible userPathPattern (singles t)"
proof
  assume "possible userPathPattern (singles t)"
  from user_path_chains [OF this] obtain ps where
    ps: "occurs ps (singles t)" "3 < length ps" "ps ! 2 = path_sep \<or> ps ! 0 = folds (CHR ''/'')" by blast
  have "\<exists>x \<in> set (singles t). path_sep x \<or> folds (CHR ''/'') x"
    using ps(3) occurs_mem [OF ps(1), of 2] occurs_mem [OF ps(1), of 0] ps(2) by fastforce
  with assms show False by (auto simp: list_all_iff fold_slash)
qed

lemma tail_user: "list_all (\<lambda>t. replace_all userPathPattern f (singles ('' '' @ t)) = '' '' @ t) redacted_tails"
proof -
  have "replace_all userPathPattern f (singles ('' '' @ t)) = '' '' @ t"
    if "list_all (\<lambda>c. c \<noteq> CHR ''/'' \<and> c \<noteq> CHR 0x5C) ('' '' @ t)" for t
    using replace_none [OF user_path_none [OF that]] by (simp only: concat_singles)
  moreover have "list_all (\<lambda>t. list_all (\<lambda>c. c \<noteq> CHR ''/'' \<and> c \<noteq> CHR 0x5C) ('' '' @ t)) redacted_tails"
    by (simp add: redacted_tails_def)
  ultimately show ?thesis by (rule list.pred_mono_strong [rotated])
qed

text \<open>In a time stamp a slash is followed by no letter.\<close>

lemma user_stamp:
  assumes "list_all stamp_byte stamp"
  shows "replace_all userPathPattern f (singles (stamp @ '' '') @ v) = stamp @ replace_all userPathPattern f (singles '' '' @ v)"
  using assms
proof (induction stamp)
  case (Cons c cs)
  obtain d ds where d: "cs @ '' '' = d # ds" "stamp_byte d" using Cons.prems by (cases cs) (auto simp: stamp_byte_def)
  have l: "\<not> folds (CHR ''u'') [d]" "\<not> folds (CHR ''h'') [d]"
    using stamp_no_letter [OF d(2), of "CHR ''u''"] stamp_no_letter [OF d(2), of "CHR ''h''"] by simp_all
  have "\<not> rune_letter [c]"
    using stamp_no_letter [of c] Cons.prems by (simp add: rune_letter_def)
  then have "remainders userPathPattern (singles (c # d # ds) @ v) = []"
    using l by (simp add: userPathPattern_def folds_single low_def)
  then have "replace_all userPathPattern f (singles (c # d # ds) @ v) = [c] @ replace_all userPathPattern f (singles (d # ds) @ v)"
    using replace_step [of userPathPattern "[c]" "singles (d # ds) @ v"] by simp
  with Cons d(1) show ?case by simp
qed simp

lemma cats_possible: "possible (cats (r # rs)) s = occurs (chain (cats (r # rs))) s"
  by (simp only: cats.simps possible.simps)

lemma possible_patterns:
  "possible pemPattern s = occurs (chain pemPattern) s" "possible authBearerPattern s = occurs (chain authBearerPattern) s"
  "possible bearerPattern s = occurs (chain bearerPattern) s" "possible bridgeKeyPattern s = occurs (chain bridgeKeyPattern) s"
  "possible authPattern s = occurs (chain authPattern) s" "possible credentialPattern s = occurs (chain credentialPattern) s"
  unfolding pemPattern_def authBearerPattern_def bearerPattern_def bridgeKeyPattern_def authPattern_def credentialPattern_def Let_def
  by (rule cats_possible)+

lemma starts_patterns:
  "starts bridgeKeyPattern x = folds (CHR ''H'') x" "starts authPattern x = folds (CHR ''A'') x"
  "starts credentialPattern x = (folds (CHR ''H'') x \<or> folds (CHR ''A'') x \<or> folds (CHR ''R'') x \<or> folds (CHR ''P'') x \<or> folds (CHR ''S'') x)"
  by (auto simp: bridgeKeyPattern_def authPattern_def credentialPattern_def Let_def)

lemma stamp_starts:
  assumes "list_all stamp_byte stamp"
  shows "list_all (\<lambda>x. \<not> starts bridgeKeyPattern x) (singles stamp)" "list_all (\<lambda>x. \<not> starts authPattern x) (singles stamp)"
    "list_all (\<lambda>x. \<not> starts credentialPattern x) (singles stamp)"
proof -
  have "\<not> folds d [c]" if "stamp_byte c" and "65 \<le> byte d \<and> byte d \<le> 90" for c d
    using that by (auto simp: stamp_byte_def folds_single low_def)
  then show "list_all (\<lambda>x. \<not> starts bridgeKeyPattern x) (singles stamp)" "list_all (\<lambda>x. \<not> starts authPattern x) (singles stamp)"
    "list_all (\<lambda>x. \<not> starts credentialPattern x) (singles stamp)"
    using assms by (simp_all add: starts_patterns list_all_iff)
qed

lemma key_pass:
  assumes "list_all stamp_byte stamp" and "list_all secret_byte secret" and "secret \<noteq> []"
  shows "replace_all bridgeKeyPattern f (singles (stamp @ keyName @ secret @ [newline])) = stamp @ f (keyName @ secret) @ [newline]"
proof -
  obtain others where "remainders bridgeKeyPattern (singles (keyName @ secret) @ [[newline]]) = [[newline]] # others"
    using key_matches [OF assms(3,2)] by blast
  from replace_match [OF this, of f]
  have "replace_all bridgeKeyPattern f (singles (keyName @ secret) @ [[newline]]) =
      f (keyName @ secret) @ replace_all bridgeKeyPattern f [[newline]]" by (simp only: concat_singles) simp
  moreover have "replace_all bridgeKeyPattern f [[newline]] = [newline]"
    by (simp add: replace_skip starts_patterns folds_single low_def) (simp add: replace_all.simps)
  ultimately show ?thesis
    using replace_skip_all [OF stamp_starts(1) [OF assms(1)], of f "singles (keyName @ secret) @ [[newline]]"] by simp
qed

lemma line_ascii:
  assumes "list_all stamp_byte stamp" and "list_all (\<lambda>c. byte c < 128) t"
  shows "runes (stamp @ t) = singles (stamp @ t)"
proof (rule runes_ascii)
  have "list_all (\<lambda>c. byte c < 128) stamp" using assms(1) stamp_fold(2) by (rule list.pred_mono_strong)
  then show "list_all (\<lambda>c. byte c < 128) (stamp @ t)" using assms(2) by simp
qed



text \<open>A variable whose name speaks of a key, token, secret or password, or whose value is the bridge key, shows no
  value at all.\<close>

lemma environment_is_redacted:
  assumes "Contains (ToLower lowerU name) ''key'' \<or> Contains (ToLower lowerU name) ''token'' \<or>
    Contains (ToLower lowerU name) ''secret'' \<or> Contains (ToLower lowerU name) ''password'' \<or> val = getenv ''HWCONTROL_KEY''"
  shows "redactEnvironmentValue lowerU getenv name val = ''[REDACTED]''"
  using assms by (auto simp: redactEnvironmentValue_def Let_def)

subsection \<open>Other credentials\<close>

abbreviation basicHeader :: bytes where "basicHeader \<equiv> ''Authorization: Basic ''"

lemma credential_runes:
  assumes "list_all credential_byte cred"
  shows "list_all (\<lambda>x. \<not> folds (CHR ''-'') x \<and> \<not> rune_space x \<and> \<not> is_rune ''=:'' x \<and> \<not> folds (CHR '':'') x) (singles cred)"
proof -
  have "\<not> folds (CHR ''-'') [c] \<and> \<not> rune_space [c] \<and> \<not> is_rune ''=:'' [c] \<and> \<not> folds (CHR '':'') [c]" if "credential_byte c" for c
    using that by (auto simp: credential_byte_def is_digit_def folds_single low_def space_single)
  with assms show ?thesis by (simp add: list_all_iff)
qed

lemma basic_dash: "list_all (\<lambda>x. \<not> folds (CHR ''-'') x) (singles basicHeader)"
  by (simp add: rune_simps)

lemma basic_none:
  assumes "list_all credential_byte cred"
  shows "\<not> occurs (chain pemPattern) (singles (basicHeader @ cred))"
    "\<not> occurs (chain authBearerPattern) (singles (basicHeader @ cred))"
    "\<not> occurs (chain bearerPattern) (singles (basicHeader @ cred))"
    "\<not> occurs (chain bridgeKeyPattern) (singles (basicHeader @ cred))"
proof -
  note cr = credential_runes [OF assms]
  show "\<not> occurs (chain pemPattern) (singles (basicHeader @ cred))"
  proof
    assume "occurs (chain pemPattern) (singles (basicHeader @ cred))"
    from occurs_mem [OF this, of 0] pem_chain obtain x where "x \<in> set (singles (basicHeader @ cred))" "folds (CHR ''-'') x"
      by (metis bot_nat_0.not_eq_extremum less_zeroE)
    then show False using cr basic_dash unfolding map_append set_append list_all_iff by blast
  qed
  have after: "\<not> occurs ps (singles (basicHeader @ cred))"
    if "i < j" "j < length ps" "list_all (\<lambda>x. \<not> (ps ! i) x) (singles basicHeader)" "ps ! j = rune_space \<or> ps ! j = is_rune ''=:''" for ps i j
  proof
    assume "occurs ps (singles (basicHeader @ cred))"
    from impossible_after [OF this _ that(3), of "singles cred"] that(1,2) have "occurs (drop i ps) (singles cred)" by simp
    moreover have "j - i < length (drop i ps)" "drop i ps ! (j - i) = ps ! j" using that(1,2) by simp_all
    ultimately obtain x where "x \<in> set (singles cred)" "(ps ! j) x" using occurs_mem [of "drop i ps" "singles cred" "j - i"] by metis
    then show False using cr that(4) unfolding list_all_iff by metis
  qed
  show "\<not> occurs (chain authBearerPattern) (singles (basicHeader @ cred))"
    by (rule after [of 15 20]) (simp_all add: authBearerPattern_def plus_def rune_simps)
  show "\<not> occurs (chain bearerPattern) (singles (basicHeader @ cred))"
    by (rule after [of 1 6]) (simp_all add: bearerPattern_def plus_def rune_simps)
  show "\<not> occurs (chain bridgeKeyPattern) (singles (basicHeader @ cred))"
    by (rule after [of 1 13]) (simp_all add: bridgeKeyPattern_def plus_def optional_def rune_simps)
qed

lemma occurs_none: "list_all (\<lambda>x. \<not> p x) s \<Longrightarrow> \<not> occurs (p # ps) s"
  by (induction s) auto

lemma basic_credential:
  assumes "list_all credential_byte cred"
  shows "replace_all credentialPattern f (singles (basicHeader @ cred)) = basicHeader @ cred"
proof -
  have head: "replace_all credentialPattern f (singles ''Authorization:'' @ v) = ''Authorization:'' @ replace_all credentialPattern f v" for v
    by (simp add: credentialPattern_def match_eval)
  have "chain credentialPattern = [is_rune ''=:'', value_rune]" by (simp add: credentialPattern_def Let_def plus_def)
  moreover have "list_all (\<lambda>x. \<not> is_rune ''=:'' x) (singles ('' Basic '' @ cred))"
    using credential_runes [OF assms] by (simp add: list_all_iff)
  ultimately have "\<not> occurs (chain credentialPattern) (singles ('' Basic '' @ cred))"
    by (simp only: occurs_none not_False_eq_True)
  then have "replace_all credentialPattern f (singles ('' Basic '' @ cred)) = '' Basic '' @ cred"
    by (simp only: replace_none possible_patterns not_False_eq_True concat_singles)
  with head [of "singles ('' Basic '' @ cred)"] show ?thesis by simp
qed

lemma basic_auth:
  assumes "list_all credential_byte cred"
  shows "replace_all authPattern f (singles (basicHeader @ cred)) = f ''Authorization: Basic'' @ '' '' @ cred"
proof -
  have "\<exists>others. remainders authPattern (singles ''Authorization: Basic'' @ singles ('' '' @ cred)) = singles ('' '' @ cred) # others"
    by (simp add: authPattern_def plus_def folds_single low_def space_single)
  then obtain others where "remainders authPattern (singles ''Authorization: Basic'' @ singles ('' '' @ cred)) = singles ('' '' @ cred) # others"
    by blast
  from replace_match [OF this, of f]
  have "replace_all authPattern f (singles ''Authorization: Basic'' @ singles ('' '' @ cred)) =
      f (concat (singles ''Authorization: Basic'')) @ replace_all authPattern f (singles ('' '' @ cred))" by simp
  moreover have "\<not> occurs (chain authPattern) (singles ('' '' @ cred))"
  proof
    have c: "chain authPattern ! 13 = folds (CHR '':'')" "13 < length (chain authPattern)" by (simp_all add: authPattern_def plus_def)
    assume "occurs (chain authPattern) (singles ('' '' @ cred))"
    from occurs_mem [OF this c(2)] obtain x where "x \<in> set (singles ('' '' @ cred))" "folds (CHR '':'') x" by (metis c(1))
    moreover have "\<not> folds (CHR '':'') '' ''" by (simp add: rune_simps)
    ultimately show False using credential_runes [OF assms] by (auto simp: list_all_iff)
  qed
  then have "replace_all authPattern f (singles ('' '' @ cred)) = '' '' @ cred"
    by (simp only: replace_none possible_patterns not_False_eq_True concat_singles)
  ultimately show ?thesis by simp
qed

text \<open>Only the first word after \<open>Authorization:\<close> is redacted: the credentials of a header with another scheme than
  bearer, such as the user name and password of the basic scheme, are written to the log as they are.\<close>

theorem basic_credentials_are_logged:
  assumes "list_all credential_byte cred"
  shows "log_line lowerU nil nil (''Authorization: Basic '' @ cred) contents = contents @ ''Authorization:[REDACTED] '' @ cred"
proof -
  let ?f = "redact_match lowerU" and ?l = "basicHeader @ cred" and ?out = "''Authorization:[REDACTED] '' @ cred"
  have ascii: "list_all (\<lambda>c. byte c < 128) cred"
    using assms by (rule list.pred_mono_strong) (auto simp: credential_byte_def is_digit_def)
  have l: "runes ?l = singles ?l" "runes ?out = singles ?out" using ascii by (intro runes_ascii; simp)+
  have none: "replace_all pemPattern ?f (runes ?l) = ?l" "replace_all authBearerPattern ?f (runes ?l) = ?l"
    "replace_all bearerPattern ?f (runes ?l) = ?l" "replace_all bridgeKeyPattern ?f (runes ?l) = ?l"
    unfolding l using basic_none [OF assms] by (simp_all only: replace_none possible_patterns not_False_eq_True concat_singles)
  have "?f ''Authorization: Basic'' = ''Authorization:[REDACTED]''" by code_simp
  then have auth: "replace_all authPattern ?f (runes ?l) = ?out" unfolding l using basic_auth [OF assms, of ?f] by simp
  have cred: "replace_all credentialPattern ?f (runes ?l) = ?l" unfolding l using basic_credential [OF assms] .
  have "list_all (\<lambda>c. c \<noteq> CHR ''/'' \<and> c \<noteq> CHR 0x5C) cred"
    using assms by (rule list.pred_mono_strong) (auto simp: credential_byte_def is_digit_def)
  then have "replace_all userPathPattern user_path (runes ?out) = ?out"
    unfolding l(2) using replace_none [OF user_path_none [of ?out]] by (simp only: concat_singles) simp
  then have "redactSensitiveText lowerU ?l = ?out"
    unfolding redactSensitiveText_def redactionPatterns_def Let_def by (simp only: fold_simps none cred auth)
  then show ?thesis by (simp add: log_line_def redacting_Write_def append_log_def)
qed

theorem basic_credentials_are_logged_witness:
  "log_line id nil nil (''Authorization: Basic '' @ ''dXNlcjpwYXNz'') [] = [] @ ''Authorization:[REDACTED] '' @ ''dXNlcjpwYXNz''"
  by (rule basic_credentials_are_logged) (simp add: credential_byte_def is_digit_def)

end
