(* ===== verification/Monitor.thy ===== *)
theory Monitor
  imports Inventory KeyFile
begin

text \<open>
  The runtime integrity monitor (\<open>integrity_monitor.go\<close>): the baseline that is established at
  start-up for the bridge's key, its executable and the configured files, and the goroutine that
  compares them every two seconds.  \<open>verifyInstallationState\<close> is platform specific (it does
  nothing outside Windows), so its result is an input of the step that calls it.

  Shown here: a started monitor watches different, regular files with their digests; a tick
  reports a violation exactly if something it looks at changed; and a violation is final.
\<close>

subsection \<open>Digests\<close>

definition bridgeKeyDigest :: "fstat \<times> fread \<Rightarrow> bytes res" where
  "bridgeKeyDigest file =
     (case fst file of
        SMissing e \<Rightarrow> Inl e
      | SError e \<Rightarrow> Inl e
      | SInfo kind _ _ \<Rightarrow>
          if kind = KSymlink then Inl ''bridge key must not be a symlink''
          else if kind \<noteq> KRegular then Inl ''bridge key must be a regular file''
          else rbind (read_result (snd file)) (\<lambda>data.
            if \<not> validBridgeSecret (TrimSpace data) then Inl ''bridge key contains an invalid secret''
            else Inr (hex_sha256 data)))"

definition integrityFileDigest :: "file_view \<Rightarrow> bytes \<Rightarrow> bytes res" where
  "integrityFileDigest fs path =
     (case fst (fs path) of
        SMissing e \<Rightarrow> Inl e
      | SError e \<Rightarrow> Inl e
      | SInfo kind _ _ \<Rightarrow>
          if kind = KSymlink then Inl (''critical integrity target must not be a symlink: '' @ Base path)
          else if kind \<noteq> KRegular then Inl (''critical integrity target must be a regular file: '' @ Base path)
          else rbind (read_result (snd (fs path))) (\<lambda>data. Inr (hex_sha256 data)))"

subsection \<open>Start-up\<close>

record integrityTarget =
  itPath :: bytes
  itBaseline :: bytes

record monitor_env =
  mnGoos :: bytes
  mnKey :: bytes
  mnKeyFile :: bytes
  mnProgramData :: bytes
  mnKeyStat :: fstat
  mnKeyRead :: "fstat \<times> fread"
  mnExecutable :: "bytes res"
  mnEvalSymlinks :: "bytes \<Rightarrow> bytes res"
  mnVerify :: gerr
  mnLstat :: "bytes \<Rightarrow> fstat"
  mnConfigured :: bytes
  mnFiles :: file_view

definition verifyInstallationRoot :: "monitor_env \<Rightarrow> bytes res" where
  "verifyInstallationRoot env =
     (case mnExecutable env of
        Inl e \<Rightarrow> Inl (''resolve bridge executable: '' @ e)
      | Inr executable \<Rightarrow>
          (case mnEvalSymlinks env executable of
             Inl e \<Rightarrow> Inl (''resolve bridge executable path: '' @ e)
           | Inr resolved \<Rightarrow> Inr (Dir resolved)))"

text \<open>Outside Windows the installation check does nothing (\<open>verify_key_other.go\<close>).\<close>

definition otherVerifyInstallationState :: "bytes \<Rightarrow> gerr" where
  "otherVerifyInstallationState dir = nil"

text \<open>\<open>filepath.SplitList\<close> on Unix.\<close>

definition SplitList :: "bytes \<Rightarrow> bytes list" where
  "SplitList s = (if s = [] then [] else Split s (CHR '':''))"

definition criticalIntegrityPaths :: "monitor_env \<Rightarrow> bytes list" where
  "criticalIntegrityPaths env =
     (let exe = (case mnExecutable env of
                   Inl _ \<Rightarrow> []
                 | Inr executable \<Rightarrow>
                     (case mnEvalSymlinks env executable of Inr resolved \<Rightarrow> [resolved] | Inl _ \<Rightarrow> [executable]));
          base = (case exe of [] \<Rightarrow> [] | p # _ \<Rightarrow> Dir p);
          aiPath = JoinPath [base, ''ai_engine'' @ (if mnGoos env = ''windows'' then ''.exe'' else [])];
          ai = (if base \<noteq> [] \<and> (case mnLstat env aiPath of SInfo _ _ _ \<Rightarrow> True | _ \<Rightarrow> False) then [aiPath] else []);
          configured = TrimSpace (mnConfigured env)
      in exe @ ai @ (if configured \<noteq> [] then SplitList configured else []))"

text \<open>The loop that takes the baseline; \<open>key\<close> is the path and digest of a key that is kept in a file.\<close>

fun build_targets ::
  "file_view \<Rightarrow> (bytes \<times> bytes) option \<Rightarrow> bytes list \<Rightarrow> bytes list \<Rightarrow> integrityTarget list res" where
  "build_targets fs key seen [] = Inr []"
| "build_targets fs key seen (p # ps) =
     (let path = Clean (TrimSpace p) in
      if path = [] then build_targets fs key seen ps
      else if path \<in> set seen then build_targets fs key seen ps
      else
        (let digest = (case key of
                         Some (keyPath, keyDigest) \<Rightarrow> if path = keyPath then Inr keyDigest else integrityFileDigest fs path
                       | None \<Rightarrow> integrityFileDigest fs path) in
         case digest of
           Inl e \<Rightarrow> Inl (''establish integrity baseline for '' @ Base path @ '': '' @ e)
         | Inr d \<Rightarrow> rbind (build_targets fs key (path # seen) ps) (\<lambda>ts. Inr (\<lparr>itPath = path, itBaseline = d\<rparr> # ts))))"

text \<open>
  The monitor with the globals \<open>bridgeIntegrityState\<close> and \<open>bridgeIntegrityTargetCount\<close>, the time of
  the last installation check, whether the goroutine runs, and the violations it reported.
\<close>

record monitor =
  bmTargets :: "integrityTarget list"
  bmVerifyRoot :: bytes
  bmHealthy :: bool
  bmState :: bool
  bmTargetCount :: nat
  bmLastVerify :: int
  bmRunning :: bool
  bmViolations :: "bytes list"

definition key_in_file :: "monitor_env \<Rightarrow> bool" where
  "key_in_file env = (TrimSpace (mnKey env) = [] \<or> TrimSpace (mnKey env) = ''replace-me'')"

definition key_target :: "monitor_env \<Rightarrow> (bytes \<times> bytes) option res" where
  "key_target env =
     (if key_in_file env then
        (let keyPath = defaultKeyFile (mnGoos env) (mnKeyFile env) (mnProgramData env) in
         case validateKeyFilePath (mnGoos env) (mnKeyStat env) keyPath of
           Some e \<Rightarrow> Inl e
         | None \<Rightarrow>
             (case bridgeKeyDigest (mnKeyRead env) of
                Inl e \<Rightarrow> Inl (''establish bridge key integrity baseline: '' @ e)
              | Inr d \<Rightarrow> Inr (Some (keyPath, d))))
      else Inr None)"

definition newBridgeIntegrityMonitor :: "monitor_env \<Rightarrow> monitor res" where
  "newBridgeIntegrityMonitor env =
     rbind (key_target env) (\<lambda>key.
       case verifyInstallationRoot env of
         Inl e \<Rightarrow> Inl (''resolve verify installation root: '' @ e)
       | Inr verifyRoot \<Rightarrow>
           (case mnVerify env of
              Some e \<Rightarrow> Inl (''verify installation integrity: '' @ e)
            | None \<Rightarrow>
                rbind (build_targets (mnFiles env) key []
                         ((case key of Some (p, _) \<Rightarrow> [p] | None \<Rightarrow> []) @ criticalIntegrityPaths env))
                  (\<lambda>targets.
                    if targets = [] then Inl ''no runtime integrity targets are available''
                    else Inr \<lparr>bmTargets = targets, bmVerifyRoot = verifyRoot, bmHealthy = True, bmState = True,
                              bmTargetCount = length targets, bmLastVerify = 0, bmRunning = False, bmViolations = []\<rparr>)))"

subsection \<open>The goroutine\<close>

definition violate :: "bytes \<Rightarrow> monitor \<Rightarrow> monitor" where
  "violate reason m =
     (if bmHealthy m then m\<lparr>bmHealthy := False, bmState := False, bmViolations := bmViolations m @ [reason]\<rparr>
      else m\<lparr>bmHealthy := False\<rparr>)"

fun check_targets :: "file_view \<Rightarrow> integrityTarget list \<Rightarrow> gerr" where
  "check_targets fs [] = nil"
| "check_targets fs (t # ts) =
     (case integrityFileDigest fs (itPath t) of
        Inl e \<Rightarrow> Err (''critical integrity target '' @ Base (itPath t) @ '' is missing or invalid: '' @ e)
      | Inr d \<Rightarrow>
          if d \<noteq> itBaseline t then Err (''critical integrity target '' @ Base (itPath t) @ '' content changed'')
          else check_targets fs ts)"

text \<open>What a tick sees: the clock before and after the installation check, its result, the files.\<close>

record tick_env =
  tkNow :: int
  tkVerify :: gerr
  tkAfter :: int
  tkFiles :: file_view

definition monitor_tick :: "tick_env \<Rightarrow> monitor \<Rightarrow> monitor" where
  "monitor_tick env m =
     (let due = tkNow env - bmLastVerify m \<ge> 10 * 10 ^ 9 in
      if due \<and> tkVerify env \<noteq> None
      then (violate (''installation verification failed: '' @ the (tkVerify env)) m)\<lparr>bmRunning := False\<rparr>
      else
        (let m1 = (if due then m\<lparr>bmLastVerify := tkAfter env\<rparr> else m) in
         case check_targets (tkFiles env) (bmTargets m1) of
           Some e \<Rightarrow> (violate e m1)\<lparr>bmRunning := False\<rparr>
         | None \<Rightarrow> m1))"

datatype monitor_signal = MDone | MStop | MTick tick_env

definition start_monitor :: "int \<Rightarrow> monitor \<Rightarrow> monitor" where
  "start_monitor now m = m\<lparr>bmRunning := True, bmLastVerify := now\<rparr>"

definition monitor_event :: "monitor_signal \<Rightarrow> monitor \<Rightarrow> monitor" where
  "monitor_event ev m =
     (if \<not> bmRunning m then m
      else case ev of
             MDone \<Rightarrow> m\<lparr>bmRunning := False\<rparr>
           | MStop \<Rightarrow> m\<lparr>bmRunning := False\<rparr>
           | MTick env \<Rightarrow> monitor_tick env m)"

definition run_monitor :: "monitor_signal list \<Rightarrow> monitor \<Rightarrow> monitor" where
  "run_monitor evs m = fold monitor_event evs m"

definition bridgeIntegrityHealthy :: "monitor \<Rightarrow> bool" where
  "bridgeIntegrityHealthy m = bmState m"

subsection \<open>The baseline\<close>

lemma Clean_not_Nil [simp]: "Clean p \<noteq> []"
  by (simp add: Clean_def path_text_def Let_def)

definition baseline_of :: "file_view \<Rightarrow> (bytes \<times> bytes) option \<Rightarrow> integrityTarget \<Rightarrow> bool" where
  "baseline_of fs key t =
     (integrityFileDigest fs (itPath t) = Inr (itBaseline t) \<or> key = Some (itPath t, itBaseline t))"

lemma build_targets_ok:
  assumes "build_targets fs key seen ps = Inr ts"
  shows "distinct (map itPath ts) \<and> itPath ` set ts \<inter> set seen = {} \<and> (\<forall>t \<in> set ts. baseline_of fs key t)
    \<and> (\<forall>p \<in> set ps. Clean (TrimSpace p) \<in> set seen \<union> itPath ` set ts)"
  using assms
proof (induction fs key seen ps arbitrary: ts rule: build_targets.induct)
  case (2 fs key seen p ps)
  show ?case
  proof (cases "Clean (TrimSpace p) \<in> set seen")
    case True
    with 2 show ?thesis by (simp add: Let_def)
  next
    case False
    define digest where "digest = (case key of
        Some (keyPath, keyDigest) \<Rightarrow> if Clean (TrimSpace p) = keyPath then Inr keyDigest else integrityFileDigest fs (Clean (TrimSpace p))
      | None \<Rightarrow> integrityFileDigest fs (Clean (TrimSpace p)))"
    from 2(4) False obtain d us where d: "digest = Inr d" and us: "build_targets fs key (Clean (TrimSpace p) # seen) ps = Inr us"
        and ts: "ts = \<lparr>itPath = Clean (TrimSpace p), itBaseline = d\<rparr> # us"
      by (auto simp: Let_def rbind_Inr digest_def [symmetric] split: sum.splits)
    have "baseline_of fs key \<lparr>itPath = Clean (TrimSpace p), itBaseline = d\<rparr>"
      using d by (auto simp: digest_def baseline_of_def split: option.splits if_splits)
    moreover have "distinct (map itPath us) \<and> itPath ` set us \<inter> set (Clean (TrimSpace p) # seen) = {} \<and> (\<forall>t \<in> set us. baseline_of fs key t)
        \<and> (\<forall>q \<in> set ps. Clean (TrimSpace q) \<in> set (Clean (TrimSpace p) # seen) \<union> itPath ` set us)"
      using "2.IH"(3) [OF refl _ False refl] d us by (simp add: digest_def)
    ultimately show ?thesis using False unfolding ts by auto
  qed
qed simp

lemma new_monitor:
  assumes "newBridgeIntegrityMonitor env = Inr m"
  shows "\<exists>key. key_target env = Inr key \<and> bmTargets m \<noteq> [] \<and>
    build_targets (mnFiles env) key [] ((case key of Some (p, _) \<Rightarrow> [p] | None \<Rightarrow> []) @ criticalIntegrityPaths env) = Inr (bmTargets m)
    \<and> bmHealthy m \<and> bmState m \<and> bmViolations m = [] \<and> bmTargetCount m = length (bmTargets m)"
proof (cases "key_target env")
  case (Inr key)
  let ?build = "build_targets (mnFiles env) key [] ((case key of Some (p, _) \<Rightarrow> [p] | None \<Rightarrow> []) @ criticalIntegrityPaths env)"
  obtain ts where "?build = Inr ts"
    using assms Inr by (cases ?build; cases "verifyInstallationRoot env"; cases "mnVerify env") (simp_all add: newBridgeIntegrityMonitor_def)
  then show ?thesis
    using assms Inr
    by (cases "verifyInstallationRoot env"; cases "mnVerify env") (auto simp: newBridgeIntegrityMonitor_def split: if_splits)
qed (use assms in \<open>simp add: newBridgeIntegrityMonitor_def\<close>)

lemma key_target_Inr:
  assumes "key_target env = Inr key"
  defines "keyPath \<equiv> defaultKeyFile (mnGoos env) (mnKeyFile env) (mnProgramData env)"
  shows "if key_in_file env
    then \<exists>d. key = Some (keyPath, d) \<and> bridgeKeyDigest (mnKeyRead env) = Inr d \<and> osIsAbs (mnGoos env) keyPath
    else key = None"
proof -
  have abs: "validateKeyFilePath (mnGoos env) st p = None \<Longrightarrow> osIsAbs (mnGoos env) p" for st p by (simp add: err_simps)
  show ?thesis
    using assms(1) abs unfolding key_target_def keyPath_def Let_def by (auto split: if_splits option.splits sum.splits)
qed

subsection \<open>The goroutine\<close>

definition due :: "tick_env \<Rightarrow> monitor \<Rightarrow> bool" where
  "due env m = (tkNow env - bmLastVerify m \<ge> 10 * 10 ^ 9)"

text \<open>Everything that the tick looks at is as it was.\<close>

definition intact :: "tick_env \<Rightarrow> monitor \<Rightarrow> bool" where
  "intact env m = ((due env m \<longrightarrow> tkVerify env = None) \<and>
     (\<forall>t \<in> set (bmTargets m). integrityFileDigest (tkFiles env) (itPath t) = Inr (itBaseline t)))"

lemma check_targets_nil [err_simps]:
  "check_targets fs ts = None \<longleftrightarrow> (\<forall>t \<in> set ts. integrityFileDigest fs (itPath t) = Inr (itBaseline t))"
  by (induction ts) (auto split: sum.split)

definition monitor_ok :: "monitor \<Rightarrow> bool" where
  "monitor_ok m = (bmState m = bmHealthy m \<and> (bmRunning m \<longrightarrow> bmHealthy m) \<and>
     length (bmViolations m) = (if bmHealthy m then 0 else 1))"

lemma tick_intact:
  assumes "intact env m"
  shows "bmState (monitor_tick env m) = bmState m" "bmHealthy (monitor_tick env m) = bmHealthy m"
    "bmRunning (monitor_tick env m) = bmRunning m" "bmViolations (monitor_tick env m) = bmViolations m"
proof -
  have "check_targets (tkFiles env) (bmTargets m) = None" "due env m \<longrightarrow> tkVerify env = None"
    using assms by (simp_all add: intact_def err_simps)
  then have "monitor_tick env m \<in> {m, m\<lparr>bmLastVerify := tkAfter env\<rparr>}"
    by (simp add: monitor_tick_def due_def Let_def)
  then show "bmState (monitor_tick env m) = bmState m" "bmHealthy (monitor_tick env m) = bmHealthy m"
    "bmRunning (monitor_tick env m) = bmRunning m" "bmViolations (monitor_tick env m) = bmViolations m"
    by auto
qed

lemma tick_violated:
  assumes "\<not> intact env m" and "bmHealthy m"
  shows "\<exists>r. bmViolations (monitor_tick env m) = bmViolations m @ [r]" "\<not> bmState (monitor_tick env m)"
    "\<not> bmHealthy (monitor_tick env m)" "\<not> bmRunning (monitor_tick env m)"
proof -
  have "(\<exists>r. bmViolations (monitor_tick env m) = bmViolations m @ [r]) \<and> \<not> bmState (monitor_tick env m)
    \<and> \<not> bmHealthy (monitor_tick env m) \<and> \<not> bmRunning (monitor_tick env m)"
  proof (cases "due env m \<and> tkVerify env \<noteq> None")
    case True
    with assms(2) show ?thesis by (simp add: monitor_tick_def due_def violate_def)
  next
    case False
    then have "check_targets (tkFiles env) (bmTargets m) \<noteq> None" using assms(1) by (auto simp: intact_def err_simps)
    with False assms(2) show ?thesis by (auto simp: monitor_tick_def due_def violate_def Let_def)
  qed
  then show "\<exists>r. bmViolations (monitor_tick env m) = bmViolations m @ [r]" "\<not> bmState (monitor_tick env m)"
    "\<not> bmHealthy (monitor_tick env m)" "\<not> bmRunning (monitor_tick env m)" by blast+
qed

lemma monitor_ok_event: "monitor_ok m \<Longrightarrow> monitor_ok (monitor_event ev m)"
proof (cases ev)
  case (MTick env)
  assume ok: "monitor_ok m"
  show ?thesis
  proof (cases "bmRunning m")
    case True
    with ok have h: "bmHealthy m" by (simp add: monitor_ok_def)
    show ?thesis
    proof (cases "intact env m")
      case t: True
      with ok True h show ?thesis by (simp add: MTick monitor_event_def monitor_ok_def tick_intact)
    next
      case False
      from tick_violated [OF this h] ok h True show ?thesis by (auto simp: MTick monitor_event_def monitor_ok_def)
    qed
  qed (use ok in \<open>simp add: monitor_event_def\<close>)
qed (auto simp: monitor_event_def monitor_ok_def)

lemma monitor_ok_run: "monitor_ok m \<Longrightarrow> monitor_ok (run_monitor evs m)"
  unfolding run_monitor_def by (induction evs arbitrary: m) (simp_all add: monitor_ok_event)

lemma run_stopped: "\<not> bmRunning m \<Longrightarrow> run_monitor evs m = m"
  unfolding run_monitor_def by (induction evs) (simp_all add: monitor_event_def)

lemma run_append: "run_monitor (evs @ evs') m = run_monitor evs' (run_monitor evs m)"
  by (simp add: run_monitor_def)

lemma monitor_ok_start: "newBridgeIntegrityMonitor env = Inr m \<Longrightarrow> monitor_ok (start_monitor now m)"
  using new_monitor [of env m] by (auto simp: monitor_ok_def start_monitor_def)

lemma violation_final:
  assumes "monitor_ok m" and "bmRunning m" and "\<not> intact tick m"
  shows "\<not> bmState (run_monitor (MTick tick # later) m) \<and> \<not> bmRunning (run_monitor (MTick tick # later) m)
    \<and> length (bmViolations (run_monitor (MTick tick # later) m)) = 1"
proof -
  have h: "bmHealthy m" "bmViolations m = []" using assms(1,2) by (auto simp: monitor_ok_def)
  have "run_monitor (MTick tick # later) m = run_monitor later (monitor_tick tick m)"
    using assms(2) by (simp add: run_monitor_def monitor_event_def)
  also have "\<dots> = monitor_tick tick m" using tick_violated(4) [OF assms(3) h(1)] by (rule run_stopped)
  finally show ?thesis using tick_violated [OF assms(3) h(1)] h(2) by auto
qed

subsection \<open>Properties\<close>

text \<open>What a monitor that could be started watches: at least one file; no file twice; for every watched file a digest that
  it had at start-up as a regular file that is no symbolic link (for the key file, one with a valid secret); the key file,
  unless the key comes from the environment; and every critical path, the service's own executable among them.\<close>

theorem started_monitor:
  assumes "newBridgeIntegrityMonitor env = Inr m"
  defines "keyPath \<equiv> defaultKeyFile (mnGoos env) (mnKeyFile env) (mnProgramData env)"
  shows "bmTargets m \<noteq> [] \<and> distinct (map itPath (bmTargets m)) \<and> bridgeIntegrityHealthy m
    \<and> (\<forall>t \<in> set (bmTargets m). integrityFileDigest (mnFiles env) (itPath t) = Inr (itBaseline t)
        \<or> key_in_file env \<and> itPath t = keyPath \<and> bridgeKeyDigest (mnKeyRead env) = Inr (itBaseline t))
    \<and> (key_in_file env \<longrightarrow> Clean (TrimSpace keyPath) \<in> itPath ` set (bmTargets m))
    \<and> (\<forall>p \<in> set (criticalIntegrityPaths env). Clean (TrimSpace p) \<in> itPath ` set (bmTargets m))"
proof -
  from new_monitor [OF assms(1)] obtain key where key: "key_target env = Inr key" and m: "bmTargets m \<noteq> []" "bmState m"
    and build: "build_targets (mnFiles env) key [] ((case key of Some (p, _) \<Rightarrow> [p] | None \<Rightarrow> []) @ criticalIntegrityPaths env)
      = Inr (bmTargets m)"
    by blast
  note k = key_target_Inr [OF key, folded keyPath_def]
  note ok = build_targets_ok [OF build]
  show ?thesis
  proof (cases "key_in_file env")
    case True
    with k obtain d where "key = Some (keyPath, d)" "bridgeKeyDigest (mnKeyRead env) = Inr d" by auto
    with ok m True show ?thesis by (auto simp: baseline_of_def bridgeIntegrityHealthy_def)
  next
    case False
    with k have "key = None" by simp
    with ok m False show ?thesis by (auto simp: baseline_of_def bridgeIntegrityHealthy_def)
  qed
qed

text \<open>C17: the monitor is exact and its verdict final: while the goroutine of a started monitor runs, the service counts as
  intact, and a tick leaves it so exactly if every watched file still has its baseline digest (and the installation check, when
  it is due, succeeds); otherwise the goroutine ends, exactly one violation has been reported, and the service never counts
  as intact again, whatever happens later.\<close>

theorem integrity_monitor_is_exact:
  assumes "newBridgeIntegrityMonitor env = Inr m0" and "m = run_monitor evs (start_monitor now m0)" and "bmRunning m"
  defines "after \<equiv> \<lambda>later tick. run_monitor (MTick tick # later) m"
  shows "bridgeIntegrityHealthy m \<and> (\<forall>tick later.
    if intact tick m then bridgeIntegrityHealthy (after [] tick) \<and> bmRunning (after [] tick)
    else \<not> bridgeIntegrityHealthy (after later tick) \<and> \<not> bmRunning (after later tick) \<and> length (bmViolations (after later tick)) = 1)"
proof -
  have ok: "monitor_ok m" using monitor_ok_run monitor_ok_start assms(1,2) by blast
  with assms(3) have h: "bmHealthy m" "bmState m" "bmViolations m = []" by (auto simp: monitor_ok_def)
  have "after [] tick = monitor_tick tick m" for tick
    using assms(3) by (simp add: after_def run_monitor_def monitor_event_def)
  moreover have "bmState (monitor_tick tick m) \<and> bmRunning (monitor_tick tick m)" if "intact tick m" for tick
    using tick_intact [OF that] h assms(3) by simp
  ultimately show ?thesis
    using h(2) violation_final [OF ok assms(3)] by (simp add: bridgeIntegrityHealthy_def after_def)
qed

text \<open>A start with the key in the environment and the executable as the only file.\<close>

definition demoMonitorEnv :: monitor_env where
  "demoMonitorEnv = \<lparr>mnGoos = ''linux'', mnKey = ''0011'', mnKeyFile = [], mnProgramData = [], mnKeyStat = SMissing [], mnKeyRead = (SMissing [], RMissing []),
     mnExecutable = Inr ''/opt/bridge'', mnEvalSymlinks = Inr, mnVerify = nil, mnLstat = (\<lambda>_. SMissing []), mnConfigured = [],
     mnFiles = (\<lambda>_. (SInfo KRegular 493 3, RData ''old''))\<rparr>"

definition demoMonitor :: monitor where
  "demoMonitor = \<lparr>bmTargets = [\<lparr>itPath = ''/opt/bridge'', itBaseline = hex_sha256 ''old''\<rparr>], bmVerifyRoot = ''/opt'', bmHealthy = True,
     bmState = True, bmTargetCount = 1, bmLastVerify = 0, bmRunning = False, bmViolations = []\<rparr>"

lemma demoMonitor_started: "newBridgeIntegrityMonitor demoMonitorEnv = Inr demoMonitor"
proof -
  have "TrimSpace ''0011'' = ''0011''" "Dir ''/opt/bridge'' = ''/opt''" "Clean (TrimSpace ''/opt/bridge'') = ''/opt/bridge''"
    "TrimSpace [] = []"
    by code_simp+
  then show ?thesis
    by (simp add: newBridgeIntegrityMonitor_def demoMonitorEnv_def demoMonitor_def key_target_def key_in_file_def
        verifyInstallationRoot_def criticalIntegrityPaths_def integrityFileDigest_def read_result_def Let_def)
qed

theorem started_monitor_witness: "bmTargets demoMonitor \<noteq> [] \<and> bridgeIntegrityHealthy demoMonitor"
  using started_monitor [OF demoMonitor_started] by blast

definition missing_tick :: tick_env where
  "missing_tick = \<lparr>tkNow = 2, tkVerify = nil, tkAfter = 2, tkFiles = (\<lambda>_. (SMissing ''ENOENT'', RMissing ''ENOENT''))\<rparr>"

theorem integrity_monitor_is_exact_witness:
  "\<not> bridgeIntegrityHealthy (run_monitor [MTick missing_tick, MStop] (start_monitor 0 demoMonitor))"
proof -
  have r: "bmRunning (start_monitor 0 demoMonitor)" by (simp add: start_monitor_def)
  have s: "start_monitor 0 demoMonitor = run_monitor [] (start_monitor 0 demoMonitor)" by (simp add: run_monitor_def)
  have "\<not> intact missing_tick (start_monitor 0 demoMonitor)"
    by (simp add: intact_def missing_tick_def start_monitor_def demoMonitor_def integrityFileDigest_def)
  with integrity_monitor_is_exact [OF demoMonitor_started s r] show ?thesis by meson
qed

text \<open>A blank entry in the list of configured files stops the service from starting: the check for an empty path comes
  after cleaning, which turns the empty path into the current directory, and a directory has no digest.\<close>

theorem blank_entry_prevents_start:
  assumes "[] \<in> set (criticalIntegrityPaths env)" and "\<exists>perm sz. fst (mnFiles env ''.'') = SInfo KDir perm sz"
  shows "\<exists>e. newBridgeIntegrityMonitor env = Inl e"
proof (rule ccontr)
  assume "\<not> ?thesis"
  then obtain m where m: "newBridgeIntegrityMonitor env = Inr m" by (cases "newBridgeIntegrityMonitor env") auto
  from new_monitor [OF m] obtain key where key: "key_target env = Inr key"
    and build: "build_targets (mnFiles env) key [] ((case key of Some (p, _) \<Rightarrow> [p] | None \<Rightarrow> []) @ criticalIntegrityPaths env)
      = Inr (bmTargets m)" by blast
  have dot: "Clean (TrimSpace []) = ''.''" by code_simp
  have "Clean (TrimSpace []) \<in> itPath ` set (bmTargets m)"
    using build_targets_ok [OF build] assms(1) by (metis Un_iff empty_iff list.set(1) set_append)
  with dot obtain t where "t \<in> set (bmTargets m)" "itPath t = ''.''" by auto
  then have "baseline_of (mnFiles env) key t" using build_targets_ok [OF build] by blast
  moreover have "integrityFileDigest (mnFiles env) ''.'' \<noteq> Inr d" for d using assms(2) by (auto simp: integrityFileDigest_def)
  ultimately obtain d where "key = Some (''.'', d)" using \<open>itPath t = ''.''\<close> by (auto simp: baseline_of_def)
  with key_target_Inr [OF key] have "osIsAbs (mnGoos env) ''.''" by (auto split: if_splits)
  moreover have "\<not> IsAbs ''.''" "\<not> winIsAbs ''.''" by code_simp+
  ultimately show False by (simp add: osIsAbs_def split: if_splits)
qed

definition blankEnv :: monitor_env where
  "blankEnv = demoMonitorEnv\<lparr>mnConfigured := ''/opt/a::/opt/b'', mnFiles := (\<lambda>_. (SInfo KDir 493 0, RError ''EISDIR''))\<rparr>"

theorem blank_entry_prevents_start_witness: "\<exists>e. newBridgeIntegrityMonitor blankEnv = Inl e"
proof (rule blank_entry_prevents_start)
  have "[] \<in> set (SplitList ''/opt/a::/opt/b'')" "TrimSpace ''/opt/a::/opt/b'' = ''/opt/a::/opt/b''" by code_simp+
  then show "[] \<in> set (criticalIntegrityPaths blankEnv)"
    by (simp add: criticalIntegrityPaths_def blankEnv_def Let_def)
  show "\<exists>perm sz. fst (mnFiles blankEnv ''.'') = SInfo KDir perm sz" by (simp add: blankEnv_def)
qed

end
