(* ===== verification/Listener.thy ===== *)
theory Listener
  imports Files
begin

text \<open>
  The endpoint the service listens on: \<open>bridge_listener_unix.go\<close> and \<open>bridgePort\<close> of \<open>main.go\<close>.
  The environment variables and the outcome of every system call are inputs; the calls that
  change the file system or open a socket are recorded as events.  On Unix \<open>info.Sys()\<close> always
  is a \<open>Stat_t\<close>, so \<open>leOwner\<close> only says whether \<open>os.Stat\<close> succeeded.

  Shown here: the reported endpoint is the one that is bound; a port is always a valid one; only
  a stale socket is ever replaced, and only in a directory that no other user can write; a
  socket that could not be protected is closed and removed.
\<close>

definition defaultBridgePort :: bytes where
  "defaultBridgePort = ''8080''"

definition bridgePort :: "bytes \<Rightarrow> bytes" where
  "bridgePort configured =
     (let port = TrimSpace configured in
      if port = [] then defaultBridgePort
      else case Atoi port of
             None \<Rightarrow> defaultBridgePort
           | Some parsed \<Rightarrow>
               if parsed < 1 \<or> 65535 < parsed then defaultBridgePort else FormatInt parsed)"

definition bridgeSocketPath :: "bytes \<Rightarrow> bytes \<Rightarrow> bytes" where
  "bridgeSocketPath goos configured =
     (if configured \<noteq> [] then configured
      else if goos = ''darwin'' then ''/Library/Application Support/HWControl/bridge.sock''
      else ''/var/lib/hwcontrol/bridge.sock'')"

datatype listener = TcpListener bytes | UnixListener bytes

datatype listen_event =
    LMkdir bytes
  | LRemove bytes
  | LListen listener
  | LChown bytes int int
  | LChmod bytes "32 word"
  | LClose listener

record listen_env =
  leGoos :: bytes
  leTcpCompat :: bytes
  lePort :: bytes
  leSocket :: bytes
  leTcpListen :: gerr
  leMkdir :: gerr
  leDirStat :: fstat
  leStat :: fstat
  leRemove :: gerr
  leListen :: gerr
  leOwner :: "(int \<times> int) option"
  leChown :: gerr
  leChmod :: gerr

definition bridgeEndpoint :: "listen_env \<Rightarrow> bytes" where
  "bridgeEndpoint env =
     (if leTcpCompat env = ''1'' then ''127.0.0.1:'' @ bridgePort (lePort env)
      else bridgeSocketPath (leGoos env) (leSocket env))"

unbundle bit_operations_syntax

text \<open>The checks on the parent directory and on a file that already has the socket's name.\<close>

definition check_socket_dir :: "fstat \<Rightarrow> gerr" where
  "check_socket_dir st =
     (case st of
        SMissing e \<Rightarrow> Err (''inspect bridge socket directory: '' @ e)
      | SError e \<Rightarrow> Err (''inspect bridge socket directory: '' @ e)
      | SInfo kind perm _ \<Rightarrow>
          if kind = KSymlink \<or> kind \<noteq> KDir then Err ''bridge socket parent must be a real directory''
          else if perm AND 18 \<noteq> 0 then Err ''bridge socket parent must not be group- or world-writable''
          else nil)"

definition clear_stale :: "listen_env \<Rightarrow> bytes \<Rightarrow> gerr \<times> listen_event list" where
  "clear_stale env path =
     (case leStat env of
        SMissing _ \<Rightarrow> (nil, [])
      | SError e \<Rightarrow> (Err (''inspect bridge socket: '' @ e), [])
      | SInfo kind _ _ \<Rightarrow>
          if kind = KSymlink then (Err ''bridge socket must not be a symlink'', [])
          else if kind \<noteq> KSocket then (Err (''refusing to replace non-socket endpoint '' @ path), [])
          else (case leRemove env of
                  Some e \<Rightarrow> (Err (''remove stale bridge socket: '' @ e), [LRemove path])
                | None \<Rightarrow> (nil, [LRemove path])))"

text \<open>Ownership and mode of the bound socket; on an error the socket is closed and removed.\<close>

definition protect_socket :: "listen_env \<Rightarrow> bytes \<Rightarrow> gerr \<times> listen_event list" where
  "protect_socket env path =
     (let undo = [LClose (UnixListener path), LRemove path];
          owned = (case leOwner env of
                     None \<Rightarrow> (nil, [])
                   | Some (uid, gid) \<Rightarrow> (leChown env, [LChown path uid gid])) in
      case fst owned of
        Some e \<Rightarrow> (Err (''set bridge socket ownership: '' @ e), snd owned @ undo)
      | None \<Rightarrow>
          (case leChmod env of
             Some e \<Rightarrow> (Err (''protect bridge socket: '' @ e), snd owned @ LChmod path 432 # undo)
           | None \<Rightarrow> (nil, snd owned @ [LChmod path 432])))"

definition listen_unix :: "listen_env \<Rightarrow> bytes \<Rightarrow> gerr \<times> listen_event list" where
  "listen_unix env path =
     (if \<not> IsAbs path then (Err ''bridge socket path must be absolute'', [])
      else let mkdir = LMkdir (Dir path) in
        case leMkdir env of
          Some e \<Rightarrow> (Err (''create bridge socket directory: '' @ e), [mkdir])
        | None \<Rightarrow>
            (case check_socket_dir (leDirStat env) of
               Some e \<Rightarrow> (Some e, [mkdir])
             | None \<Rightarrow>
                 (case clear_stale env path of
                    (Some e, es) \<Rightarrow> (Some e, mkdir # es)
                  | (None, es) \<Rightarrow>
                      (case leListen env of
                         Some e \<Rightarrow> (Err (''listen on unix socket '' @ path @ '': '' @ e), mkdir # es)
                       | None \<Rightarrow>
                           (case protect_socket env path of
                              (r, es') \<Rightarrow> (r, mkdir # es @ LListen (UnixListener path) # es'))))))"

definition listenBridge :: "listen_env \<Rightarrow> (listener option \<times> bytes \<times> gerr) \<times> listen_event list" where
  "listenBridge env =
     (if leTcpCompat env = ''1'' then
        (let endpoint = ''127.0.0.1:'' @ bridgePort (lePort env) in
         case leTcpListen env of
           Some e \<Rightarrow> ((None, endpoint, Err (''listen on compatibility TCP endpoint: '' @ e)), [])
         | None \<Rightarrow> ((Some (TcpListener endpoint), endpoint, nil), [LListen (TcpListener endpoint)]))
      else
        (let path = bridgeSocketPath (leGoos env) (leSocket env) in
         case listen_unix env path of
           (Some e, es) \<Rightarrow> ((None, path, Some e), es)
         | (None, es) \<Rightarrow> ((Some (UnixListener path), path, nil), es)))"

definition cleanupBridgeEndpoint :: "listen_env \<Rightarrow> bytes \<Rightarrow> listen_event list" where
  "cleanupBridgeEndpoint env endpoint = (if leTcpCompat env = ''1'' then [] else [LRemove endpoint])"

text \<open>The Windows build (\<open>bridge_listener_windows.go\<close>) always uses the loopback endpoint.\<close>

definition windowsListenBridge :: "listen_env \<Rightarrow> (listener option \<times> bytes \<times> gerr) \<times> listen_event list" where
  "windowsListenBridge env =
     (let port = bridgePort (lePort env); endpoint = ''127.0.0.1:'' @ port in
      case leTcpListen env of
        Some e \<Rightarrow> ((None, endpoint, Err (''listen on 127.0.0.1:'' @ port @ '': '' @ e)), [])
      | None \<Rightarrow> ((Some (TcpListener endpoint), endpoint, nil), [LListen (TcpListener endpoint)]))"

definition windowsCleanupBridgeEndpoint :: "bytes \<Rightarrow> listen_event list" where
  "windowsCleanupBridgeEndpoint endpoint = [LRemove endpoint]"

definition windowsBridgeEndpoint :: "listen_env \<Rightarrow> bytes" where
  "windowsBridgeEndpoint env = ''127.0.0.1:'' @ bridgePort (lePort env)"

subsection \<open>Laws\<close>

lemma windows_endpoint: "fst (snd (fst (windowsListenBridge env))) = windowsBridgeEndpoint env"
  by (simp add: windowsListenBridge_def windowsBridgeEndpoint_def Let_def split: option.split)

lemma bridgePort_range:
  "\<exists>n. Atoi (bridgePort configured) = Some n \<and> 1 \<le> n \<and> n \<le> 65535 \<and> bridgePort configured = FormatInt n"
proof -
  have default: "defaultBridgePort = FormatInt 8080" by code_simp
  have "\<exists>n. bridgePort configured = FormatInt n \<and> 1 \<le> n \<and> n \<le> 65535"
  proof (cases "Atoi (TrimSpace configured)")
    case None
    then show ?thesis using default by (auto simp: bridgePort_def Let_def intro: exI [of _ 8080])
  next
    case (Some n)
    then show ?thesis using default
      by (cases "TrimSpace configured = [] \<or> n < 1 \<or> 65535 < n")
        (auto simp: bridgePort_def Let_def intro: exI [of _ 8080])
  qed
  then show ?thesis by (auto simp: Atoi_FormatInt)
qed

text \<open>A directory in which only its owner may create or replace files.\<close>

definition private_dir :: "fstat \<Rightarrow> bool" where
  "private_dir st = (case st of SInfo KDir perm _ \<Rightarrow> perm AND 18 = 0 | _ \<Rightarrow> False)"

lemma check_socket_dir_nil [err_simps]: "check_socket_dir st = None \<longleftrightarrow> private_dir st"
  by (auto simp: check_socket_dir_def private_dir_def split: fstat.splits fkind.splits)

lemma clear_stale_events:
  "LRemove p \<in> set (snd (clear_stale env path)) \<Longrightarrow> p = path \<and> (\<exists>perm size. leStat env = SInfo KSocket perm size)"
  "LListen l \<notin> set (snd (clear_stale env path))"
  by (auto simp: clear_stale_def split: fstat.splits if_splits option.splits)

lemma clear_stale_nil:
  "fst (clear_stale env path) = None \<Longrightarrow> (\<exists>e. leStat env = SMissing e) \<or> (\<exists>perm size. leStat env = SInfo KSocket perm size)"
  by (auto simp: clear_stale_def split: fstat.splits if_splits option.splits)

lemma protect_socket_cases:
  assumes "protect_socket env path = (r, es)"
  shows "r = None \<and> LChmod path 432 \<in> set es \<and> (\<forall>p. LRemove p \<notin> set es)
    \<or> r \<noteq> None \<and> (\<exists>pre. es = pre @ [LClose (UnixListener path), LRemove path] \<and> (\<forall>p. LRemove p \<notin> set pre))"
  using assms by (auto simp: protect_socket_def Let_def split: option.splits prod.splits)

lemma listen_unix_success:
  assumes "listen_unix env path = (None, es)"
  shows "IsAbs path \<and> private_dir (leDirStat env) \<and> LChmod path 432 \<in> set es \<and>
    ((\<exists>e. leStat env = SMissing e) \<or> (\<exists>perm size. leStat env = SInfo KSocket perm size))"
proof -
  obtain c where c: "IsAbs path" "check_socket_dir (leDirStat env) = None" "clear_stale env path = (None, c)"
      and es: "es = LMkdir (Dir path) # c @ LListen (UnixListener path) # snd (protect_socket env path)"
      and p: "fst (protect_socket env path) = None"
    using assms by (auto simp: listen_unix_def Let_def split: if_splits option.splits prod.splits)
  show ?thesis
    using c es p clear_stale_nil [of env path] protect_socket_cases [OF surjective_pairing, of env path]
    by (auto simp: err_simps)
qed

lemma listen_unix_failure:
  assumes "listen_unix env path = (Some e, es)"
  shows "(\<forall>l. LListen l \<notin> set es) \<or> (\<exists>pre. es = pre @ [LClose (UnixListener path), LRemove path])"
proof -
  consider "\<forall>l. LListen l \<notin> set es"
    | c where "es = LMkdir (Dir path) # c @ LListen (UnixListener path) # snd (protect_socket env path)"
        "fst (protect_socket env path) = Some e"
    using assms clear_stale_events(2) [of _ env path]
    by (force simp: listen_unix_def Let_def split: if_splits option.splits prod.splits)
  then show ?thesis
  proof cases
    case (2 c)
    then show ?thesis using protect_socket_cases [OF surjective_pairing, of env path]
      by (metis append_Cons append_assoc option.distinct(1))
  qed simp
qed

text \<open>A file is removed only if it is a stale socket, or the socket that was just bound.\<close>

lemma listen_unix_removes:
  assumes "snd (listen_unix env path) = pre @ LRemove p # post"
  shows "p = path \<and> (LListen (UnixListener path) \<in> set pre \<or> (\<exists>perm size. leStat env = SInfo KSocket perm size))"
proof -
  define c where "c = snd (clear_stale env path)"
  define k where "k = snd (protect_socket env path)"
  have events: "snd (listen_unix env path) \<in> {[], [LMkdir (Dir path)], LMkdir (Dir path) # c,
      (LMkdir (Dir path) # c) @ LListen (UnixListener path) # k}"
    by (auto simp: listen_unix_def c_def k_def Let_def split: option.splits prod.splits)
  have "LRemove p \<in> set (snd (listen_unix env path))" by (simp add: assms)
  moreover have "snd (listen_unix env path) = (LMkdir (Dir path) # c) @ LListen (UnixListener path) # k"
    if "LRemove p \<notin> set (LMkdir (Dir path) # c)"
    using events that calculation by auto
  ultimately consider "LRemove p \<in> set (LMkdir (Dir path) # c)"
    | "pre @ LRemove p # post = (LMkdir (Dir path) # c) @ LListen (UnixListener path) # k"
        "LRemove p \<notin> set (LMkdir (Dir path) # c)"
    using assms by metis
  then show ?thesis
  proof cases
    case 1
    then show ?thesis using clear_stale_events(1) [of p env path] by (auto simp: c_def)
  next
    case 2
    then have "LListen (UnixListener path) \<in> set pre \<and> LRemove p \<in> set k"
      by (auto simp: append_eq_append_conv2 append_eq_Cons_conv Cons_eq_append_conv)
    moreover have "LRemove p \<in> set k \<Longrightarrow> p = path"
      using protect_socket_cases [OF surjective_pairing, of env path] by (auto simp: k_def)
    ultimately show ?thesis by blast
  qed
qed

subsection \<open>Properties\<close>

text \<open>C31: the endpoint that is bound is the endpoint that the service reports; a bound listener is either on the
  loopback address, or on an absolute socket path whose parent is a real directory that neither group nor others can
  write and whose name was free or a stale socket, with mode 0660 set.  Nothing is ever removed but a stale socket or
  the socket just bound; and when the function fails, no socket stays bound: it was closed and removed.\<close>

theorem listener_is_private:
  assumes "listenBridge env = ((lis, endpoint, err), es)"
  shows "endpoint = bridgeEndpoint env \<and> (lis = None \<longleftrightarrow> err \<noteq> None)
    \<and> (err = None \<longrightarrow> (if leTcpCompat env = ''1'' then HasPrefix endpoint ''127.0.0.1:'' \<and> lis = Some (TcpListener endpoint)
        else lis = Some (UnixListener endpoint) \<and> IsAbs endpoint \<and> private_dir (leDirStat env) \<and> LChmod endpoint 432 \<in> set es \<and>
          ((\<exists>e. leStat env = SMissing e) \<or> (\<exists>perm size. leStat env = SInfo KSocket perm size))))
    \<and> (\<forall>p pre post. es = pre @ LRemove p # post \<longrightarrow> p = endpoint \<and>
          (LListen (UnixListener p) \<in> set pre \<or> (\<exists>perm size. leStat env = SInfo KSocket perm size)))
    \<and> (err \<noteq> None \<longrightarrow> (\<forall>l. LListen l \<notin> set es) \<or> (\<exists>pre. es = pre @ [LClose (UnixListener endpoint), LRemove endpoint]))"
proof (cases "leTcpCompat env = ''1''")
  case True
  with assms show ?thesis
    by (auto simp: listenBridge_def bridgeEndpoint_def Let_def HasPrefix_def append_eq_Cons_conv Cons_eq_append_conv
        split: option.splits)
next
  case False
  define path where "path = bridgeSocketPath (leGoos env) (leSocket env)"
  have unix: "listen_unix env path = (err, es)" "endpoint = path" "lis = (if err = None then Some (UnixListener path) else None)"
    using assms False by (auto simp: listenBridge_def path_def Let_def split: option.splits prod.splits)
  have removes: "\<forall>p pre post. es = pre @ LRemove p # post \<longrightarrow> p = path \<and>
      (LListen (UnixListener p) \<in> set pre \<or> (\<exists>perm size. leStat env = SInfo KSocket perm size))"
    using listen_unix_removes [of env path] unix(1) by (metis snd_conv)
  have reported: "bridgeEndpoint env = path" using False by (simp add: bridgeEndpoint_def path_def)
  show ?thesis
  proof (cases err)
    case None
    with unix listen_unix_success [of env path es] removes reported False show ?thesis by simp
  next
    case (Some e)
    with unix listen_unix_failure [of env path e es] removes reported show ?thesis by simp
  qed
qed

definition freshListen :: listen_env where
  "freshListen = \<lparr>leGoos = ''linux'', leTcpCompat = [], lePort = [], leSocket = [], leTcpListen = nil, leMkdir = nil,
     leDirStat = SInfo KDir 488 4096, leStat = SInfo KSocket 432 0, leRemove = nil, leListen = nil,
     leOwner = Some (1000, 1000), leChown = nil, leChmod = nil\<rparr>"

lemma freshListen_bound:
  "listenBridge freshListen =
     ((Some (UnixListener ''/var/lib/hwcontrol/bridge.sock''), ''/var/lib/hwcontrol/bridge.sock'', nil),
      [LMkdir ''/var/lib/hwcontrol'', LRemove ''/var/lib/hwcontrol/bridge.sock'',
       LListen (UnixListener ''/var/lib/hwcontrol/bridge.sock''), LChown ''/var/lib/hwcontrol/bridge.sock'' 1000 1000,
       LChmod ''/var/lib/hwcontrol/bridge.sock'' 432])"
  by code_simp

theorem listener_is_private_witness:
  "IsAbs ''/var/lib/hwcontrol/bridge.sock'' \<and> private_dir (SInfo KDir 488 4096)
    \<and> bridgeEndpoint freshListen = ''/var/lib/hwcontrol/bridge.sock''"
proof -
  have fields: "leTcpCompat freshListen \<noteq> ''1''" "leDirStat freshListen = SInfo KDir 488 4096"
    by (simp_all add: freshListen_def)
  from listener_is_private [OF freshListen_bound] fields show ?thesis by metis
qed

end
