(* ===== verification/Guardian.thy ===== *)
theory Guardian
  imports FetchStatus Files
begin

text \<open>
  The guardian (\<open>security_guardian/main.go\<close>), a second process that watches the canary file of the
  bridge and writes the same panic state file.  Each check is given what \<open>os.Lstat\<close> and reading
  the canary return; writing the panic file is given the outcome of its calls.  The loop of
  \<open>runGuardian\<close> consumes the events of its \<open>select\<close>: a tick or the stop signal.

  Shown here: both processes use the same files and the same digest; the guardian returns an
  error as soon as the canary is not the expected regular file, and what it then leaves in the
  panic file is active panic mode for the bridge.
\<close>

definition expectedCanaryDigest :: bytes where
  "expectedCanaryDigest = ''16a35fb29082f6c54d534ec8b09a60f8e445b17548f15f2d068db23868613365''"

definition decoyDir :: "(bytes \<Rightarrow> bytes) \<Rightarrow> bytes \<Rightarrow> bytes" where
  "decoyDir getenv goos =
     (let v = TrimSpace (getenv ''HWCONTROL_DECOY_DIR'') in
      if v \<noteq> [] then v
      else if goos = ''windows'' then winJoin [programData (getenv ''ProgramData''), ''HWControl'', ''security'']
      else if goos = ''darwin''
      then JoinPath [''/Library'', ''Application Support'', ''HWControl'', ''security'']
      else ''/var/lib/hwcontrol/security'')"

definition canaryPath :: "(bytes \<Rightarrow> bytes) \<Rightarrow> bytes \<Rightarrow> bytes" where
  "canaryPath getenv goos = osJoin goos [decoyDir getenv goos, ''canary'', ''bridger.key'']"

definition panicPath :: "(bytes \<Rightarrow> bytes) \<Rightarrow> bytes \<Rightarrow> bytes" where
  "panicPath getenv goos =
     (let v = TrimSpace (getenv ''HWCONTROL_PANIC_FILE'') in
      if v \<noteq> [] then v else osJoin goos [decoyDir getenv goos, ''state'', ''panic-mode.json''])"

definition canary_digest :: "fstat \<times> fread \<Rightarrow> bytes res" where
  "canary_digest file =
     (case fst file of
        SMissing e \<Rightarrow> Inl e
      | SError e \<Rightarrow> Inl e
      | SInfo kind _ _ \<Rightarrow>
          if kind = KSymlink \<or> kind \<noteq> KRegular then Inl ''canary is not a regular file''
          else rbind (read_result (snd file)) (\<lambda>b. Inr (hex_sha256 b)))"

subsection \<open>The panic file\<close>

record panic_io =
  pnMkdir :: gerr
  pnWrite :: gerr
  pnRename :: gerr
  pnNow :: int

definition writePanic :: "panic_io \<Rightarrow> bytes \<Rightarrow> bytes option \<Rightarrow> gerr \<times> bytes option" where
  "writePanic io reason file =
     (case pnMkdir io of
        Some e \<Rightarrow> (Err e, file)
      | None \<Rightarrow>
          (case json_marshal (panic_doc reason ''security-guardian'' (pnNow io)) of
             Inl e \<Rightarrow> (Err e, file)
           | Inr b \<Rightarrow>
               (case seq_err (pnWrite io) (pnRename io) of
                  Some e \<Rightarrow> (Err e, file)
                | None \<Rightarrow> (nil, Some (b @ [newline])))))"

definition panic_io_ok :: "panic_io \<Rightarrow> bool" where
  "panic_io_ok io = (pnMkdir io = None \<and> pnWrite io = None \<and> pnRename io = None)"

subsection \<open>Checks\<close>

text \<open>\<open>os.Stat\<close> on the canary, the result of the digest and the outcome of writing the panic file.\<close>

record guardian_env =
  gdStat :: gerr
  gdCanary :: "fstat \<times> fread"
  gdIo :: panic_io

definition ensureCanary :: "guardian_env \<Rightarrow> gerr" where
  "ensureCanary env = (case gdStat env of Some e \<Rightarrow> Err (''canary unavailable: '' @ e) | None \<Rightarrow> nil)"

definition initializeGuardian :: "guardian_env \<Rightarrow> bytes option \<Rightarrow> bytes res \<times> bytes option" where
  "initializeGuardian env file =
     (case ensureCanary env of
        Some e \<Rightarrow> (Inl e, snd (writePanic (gdIo env) ''security canary missing or unreadable'' file))
      | None \<Rightarrow>
          (case canary_digest (gdCanary env) of
             Inl e \<Rightarrow> (Inl e, snd (writePanic (gdIo env) ''security canary missing, replaced, or unreadable'' file))
           | Inr baseline \<Rightarrow>
               if baseline \<noteq> expectedCanaryDigest
               then (Inl ''bridger.key baseline mismatch'', snd (writePanic (gdIo env) ''bridger.key baseline mismatch'' file))
               else (Inr baseline, file)))"

definition checkGuardianCanary :: "guardian_env \<Rightarrow> bytes \<Rightarrow> bytes option \<Rightarrow> gerr \<times> bytes option" where
  "checkGuardianCanary env baseline file =
     (case canary_digest (gdCanary env) of
        Inl e \<Rightarrow> (Err (''security canary unavailable: '' @ e),
                  snd (writePanic (gdIo env) ''security canary missing, replaced, or unreadable'' file))
      | Inr current \<Rightarrow>
          if current \<noteq> expectedCanaryDigest \<or> current \<noteq> baseline
          then (Err ''bridger.key integrity changed or replaced'',
                snd (writePanic (gdIo env) ''bridger.key integrity changed or replaced'' file))
          else (nil, file))"

datatype guardian_event = GStop | GTick guardian_env

text \<open>The loop; the last component tells whether it returned (it waits when there are no more events).\<close>

fun guardian_loop :: "bytes \<Rightarrow> guardian_event list \<Rightarrow> bytes option \<Rightarrow> gerr \<times> bytes option \<times> bool" where
  "guardian_loop baseline [] file = (nil, file, False)"
| "guardian_loop baseline (GStop # evs) file = (nil, file, True)"
| "guardian_loop baseline (GTick env # evs) file =
     (case checkGuardianCanary env baseline file of
        (Some e, file') \<Rightarrow> (Some e, file', True)
      | (None, file') \<Rightarrow> guardian_loop baseline evs file')"

definition runGuardian :: "guardian_env \<Rightarrow> guardian_event list \<Rightarrow> bytes option \<Rightarrow> gerr \<times> bytes option \<times> bool" where
  "runGuardian env evs file =
     (case initializeGuardian env file of
        (Inl e, file') \<Rightarrow> (Err e, file', True)
      | (Inr baseline, file') \<Rightarrow> guardian_loop baseline evs file')"

subsection \<open>Laws\<close>

lemma writePanic_active:
  assumes "panic_io_ok io" and "list_all (\<lambda>c. byte c < 0x80) reason"
  shows "panicModeActive (snd (writePanic io reason file))"
proof -
  have "valid_utf8 ''security-guardian''" by (simp add: valid_utf8_ascii)
  from panic_doc_active [OF valid_utf8_ascii [OF assms(2)] this, of "pnNow io"] assms(1) show ?thesis
    by (auto simp: writePanic_def panic_io_ok_def)
qed

text \<open>The canary is the expected regular file.\<close>

definition canary_intact :: "guardian_env \<Rightarrow> bool" where
  "canary_intact env = (canary_digest (gdCanary env) = Inr expectedCanaryDigest)"

lemma check_guardian:
  "(fst (checkGuardianCanary env expectedCanaryDigest panic) = None \<longleftrightarrow> canary_intact env)
   \<and> (canary_intact env \<longrightarrow> snd (checkGuardianCanary env expectedCanaryDigest panic) = panic)
   \<and> (\<not> canary_intact env \<longrightarrow> panic_io_ok (gdIo env) \<longrightarrow> panicModeActive (snd (checkGuardianCanary env expectedCanaryDigest panic)))"
  using writePanic_active [of "gdIo env" _ panic]
  by (auto simp: checkGuardianCanary_def canary_intact_def split: sum.split)

lemma init_guardian:
  "if gdStat env = None \<and> canary_intact env then initializeGuardian env panic = (Inr expectedCanaryDigest, panic)
   else (\<exists>e. fst (initializeGuardian env panic) = Inl e)
     \<and> (panic_io_ok (gdIo env) \<longrightarrow> panicModeActive (snd (initializeGuardian env panic)))"
  using writePanic_active [of "gdIo env" _ panic]
  by (auto simp: initializeGuardian_def ensureCanary_def canary_intact_def split: sum.split option.split)

text \<open>The checks that the loop makes before it is stopped.\<close>

definition checks :: "guardian_event list \<Rightarrow> guardian_env set" where
  "checks evs = {env. GTick env \<in> set (takeWhile (\<lambda>ev. ev \<noteq> GStop) evs)}"

lemma checks_simps [simp]:
  "checks [] = {}" "checks (GStop # evs) = {}" "checks (GTick env # evs) = insert env (checks evs)"
  by (auto simp: checks_def)

lemma guardian_loop_result:
  "(fst (guardian_loop expectedCanaryDigest evs panic) = None \<longleftrightarrow> (\<forall>env \<in> checks evs. canary_intact env))
   \<and> (fst (guardian_loop expectedCanaryDigest evs panic) = None \<longrightarrow> fst (snd (guardian_loop expectedCanaryDigest evs panic)) = panic)
   \<and> (fst (guardian_loop expectedCanaryDigest evs panic) \<noteq> None \<longrightarrow> (\<forall>env \<in> checks evs. panic_io_ok (gdIo env)) \<longrightarrow>
       panicModeActive (fst (snd (guardian_loop expectedCanaryDigest evs panic))))"
proof (induction evs)
  case (Cons ev evs)
  show ?case
  proof (cases ev)
    case (GTick env)
    obtain r panic' where c: "checkGuardianCanary env expectedCanaryDigest panic = (r, panic')" by fastforce
    show ?thesis
    proof (cases "canary_intact env")
      case True
      with check_guardian [of env panic] c have "r = None" "panic' = panic" by auto
      with Cons GTick c True show ?thesis by auto
    next
      case False
      with check_guardian [of env panic] c obtain e where "r = Some e" "panic_io_ok (gdIo env) \<longrightarrow> panicModeActive panic'" by auto
      with GTick c False show ?thesis by auto
    qed
  qed simp
qed simp

lemma guardian_same_files:
  "canaryPath getenv goos = decoyPath getenv goos" "panicPath getenv goos = panicStatePath getenv goos"
  "expectedCanaryDigest = decoyExpectedDigest"
proof -
  have "decoyDir getenv goos = decoyDirectory getenv goos" by (simp add: decoyDir_def decoyDirectory_def)
  then show "canaryPath getenv goos = decoyPath getenv goos" "panicPath getenv goos = panicStatePath getenv goos"
    by (simp_all add: canaryPath_def decoyPath_def panicPath_def panicStatePath_def Let_def)
  show "expectedCanaryDigest = decoyExpectedDigest" by (simp add: expectedCanaryDigest_def decoyExpectedDigest_def)
qed

subsection \<open>Properties\<close>

text \<open>C23: the guardian protects the bridge: it watches the file that the bridge uses as canary, for the same digest, and writes
  the file that the bridge reads; it reports no error exactly if every check, at start-up and at each tick until it is stopped,
  finds the expected regular file, and then leaves the panic file alone; and when it does report an error and the panic
  file could be written, every hardware command that reads that file is refused without writing anything.\<close>

theorem guardian_stops_hardware_control:
  fixes env0 evs panic
  defines "r \<equiv> runGuardian env0 evs panic"
  shows "canaryPath getenv goos = decoyPath getenv goos \<and> panicPath getenv goos = panicStatePath getenv goos
    \<and> expectedCanaryDigest = decoyExpectedDigest
    \<and> (fst r = nil \<longleftrightarrow> gdStat env0 = nil \<and> canary_intact env0 \<and> (\<forall>env \<in> checks evs. canary_intact env))
    \<and> (fst r = nil \<longrightarrow> fst (snd r) = panic)
    \<and> (fst r \<noteq> nil \<longrightarrow> (\<forall>env \<in> insert env0 (checks evs). panic_io_ok (gdIo env)) \<longrightarrow>
        xePanicFile xenv = fst (snd r) \<longrightarrow> (\<exists>e. executeHardwareCommand lowerU pl xenv cmd st = (Err e, [], st)))"
proof -
  have "(fst r = nil \<longleftrightarrow> gdStat env0 = nil \<and> canary_intact env0 \<and> (\<forall>env \<in> checks evs. canary_intact env))
      \<and> (fst r = nil \<longrightarrow> fst (snd r) = panic)
      \<and> (fst r \<noteq> nil \<longrightarrow> (\<forall>env \<in> insert env0 (checks evs). panic_io_ok (gdIo env)) \<longrightarrow> panicModeActive (fst (snd r)))"
  proof (cases "gdStat env0 = nil \<and> canary_intact env0")
    case True
    then have "r = guardian_loop expectedCanaryDigest evs panic"
      using init_guardian [of env0 panic] by (simp add: r_def runGuardian_def)
    with guardian_loop_result [of evs panic] True show ?thesis by auto
  next
    case False
    then obtain e panic' where "initializeGuardian env0 panic = (Inl e, panic')" "panic_io_ok (gdIo env0) \<longrightarrow> panicModeActive panic'"
      using init_guardian [of env0 panic] by (cases "initializeGuardian env0 panic") auto
    with False show ?thesis by (auto simp: r_def runGuardian_def)
  qed
  then show ?thesis using guardian_same_files execute_panic by metis
qed

definition missingCanary :: guardian_env where
  "missingCanary = \<lparr>gdStat = Err ''ENOENT'', gdCanary = (SMissing ''ENOENT'', RMissing ''ENOENT''),
     gdIo = \<lparr>pnMkdir = nil, pnWrite = nil, pnRename = nil, pnNow = 0\<rparr>\<rparr>"

theorem guardian_stops_hardware_control_witness:
  "\<exists>e. executeHardwareCommand id demoPlatform
     (demoExec (fst (snd (runGuardian missingCanary [] None))) 60) (fanCommand (Fin 50)) demoState = (Err e, [], demoState)"
proof -
  have "fst (runGuardian missingCanary [] None) \<noteq> nil" "\<forall>env \<in> insert missingCanary (checks []). panic_io_ok (gdIo env)"
    by (simp_all add: runGuardian_def initializeGuardian_def ensureCanary_def missingCanary_def panic_io_ok_def)
  moreover have "xePanicFile (demoExec x 60) = x" for x by (simp add: demoExec_def)
  ultimately show ?thesis
    using guardian_stops_hardware_control [where ?env0.0 = missingCanary and evs = "[]" and panic = None] by blast
qed

end
