(* ===== verification/CanaryDigest.thy ===== *)
theory CanaryDigest
  imports Guardian
begin

text \<open>
  The canary's fixed content and its fixed digest belong together: the SHA-256 of
  \<open>decoyContent\<close>, evaluated block by block on the model of the hash function, is the constant
  that the bridge and the guardian compare with.  So a canary that was bootstrapped is accepted
  by both, and every hypothesis about an intact canary can be met.
\<close>

definition canary_words :: "u32 list" where
  "canary_words = bytes_words (sha_pad decoyContent)"

definition canary_mid :: "u32 list" where
  "canary_mid = [2947724753, 2033210985, 3646999583, 2075910162, 2829131545, 912688121, 281240661, 2375470298]"

definition canary_final :: "u32 list" where
  "canary_final = [379805618, 2424501957, 1297305288, 2962907384, 3829772661, 1223778093, 109949496, 1751200613]"

lemma canary_blocks: "chunks16 (length canary_words div 16) canary_words = [take 16 canary_words, drop 16 canary_words]"
  by code_simp

lemma canary_block1: "compress sha_h0 (take 16 canary_words) = canary_mid"
  by code_simp

lemma canary_block2: "compress canary_mid (drop 16 canary_words) = canary_final"
  by code_simp

lemma canary_hex: "hex_EncodeToString (concat (map word_bytes canary_final)) = decoyExpectedDigest"
  by code_simp

lemma canary_digest_content: "hex_sha256 decoyContent = decoyExpectedDigest"
proof -
  have "sha256 decoyContent = concat (map word_bytes canary_final)"
    unfolding sha256_def Let_def canary_words_def [symmetric] canary_blocks sha_blocks.simps canary_block1 canary_block2 ..
  then show ?thesis by (simp add: hex_sha256_def canary_hex)
qed

subsection \<open>Properties\<close>

text \<open>C24: a bootstrapped canary is accepted: if the canary file is in place and holds the content that the service writes when it
  bootstraps, then starting the canary service succeeds and arms it, its check changes nothing, and the guardian starts and
  reports no error at its checks.\<close>

theorem bootstrapped_canary_is_accepted:
  fixes io path s
  assumes "fst (ensureDecoyFile dio) = nil" and "dioRead dio = Inr decoyContent"
    and "gdStat env = nil" and "gdCanary env = (SInfo KRegular perm sz, RData decoyContent)"
  defines "svc \<equiv> snd (initializeDecoyService dio path s)"
  shows "fst (initializeDecoyService dio path s) = nil \<and> fsPath svc = path \<and> fsHealthy svc
    \<and> (ssDecoy st = svc \<longrightarrow> checkDecoyIntegrity io (Inr decoyContent) st = st)
    \<and> runGuardian env [GTick env] panic = (nil, panic, False)"
proof -
  have d: "decoyDigest (Inr decoyContent) = Inr decoyExpectedDigest"
    using canary_digest_content by (simp add: decoyDigest_def hex_sha256_def)
  have init: "initializeDecoyService dio path s =
      (nil, s\<lparr>fsPath := path, fsBaseline := decoyExpectedDigest, fsHealthy := True\<rparr>)"
    using assms(1,2) d by (simp add: initializeDecoyService_def)
  have "canary_intact env"
    using canary_digest_content assms(4) guardian_same_files(3)
    by (simp add: canary_intact_def canary_digest_def read_result_def)
  then have "runGuardian env [GTick env] panic = (nil, panic, False)"
    using init_guardian [of env panic] check_guardian [of env panic] assms(3)
    by (auto simp: runGuardian_def split: prod.split)
  moreover have "checkDecoyIntegrity io (Inr decoyContent) st = st" if "ssDecoy st = svc"
    using that d by (simp add: checkDecoyIntegrity_def svc_def init)
  ultimately show ?thesis by (simp add: svc_def init)
qed

definition bootstrapIo :: decoy_io where
  "bootstrapIo = \<lparr>dioMkdir = nil, dioLstat = LMissing, dioBootstrap = ''1'', dioWrite = nil, dioRead = Inr decoyContent\<rparr>"

definition freshService :: fetchStatusService where
  "freshService = \<lparr>fsPath = [], fsBaseline = [], fsHealthy = False, fsTriggered = False, fsLastReason = []\<rparr>"

definition intactCanary :: guardian_env where
  "intactCanary = missingCanary\<lparr>gdStat := nil, gdCanary := (SInfo KRegular 288 65, RData decoyContent)\<rparr>"

theorem bootstrapped_canary_is_accepted_witness:
  "fst (initializeDecoyService bootstrapIo ''/canary'' freshService) = nil \<and> runGuardian intactCanary [GTick intactCanary] None = (nil, None, False)"
proof -
  have "TrimSpace ''1'' = ''1''" by code_simp
  then have "fst (ensureDecoyFile bootstrapIo) = nil" "dioRead bootstrapIo = Inr decoyContent"
    by (simp_all add: ensureDecoyFile_def bootstrapIo_def)
  moreover have "gdStat intactCanary = nil" "gdCanary intactCanary = (SInfo KRegular 288 65, RData decoyContent)"
    by (simp_all add: intactCanary_def)
  ultimately show ?thesis using bootstrapped_canary_is_accepted [of bootstrapIo intactCanary] by blast
qed

end
