(* ===== verification/ServiceWindows.thy ===== *)
theory ServiceWindows
  imports Startup
begin

text \<open>
  The bridge and the security guardian as Windows services (\<open>service_windows.go\<close> of both programs and their
  counterparts for other systems).  A handler waits for the next event of its \<open>select\<close> statement and sends
  status records to the service manager; a run is a function of the sequence of events.  When several events are
  ready Go picks any of them: every order is a sequence.  Log messages
  are left out; where the guardian opens its log file is not.

  Shown here: the sequence of states reported to the service manager is one that the manager knows, the bridge
  is asked to stop and its endpoint closed before a requested stop is reported, and the guardian service
  refines the guardian's loop.
\<close>

subsection \<open>Statuses and events\<close>

datatype svc_state = StartPending | Running | StopPending | Stopped

record svc_status =
  ntState :: svc_state
  ntWaitHint :: "32 word"
  ntCheckPoint :: "32 word"
  ntAccepts :: bool
  ntExitCode :: "32 word"

definition plain_status :: "svc_state \<Rightarrow> svc_status" where
  "plain_status s = \<lparr>ntState = s, ntWaitHint = 0, ntCheckPoint = 0, ntAccepts = False, ntExitCode = 0\<rparr>"

definition running_status :: svc_status where
  "running_status = (plain_status Running)\<lparr>ntAccepts := True\<rparr>"

definition failed_status :: svc_status where
  "failed_status = (plain_status Stopped)\<lparr>ntExitCode := 1\<rparr>"

datatype svc_cmd = Stop | Shutdown | Interrogate | OtherCmd

text \<open>Besides the events the handler waits for, the bridge's goroutine may store its listener in the shared handle.\<close>

datatype svc_event = EReady | EDone gerr | ERequest svc_cmd | EClosed | ETick | EListen listener

subsection \<open>The handler of the bridge\<close>

definition serviceShutdownTimeout :: int where
  "serviceShutdownTimeout = 10 * second"

definition serviceStartupWaitHint :: "32 word" where
  "serviceStartupWaitHint = 30000"

text \<open>\<open>hdExit\<close> is the exit code once the handler returned.\<close>

record handler =
  hdReady :: bool
  hdCheckpoint :: "32 word"
  hdSent :: "svc_status list"
  hdBridge :: bridgeService
  hdExit :: "32 word option"

definition send_status :: "svc_status \<Rightarrow> handler \<Rightarrow> handler" where
  "send_status s h = h\<lparr>hdSent := hdSent h @ [s]\<rparr>"

definition start_pending :: "32 word \<Rightarrow> svc_status" where
  "start_pending checkpoint =
     (plain_status StartPending)\<lparr>ntWaitHint := serviceStartupWaitHint, ntCheckPoint := checkpoint\<rparr>"

definition start_handler :: handler where
  "start_handler = \<lparr>hdReady = False, hdCheckpoint = 1, hdSent = [start_pending 1], hdBridge = newBridgeService, hdExit = None\<rparr>"

definition leave :: "svc_status \<Rightarrow> 32 word \<Rightarrow> handler \<Rightarrow> handler" where
  "leave s code h = (send_status s h)\<lparr>hdExit := Some code\<rparr>"

text \<open>\<open>stopService\<close>: it waits for the bridge, for at most \<open>serviceShutdownTimeout\<close>, and goes on in either case.\<close>

definition stopService :: "handler \<Rightarrow> handler" where
  "stopService h =
     (let pending = (plain_status StopPending)\<lparr>ntWaitHint := word_of_int (serviceShutdownTimeout div 1000000), ntCheckPoint := 1\<rparr>;
          h1 = send_status pending h;
          h2 = h1\<lparr>hdBridge := stopListener (requestStop (hdBridge h1))\<rparr>
      in send_status (plain_status Stopped) h2)"

definition on_done :: "gerr \<Rightarrow> handler \<Rightarrow> handler" where
  "on_done err h = (if err \<noteq> nil then leave failed_status 1 h else leave (plain_status Stopped) 0 h)"

definition on_request :: "svc_status \<Rightarrow> svc_cmd \<Rightarrow> handler \<Rightarrow> handler" where
  "on_request report cmd h =
     (case cmd of
        Interrogate \<Rightarrow> send_status report h
      | Stop \<Rightarrow> (stopService h)\<lparr>hdExit := Some 0\<rparr>
      | Shutdown \<Rightarrow> (stopService h)\<lparr>hdExit := Some 0\<rparr>
      | OtherCmd \<Rightarrow> h)"

definition listener_of :: "svc_event \<Rightarrow> listener option" where
  "listener_of ev = (case ev of EListen l \<Rightarrow> Some l | _ \<Rightarrow> None)"

definition is_listen :: "svc_event \<Rightarrow> bool" where
  "is_listen ev = (listener_of ev \<noteq> None)"

text \<open>An event that the current \<open>select\<close> does not wait for is not taken.  The bridge's goroutine may store a
  listener at any time, also after the handler returned.\<close>

definition handler_step :: "svc_event \<Rightarrow> handler \<Rightarrow> handler" where
  "handler_step ev h =
     (if is_listen ev then h\<lparr>hdBridge := setListener (listener_of ev) (hdBridge h)\<rparr>
      else if hdExit h \<noteq> None then h
      else if \<not> hdReady h then
        (case ev of
           EReady \<Rightarrow> (send_status running_status h)\<lparr>hdReady := True\<rparr>
         | EDone err \<Rightarrow> on_done err h
         | EClosed \<Rightarrow> leave (plain_status Stopped) 0 h
         | ERequest cmd \<Rightarrow> on_request (start_pending (hdCheckpoint h)) cmd h
         | ETick \<Rightarrow>
             (let checkpoint = hdCheckpoint h + 1 in
              send_status (start_pending checkpoint) (h\<lparr>hdCheckpoint := checkpoint\<rparr>))
         | EListen _ \<Rightarrow> h)
      else
        (case ev of
           EDone err \<Rightarrow> on_done err h
         | EClosed \<Rightarrow> leave (plain_status Stopped) 0 h
         | ERequest cmd \<Rightarrow> on_request running_status cmd h
         | _ \<Rightarrow> h))"

definition Execute_service :: "svc_event list \<Rightarrow> handler" where
  "Execute_service evs = fold handler_step evs start_handler"

text \<open>Whether the process runs as a service; \<open>run\<close> is the result of the service manager's dispatcher.\<close>

definition runWindowsService :: "bool res \<Rightarrow> gerr \<Rightarrow> bool \<times> gerr" where
  "runWindowsService isService run =
     (case isService of
        Inl e \<Rightarrow> (False, Err (''detect Windows service mode: '' @ e))
      | Inr True \<Rightarrow> (True, run)
      | Inr False \<Rightarrow> (False, nil))"

definition nonWindowsService :: "bool \<times> gerr" where
  "nonWindowsService = (False, nil)"

text \<open>What an interrupt does when the bridge runs on a console.\<close>

definition installConsoleShutdown :: "bridgeService \<Rightarrow> bridgeService" where
  "installConsoleShutdown bridge = stopListener (requestStop bridge)"

subsection \<open>The handler of the guardian\<close>

datatype guardian_svc_event = GRequest svc_cmd | GClosed | GCheck guardian_env

record guardian_handler =
  ghSent :: "svc_status list"
  ghPanic :: "bytes option"
  ghExit :: "32 word option"

definition guardian_pending :: "svc_state \<Rightarrow> svc_status" where
  "guardian_pending s = (plain_status s)\<lparr>ntWaitHint := 10000, ntCheckPoint := 1\<rparr>"

definition guardian_send :: "svc_status list \<Rightarrow> guardian_handler \<Rightarrow> guardian_handler" where
  "guardian_send ss g = g\<lparr>ghSent := ghSent g @ ss\<rparr>"

fun guardian_svc_loop :: "bytes \<Rightarrow> guardian_svc_event list \<Rightarrow> guardian_handler \<Rightarrow> guardian_handler" where
  "guardian_svc_loop baseline [] g = g"
| "guardian_svc_loop baseline (GClosed # evs) g = (guardian_send [plain_status Stopped] g)\<lparr>ghExit := Some 0\<rparr>"
| "guardian_svc_loop baseline (GRequest cmd # evs) g =
     (case cmd of
        Interrogate \<Rightarrow> guardian_svc_loop baseline evs (guardian_send [running_status] g)
      | OtherCmd \<Rightarrow> guardian_svc_loop baseline evs g
      | _ \<Rightarrow> (guardian_send [guardian_pending StopPending, plain_status Stopped] g)\<lparr>ghExit := Some 0\<rparr>)"
| "guardian_svc_loop baseline (GCheck env # evs) g =
     (case checkGuardianCanary env baseline (ghPanic g) of
        (Some e, file) \<Rightarrow> (guardian_send [failed_status] (g\<lparr>ghPanic := file\<rparr>))\<lparr>ghExit := Some 1\<rparr>
      | (None, file) \<Rightarrow> guardian_svc_loop baseline evs (g\<lparr>ghPanic := file\<rparr>))"

definition guardian_Execute :: "guardian_env \<Rightarrow> guardian_svc_event list \<Rightarrow> bytes option \<Rightarrow> guardian_handler" where
  "guardian_Execute env evs file =
     (let g = \<lparr>ghSent = [guardian_pending StartPending], ghPanic = file, ghExit = None\<rparr> in
      case initializeGuardian env file of
        (Inl e, file') \<Rightarrow> (guardian_send [failed_status] (g\<lparr>ghPanic := file'\<rparr>))\<lparr>ghExit := Some 1\<rparr>
      | (Inr baseline, file') \<Rightarrow> guardian_svc_loop baseline evs (guardian_send [running_status] (g\<lparr>ghPanic := file'\<rparr>)))"

text \<open>\<open>configureGuardianLog\<close>: where the log goes from then on, if its directory could be made and the file be opened.\<close>

definition configureGuardianLog :: "bytes \<Rightarrow> gerr \<Rightarrow> gerr \<Rightarrow> bytes option" where
  "configureGuardianLog dataDir mkdir opened =
     (let path = winJoin [programData dataDir, ''HWControl'', ''security'', ''state'', ''guardian.log''] in
      if mkdir \<noteq> nil then None else if opened \<noteq> nil then None else Some path)"

definition guardian_runWindowsService :: "bool res \<Rightarrow> gerr \<Rightarrow> bool \<times> gerr" where
  "guardian_runWindowsService isService run =
     (case isService of
        Inl e \<Rightarrow> (False, Err (''detect security guardian service mode: '' @ e))
      | Inr True \<Rightarrow> (True, run)
      | Inr False \<Rightarrow> (False, nil))"

definition guardian_nonWindowsService :: "bool \<times> gerr" where
  "guardian_nonWindowsService = (False, nil)"

subsection \<open>The programs\<close>

text \<open>The exit status of the two programs and what they print, from the result of \<open>runWindowsService\<close> and of the bridge or
  the guardian on the console.\<close>

definition baslatilamadi :: bytes where
  "baslatilamadi = ''ba'' @ [CHR 0xC5, CHR 0x9F] @ ''lat'' @ [CHR 0xC4, CHR 0xB1] @ ''lamad'' @ [CHR 0xC4, CHR 0xB1]"

definition bridge_main :: "bool \<times> gerr \<Rightarrow> gerr \<Rightarrow> int \<times> bytes" where
  "bridge_main service run =
     (case service of
        (_, Some e) \<Rightarrow> (1, ''Windows service '' @ baslatilamadi @ '': '' @ e @ [newline])
      | (True, None) \<Rightarrow> (0, [])
      | (False, None) \<Rightarrow>
          (case run of Some e \<Rightarrow> (1, ''Bridge '' @ baslatilamadi @ '': '' @ e @ [newline]) | None \<Rightarrow> (0, [])))"

definition guardian_main :: "bool \<times> gerr \<Rightarrow> gerr \<Rightarrow> int \<times> bytes" where
  "guardian_main service run =
     (case service of
        (_, Some e) \<Rightarrow> (1, e @ [newline])
      | (True, None) \<Rightarrow> (0, [])
      | (False, None) \<Rightarrow> (case run of Some e \<Rightarrow> (1, e @ [newline]) | None \<Rightarrow> (0, [])))"

subsection \<open>Sequences of states\<close>

text \<open>What the service manager accepts: pending, then running, then stopping, each left only forward, and nothing
  after stopped.\<close>

fun scm_follows :: "svc_state \<Rightarrow> svc_state \<Rightarrow> bool" where
  "scm_follows StartPending s = True"
| "scm_follows Running s = (s \<noteq> StartPending)"
| "scm_follows StopPending s = (s = StopPending \<or> s = Stopped)"
| "scm_follows Stopped s = False"

definition scm_ok :: "svc_status list \<Rightarrow> bool" where
  "scm_ok ss = (ss \<noteq> [] \<and> ntState (hd ss) = StartPending \<and> successively (\<lambda>a b. scm_follows (ntState a) (ntState b)) ss)"

definition handler_ok :: "handler \<Rightarrow> bool" where
  "handler_ok h =
     (scm_ok (hdSent h) \<and>
      (case hdExit h of
         None \<Rightarrow> ntState (last (hdSent h)) = (if hdReady h then Running else StartPending)
       | Some code \<Rightarrow> ntState (last (hdSent h)) = Stopped \<and> ntExitCode (last (hdSent h)) = code))"

lemma scm_ok_snoc: "scm_ok ss \<Longrightarrow> scm_follows (ntState (last ss)) (ntState s) \<Longrightarrow> scm_ok (ss @ [s])"
  by (auto simp: scm_ok_def successively_append_iff)

lemma scm_not_Nil: "scm_ok ss \<Longrightarrow> ss \<noteq> []"
  by (simp add: scm_ok_def)

lemmas status_defs = send_status_def leave_def plain_status_def running_status_def failed_status_def start_pending_def

lemma stopService_sent:
  "hdSent (stopService h) = hdSent h @ [(plain_status StopPending)\<lparr>ntWaitHint := 10000, ntCheckPoint := 1\<rparr>, plain_status Stopped]"
  by (simp add: stopService_def send_status_def Let_def serviceShutdownTimeout_def)

lemma stop_ok:
  assumes "handler_ok h" and "hdExit h = None"
  shows "handler_ok ((stopService h)\<lparr>hdExit := Some 0\<rparr>)"
proof -
  have ok: "scm_ok (hdSent h)" "ntState (last (hdSent h)) = Running \<or> ntState (last (hdSent h)) = StartPending"
    using assms by (auto simp: handler_ok_def split: if_splits)
  have "scm_ok (hdSent h @ [(plain_status StopPending)\<lparr>ntWaitHint := 10000, ntCheckPoint := 1\<rparr>])"
    by (rule scm_ok_snoc [OF ok(1)]) (use ok(2) in \<open>auto simp: plain_status_def\<close>)
  from scm_ok_snoc [OF this, of "plain_status Stopped"] show ?thesis
    by (simp add: handler_ok_def stopService_sent plain_status_def)
qed

lemma leave_ok:
  assumes "handler_ok h" and "hdExit h = None" and "ntState s = Stopped" and "ntExitCode s = code"
  shows "handler_ok (leave s code h)"
proof -
  have "scm_follows (ntState (last (hdSent h))) Stopped" using assms by (simp add: handler_ok_def)
  with assms scm_ok_snoc [of "hdSent h" s] show ?thesis by (simp add: handler_ok_def leave_def send_status_def)
qed

lemma send_ok:
  assumes "handler_ok h" and "hdExit h = None" and "ntState s = (if hdReady h then Running else StartPending)"
  shows "handler_ok (send_status s h)"
  using assms scm_ok_snoc [of "hdSent h" s] by (auto simp: handler_ok_def send_status_def split: if_splits)

lemma ready_ok:
  assumes "handler_ok h" and "hdExit h = None" and "\<not> hdReady h"
  shows "handler_ok ((send_status running_status h)\<lparr>hdReady := True\<rparr>)"
  using assms scm_ok_snoc [of "hdSent h" running_status]
  by (simp add: handler_ok_def send_status_def running_status_def plain_status_def)

lemma on_request_ok:
  assumes "handler_ok h" and "hdExit h = None" and "ntState s = (if hdReady h then Running else StartPending)"
  shows "handler_ok (on_request s cmd h)"
  using stop_ok [OF assms(1,2)] send_ok [OF assms] assms(1) by (cases cmd) (simp_all add: on_request_def)

lemma on_done_ok: "handler_ok h \<Longrightarrow> hdExit h = None \<Longrightarrow> handler_ok (on_done err h)"
  by (simp add: on_done_def leave_ok failed_status_def plain_status_def)

lemma handler_ok_frame:
  "handler_ok (h\<lparr>hdBridge := b\<rparr>) = handler_ok h" "handler_ok (h\<lparr>hdCheckpoint := c\<rparr>) = handler_ok h"
  by (simp_all add: handler_ok_def split: option.split)

lemma handler_step_ok: "handler_ok h \<Longrightarrow> handler_ok (handler_step ev h)"
proof (cases "hdExit h = None")
  case True
  assume ok: "handler_ok h"
  note frame = handler_ok_frame
  have tick: "handler_ok (send_status (start_pending c) (h\<lparr>hdCheckpoint := c\<rparr>))" if "\<not> hdReady h" for c
    using ok True that by (intro send_ok) (simp_all add: frame start_pending_def plain_status_def)
  note rules = on_done_ok [OF ok True] leave_ok [OF ok True] on_request_ok [OF ok True] ready_ok [OF ok True] tick
  show ?thesis
    using ok True rules
    by (cases ev) (simp_all add: handler_step_def is_listen_def listener_of_def frame Let_def plain_status_def start_pending_def running_status_def)
next
  case False
  assume "handler_ok h"
  with False show ?thesis by (simp add: handler_step_def handler_ok_frame)
qed

subsection \<open>Handlers that report their status\<close>

text \<open>What the service manager has seen and the exit code, if the handler returned, fit together.\<close>

definition status_ok :: "svc_status list \<Rightarrow> 32 word option \<Rightarrow> bool" where
  "status_ok ss code =
     (scm_ok ss \<and>
      (case code of
         None \<Rightarrow> ntState (last ss) = StartPending \<or> ntState (last ss) = Running
       | Some c \<Rightarrow> ntState (last ss) = Stopped \<and> ntExitCode (last ss) = c))"

text \<open>The contract of a handler: an invariant that every event keeps and that makes the reports acceptable, and silence
  after it returned.\<close>

locale status_reporter =
  fixes step :: "'e \<Rightarrow> 's \<Rightarrow> 's"
    and sent :: "'s \<Rightarrow> svc_status list"
    and code :: "'s \<Rightarrow> 32 word option"
    and inv_of :: "'s \<Rightarrow> bool"
  assumes inv_step: "inv_of h \<Longrightarrow> inv_of (step ev h)"
    and inv_status: "inv_of h \<Longrightarrow> status_ok (sent h) (code h)"
    and silent: "code h \<noteq> None \<Longrightarrow> sent (step ev h) = sent h \<and> code (step ev h) = code h"
begin

lemma run_inv: "inv_of h \<Longrightarrow> inv_of (fold step evs h)"
  by (induction evs arbitrary: h) (simp_all add: inv_step)

lemma run_status: "inv_of h \<Longrightarrow> status_ok (sent (fold step evs h)) (code (fold step evs h))"
  using run_inv inv_status by blast

lemma run_silent: "code h \<noteq> None \<Longrightarrow> sent (fold step evs h) = sent h \<and> code (fold step evs h) = code h"
  by (induction evs arbitrary: h) (use silent in auto)

end

interpretation bridge_handler: status_reporter handler_step hdSent hdExit handler_ok
proof
  fix h ev
  show "status_ok (hdSent h) (hdExit h)" if "handler_ok h"
    using that by (auto simp: handler_ok_def status_ok_def split: option.splits if_splits)
  show "hdSent (handler_step ev h) = hdSent h \<and> hdExit (handler_step ev h) = hdExit h" if "hdExit h \<noteq> None"
    using that by (simp add: handler_step_def)
qed (rule handler_step_ok)

lemma start_handler_ok: "handler_ok start_handler"
  by (simp add: handler_ok_def start_handler_def scm_ok_def start_pending_def plain_status_def)

text \<open>The loop of the guardian, one event at a time.\<close>

definition guardian_step :: "bytes \<Rightarrow> guardian_svc_event \<Rightarrow> guardian_handler \<Rightarrow> guardian_handler" where
  "guardian_step baseline ev g = (if ghExit g \<noteq> None then g else guardian_svc_loop baseline [ev] g)"

definition guardian_ok :: "guardian_handler \<Rightarrow> bool" where
  "guardian_ok g =
     (scm_ok (ghSent g) \<and>
      (case ghExit g of
         None \<Rightarrow> ntState (last (ghSent g)) = Running
       | Some c \<Rightarrow> ntState (last (ghSent g)) = Stopped \<and> ntExitCode (last (ghSent g)) = c))"

lemma guardian_stopped: "ghExit g \<noteq> None \<Longrightarrow> fold (guardian_step b) evs g = g"
  by (induction evs) (simp_all add: guardian_step_def)

lemma guardian_step_run: "ghExit g = None \<Longrightarrow> guardian_step b ev g = guardian_svc_loop b [ev] g"
  by (simp add: guardian_step_def)

lemma guardian_loop_steps: "ghExit g = None \<Longrightarrow> guardian_svc_loop b evs g = fold (guardian_step b) evs g"
proof (induction b evs g rule: guardian_svc_loop.induct)
  case (3 b cmd evs g)
  then show ?case by (cases cmd) (simp_all add: guardian_step_run guardian_send_def guardian_stopped)
next
  case (4 b env evs g)
  then show ?case
    by (simp add: guardian_step_run guardian_send_def guardian_stopped split: prod.split option.split)
qed (simp_all add: guardian_step_run guardian_stopped)

lemma guardian_ok_send:
  assumes "guardian_ok g" and "ghExit g = None"
  shows "guardian_ok (guardian_send [running_status] g)"
    and "ntState s = Stopped \<Longrightarrow> ntExitCode s = c \<Longrightarrow> guardian_ok ((guardian_send [s] (g\<lparr>ghPanic := p\<rparr>))\<lparr>ghExit := Some c\<rparr>)"
    and "guardian_ok ((guardian_send [guardian_pending StopPending, plain_status Stopped] g)\<lparr>ghExit := Some 0\<rparr>)"
proof -
  have s: "scm_ok (ghSent g)" "ntState (last (ghSent g)) = Running" using assms by (simp_all add: guardian_ok_def)
  have p: "scm_ok (ghSent g @ [guardian_pending StopPending])"
    by (rule scm_ok_snoc [OF s(1)]) (simp add: s(2) guardian_pending_def plain_status_def)
  show "guardian_ok (guardian_send [running_status] g)"
    using assms(2) scm_ok_snoc [OF s(1), of running_status] s(2)
    by (simp add: guardian_ok_def guardian_send_def running_status_def plain_status_def)
  show "guardian_ok ((guardian_send [s] (g\<lparr>ghPanic := p\<rparr>))\<lparr>ghExit := Some c\<rparr>)" if "ntState s = Stopped" "ntExitCode s = c"
    using that scm_ok_snoc [OF s(1), of s] s(2) by (simp add: guardian_ok_def guardian_send_def)
  show "guardian_ok ((guardian_send [guardian_pending StopPending, plain_status Stopped] g)\<lparr>ghExit := Some 0\<rparr>)"
    using scm_ok_snoc [OF p, of "plain_status Stopped"]
    by (simp add: guardian_ok_def guardian_send_def guardian_pending_def plain_status_def)
qed

lemma guardian_step_ok: "guardian_ok g \<Longrightarrow> guardian_ok (guardian_step b ev g)"
proof (cases "ghExit g = None")
  case True
  assume ok: "guardian_ok g"
  have keep: "guardian_ok (g\<lparr>ghPanic := p\<rparr>)" for p using ok by (simp add: guardian_ok_def split: option.splits)
  note sends = guardian_ok_send [OF ok True]
  show ?thesis
  proof (cases ev)
    case (GRequest cmd)
    then show ?thesis using True ok sends by (cases cmd) (simp_all add: guardian_step_def)
  next
    case GClosed
    then show ?thesis using True sends(2) [of "plain_status Stopped" 0 "ghPanic g"] by (simp add: guardian_step_def plain_status_def)
  next
    case (GCheck env)
    then show ?thesis using True keep sends(2) [of failed_status 1]
      by (simp add: guardian_step_def failed_status_def plain_status_def split: prod.split option.split)
  qed
qed (simp add: guardian_step_def)

interpretation guardian_service: status_reporter "guardian_step b" ghSent ghExit guardian_ok for b
proof
  fix g ev
  show "status_ok (ghSent g) (ghExit g)" if "guardian_ok g"
    using that by (auto simp: guardian_ok_def status_ok_def split: option.splits)
  show "ghSent (guardian_step b ev g) = ghSent g \<and> ghExit (guardian_step b ev g) = ghExit g" if "ghExit g \<noteq> None"
    using that by (simp add: guardian_step_def)
qed (rule guardian_step_ok)

lemma guardian_status: "status_ok (ghSent (guardian_Execute env evs file)) (ghExit (guardian_Execute env evs file))"
proof -
  obtain r panic where i: "initializeGuardian env file = (r, panic)" by fastforce
  show ?thesis
  proof (cases r)
    case (Inl e)
    with i show ?thesis
      by (simp add: guardian_Execute_def guardian_send_def status_ok_def scm_ok_def guardian_pending_def failed_status_def plain_status_def)
  next
    case (Inr b)
    let ?g = "guardian_send [running_status] \<lparr>ghSent = [guardian_pending StartPending], ghPanic = panic, ghExit = None\<rparr>"
    have "guardian_ok ?g"
      by (simp add: guardian_ok_def guardian_send_def scm_ok_def guardian_pending_def running_status_def plain_status_def)
    then have "status_ok (ghSent (fold (guardian_step b) evs ?g)) (ghExit (fold (guardian_step b) evs ?g))"
      by (rule guardian_service.run_status)
    moreover have "guardian_Execute env evs file = fold (guardian_step b) evs ?g"
      using Inr i guardian_loop_steps [of ?g b evs] by (simp add: guardian_Execute_def guardian_send_def Let_def)
    ultimately show ?thesis by simp
  qed
qed

text \<open>C26: whatever happens, in whatever order, the bridge service and the guardian service report to the service manager a sequence of
  states that starts with start pending, moves only forward through running and stop pending, and ends with stopped exactly when the
  handler returned, with the exit code it returned.\<close>

theorem service_status_protocol:
  "status_ok (hdSent (Execute_service evs)) (hdExit (Execute_service evs)) \<and>
   status_ok (ghSent (guardian_Execute env gevs file)) (ghExit (guardian_Execute env gevs file))"
  unfolding Execute_service_def using bridge_handler.run_status [OF start_handler_ok] guardian_status by blast

lemma finished_stays:
  assumes "hdExit h \<noteq> None"
  shows "hdExit (fold handler_step evs h) = hdExit h \<and> hdSent (fold handler_step evs h) = hdSent h \<and>
    bsStopRequested (hdBridge (fold handler_step evs h)) = bsStopRequested (hdBridge h) \<and>
    bsClosed (hdBridge (fold handler_step evs h)) = bsClosed (hdBridge h)"
  using assms by (induction evs arbitrary: h) (auto simp: handler_step_def setListener_def)

text \<open>C27: a stop or shutdown request that a running handler receives ends the service: the bridge was asked to stop and the
  listener it had open was closed, stop pending and stopped are the last statuses that are ever reported, and the handler returns with
  exit code 0, whatever happens afterwards.\<close>

theorem service_stops_on_request:
  fixes before after
  assumes "hdExit (Execute_service before) = None" and "cmd = Stop \<or> cmd = Shutdown"
  defines "h \<equiv> Execute_service (before @ ERequest cmd # after)"
  shows "hdExit h = Some 0 \<and> bsStopRequested (hdBridge h) \<and>
    (\<forall>l. bsListener (hdBridge (Execute_service before)) = Some l \<longrightarrow> l \<in> set (bsClosed (hdBridge h))) \<and>
    map ntState (drop (length (hdSent (Execute_service before))) (hdSent h)) = [StopPending, Stopped]"
proof -
  let ?h = "Execute_service before"
  have step: "handler_step (ERequest cmd) ?h = (stopService ?h)\<lparr>hdExit := Some 0\<rparr>"
    using assms(1,2) by (auto simp: handler_step_def on_request_def is_listen_def listener_of_def)
  have "h = fold handler_step after (handler_step (ERequest cmd) ?h)" by (simp add: h_def Execute_service_def)
  then have "h = fold handler_step after ((stopService ?h)\<lparr>hdExit := Some 0\<rparr>)" by (simp only: step)
  with finished_stays [of "(stopService ?h)\<lparr>hdExit := Some 0\<rparr>" after]
  have h: "hdExit h = Some 0" "hdSent h = hdSent (stopService ?h)"
    "bsStopRequested (hdBridge h) = bsStopRequested (hdBridge (stopService ?h))"
    "bsClosed (hdBridge h) = bsClosed (hdBridge (stopService ?h))"
    by simp_all
  have "hdBridge (stopService ?h) = stopListener (requestStop (hdBridge ?h))"
    by (simp add: stopService_def send_status_def Let_def)
  then show ?thesis
    by (auto simp: h stopService_sent stopListener_def requestStop_def Let_def plain_status_def split: option.split)
qed

theorem service_stops_on_request_witness:
  "hdExit (Execute_service [EReady, ERequest Stop]) = Some 0 \<and> bsStopRequested (hdBridge (Execute_service [EReady, ERequest Stop]))"
proof -
  have "hdExit (Execute_service [EReady]) = None"
    by (simp add: Execute_service_def handler_step_def start_handler_def send_status_def is_listen_def listener_of_def)
  from service_stops_on_request [OF this, of Stop "[]"] show ?thesis by simp
qed

text \<open>A program that fails in any way exits with status 1 and says why.\<close>

lemma mains_report:
  "fst (bridge_main service run) = 0 \<longleftrightarrow> snd service = nil \<and> (fst service \<or> run = nil)"
  "fst (guardian_main service run) = 0 \<longleftrightarrow> snd service = nil \<and> (fst service \<or> run = nil)"
  "fst (bridge_main service run) \<noteq> 0 \<longleftrightarrow> snd (bridge_main service run) \<noteq> []"
  "fst (guardian_main service run) \<noteq> 0 \<longleftrightarrow> snd (guardian_main service run) \<noteq> []"
  by (cases service; cases run; auto simp: bridge_main_def guardian_main_def split: bool.split option.split)+

subsection \<open>The guardian as a service\<close>

fun guardian_events :: "guardian_svc_event list \<Rightarrow> guardian_event list" where
  "guardian_events [] = []"
| "guardian_events (GClosed # evs) = GStop # guardian_events evs"
| "guardian_events (GCheck env # evs) = GTick env # guardian_events evs"
| "guardian_events (GRequest cmd # evs) =
     (if cmd = Stop \<or> cmd = Shutdown then GStop # guardian_events evs else guardian_events evs)"

definition exit_of :: "gerr \<times> bytes option \<times> bool \<Rightarrow> 32 word option" where
  "exit_of r = (case r of (err, _, returned) \<Rightarrow> if returned then Some (if err = nil then 0 else 1) else None)"

lemma guardian_loop_refines:
  "ghExit g = None \<Longrightarrow>
   ghPanic (guardian_svc_loop b evs g) = fst (snd (guardian_loop b (guardian_events evs) (ghPanic g))) \<and>
   ghExit (guardian_svc_loop b evs g) = exit_of (guardian_loop b (guardian_events evs) (ghPanic g))"
proof (induction b evs g rule: guardian_svc_loop.induct)
  case (3 b cmd evs g)
  then show ?case by (cases cmd) (simp_all add: guardian_send_def exit_of_def)
next
  case (4 b env evs g)
  obtain e panic where c: "checkGuardianCanary env b (ghPanic g) = (e, panic)" by fastforce
  with 4 show ?case by (cases e) (simp_all add: guardian_send_def exit_of_def)
qed (simp_all add: guardian_send_def exit_of_def)

text \<open>C28: the guardian's Windows service does what the guardian's loop does: for every sequence of events, it leaves the same panic file
  behind, it returns exactly when the loop returns, and its exit code is 1 exactly when the loop returns an error.\<close>

theorem guardian_service_refines_loop:
  "ghPanic (guardian_Execute env evs file) = fst (snd (runGuardian env (guardian_events evs) file)) \<and>
   ghExit (guardian_Execute env evs file) = exit_of (runGuardian env (guardian_events evs) file)"
proof -
  obtain r panic where i: "initializeGuardian env file = (r, panic)" by fastforce
  show ?thesis
  proof (cases r)
    case (Inl e)
    with i show ?thesis by (simp add: guardian_Execute_def runGuardian_def guardian_send_def exit_of_def Let_def)
  next
    case (Inr b)
    with i guardian_loop_refines [of "guardian_send [running_status] \<lparr>ghSent = [guardian_pending StartPending], ghPanic = panic, ghExit = None\<rparr>" b evs]
    show ?thesis by (simp add: guardian_Execute_def runGuardian_def guardian_send_def Let_def)
  qed
qed

end
