(* ===== verification/Health.thy ===== *)
theory Health
  imports Safety
begin

text \<open>
  Health evaluation (\<open>health.go\<close>): the capability table, the anomalies found in one set of
  telemetry, and the safety state, recovery action and status derived from them.  \<open>healthy\<close> is
  the result of \<open>bridgeIntegrityHealthy\<close> at the time of the call.  The capability map is an
  association list in the order of the source.

  Shown here: the safety state is exactly the worst severity found (or \<open>FAIL_SAFE\<close> when the
  runtime integrity check failed), a machine the control gate calls critical is never reported
  better than critical, and a healthy status means every check passed.
\<close>

record HardwareCapability =
  hcAvailable :: bool
  hcBackend :: bytes
  hcReason :: bytes

record HardwareAnomaly =
  haCode :: bytes
  haSeverity :: bytes
  haMessage :: bytes

record HardwareHealthEvaluation =
  heStatus :: bytes
  heSafetyState :: bytes
  heRecoveryAction :: bytes
  heCapabilities :: "(bytes \<times> HardwareCapability) list"
  heAnomalies :: "HardwareAnomaly list"

definition capability :: "bool \<Rightarrow> bytes \<Rightarrow> bytes \<Rightarrow> HardwareCapability" where
  "capability available backend reason = \<lparr>hcAvailable = available, hcBackend = backend, hcReason = reason\<rparr>"

definition hasValidatedFanControl :: "HardwareMetrics \<Rightarrow> bool" where
  "hasValidatedFanControl m = (FanControlSupported m \<or> anyControllableFanChannel (FanChannels m))"

definition criticalTemperature :: "float64 \<Rightarrow> bool" where
  "criticalTemperature t = (flt (Fin 0) t \<and> isValidTemperature t \<and> fle (Fin 95) t)"

definition hasValidCriticalTemperature :: "HardwareMetrics \<Rightarrow> bool" where
  "hasValidCriticalTemperature m =
     (criticalTemperature (CPUTemperature m) \<or> criticalTemperature (GPUTemperature m))"

fun first_backend :: "FanChannel list \<Rightarrow> bytes option" where
  "first_backend [] = None"
| "first_backend (ch # chs) =
     (if chSupported ch \<and> chBackend ch \<noteq> [] \<and> chBackend ch \<noteq> ''monitor-only''
      then Some (chBackend ch) else first_backend chs)"

definition resolvedFanControlBackend :: "HardwareMetrics \<Rightarrow> bytes" where
  "resolvedFanControlBackend m =
     (if FanControlSupported m \<and> FanControlBackend m \<noteq> [] then FanControlBackend m
      else case first_backend (FanChannels m) of
             Some b \<Rightarrow> b
           | None \<Rightarrow> if FanControlBackend m \<noteq> [] then FanControlBackend m else ''monitor-only'')"

definition reading_ok :: "bytes \<Rightarrow> float64 \<Rightarrow> bool" where
  "reading_ok source t = (source \<noteq> [] \<and> flt (Fin 0) t \<and> isValidTemperature t)"

definition percent_ok :: "float64 \<Rightarrow> bool" where
  "percent_ok x = (isFiniteNonNegative x \<and> fle x (Fin 100))"

definition health_capabilities :: "HardwareMetrics \<Rightarrow> (bytes \<times> HardwareCapability) list" where
  "health_capabilities m =
     [(''cpuTemperature'', capability (reading_ok (CPUTemperatureSource m) (CPUTemperature m))
         (CPUTemperatureSource m) ''CPU thermal telemetry unavailable or source unknown''),
      (''gpuTemperature'', capability (reading_ok (GPUTemperatureSource m) (GPUTemperature m))
         (GPUTemperatureSource m) ''GPU thermal telemetry unavailable or source unknown''),
      (''fanRpm'', capability (isFinitePositive (FanRPM m) \<and> FanRPMSource m \<noteq> []) (FanRPMSource m)
         ''Fan RPM telemetry unavailable or source unknown''),
      (''fanControl'', capability (hasValidatedFanControl m) (resolvedFanControlBackend m)
         ''No validated hardware-control backend''),
      (''fanChannels'', capability (length (FanChannels m) > 0) ''platform-fan-discovery''
         ''No fan/PWM channels were enumerated''),
      (''voltage'', capability (isFinitePositive (Voltage m)) (SensorSource m) ''Voltage telemetry unavailable''),
      (''power'', capability (isFinitePositive (PowerWatts m)) (SensorSource m) ''Power telemetry unavailable''),
      (''gpuCoreClock'', capability (isFinitePositive (GPUCoreClockMHz m)) (SensorSource m)
         ''GPU core clock telemetry unavailable''),
      (''gpuMemoryClock'', capability (isFinitePositive (GPUMemoryClockMHz m)) (SensorSource m)
         ''GPU memory clock telemetry unavailable''),
      (''gpuMemory'', capability (GPUMemoryTotalBytes m > 0) (SensorSource m) ''GPU memory capacity unavailable''),
      (''hardwareIdentity'', capability (TrimSpace (DetectionStatus m) \<noteq> [] \<and> DetectionStatus m \<noteq> ''unavailable'')
         (DetectionSource m) ''Hardware identity unavailable''),
      (''storage'', capability (length (StorageVolumes m) > 0) ''gopsutil''
         ''No mounted storage volume could be enumerated''),
      (''cpuUtilization'', capability (percent_ok (CPUUsage m)) ''gopsutil''
         ''CPU utilization telemetry unavailable or invalid''),
      (''memory'', capability (MemoryTotalBytes m > 0 \<and> percent_ok (MemoryUsage m)) ''gopsutil''
         ''System memory telemetry unavailable or invalid''),
      (''diskUsage'', capability (DiskTotalBytes m > 0 \<and> percent_ok (DiskUsage m)) ''gopsutil''
         ''Root-volume usage telemetry unavailable or invalid''),
      (''gpuUtilization'', capability (percent_ok (GPUUsage m) \<and> GPUVendor m \<noteq> []) (SensorSource m)
         ''GPU utilization telemetry unavailable or invalid''),
      (''fanPercent'', capability (percent_ok (FanPercent m) \<and> flt (Fin 0) (FanPercent m) \<and> FanPercentSource m \<noteq> [])
         (FanPercentSource m) ''Fan percentage telemetry unavailable or source unknown''),
      (''batteryHealth'', capability (batPresent (Battery m) \<and> batDataAvailable (Battery m) \<and>
            isFinitePositive (batHealthPercent (Battery m)))
         ''platform-battery-api'' ''Battery health requires valid design and full-charge capacity readings''),
      (''thermalSafety'', capability (ThermalSafetyAvailable m \<and>
            ((flt (Fin 0) (CPUTemperature m) \<and> isValidTemperature (CPUTemperature m)) \<or>
             (flt (Fin 0) (GPUTemperature m) \<and> isValidTemperature (GPUTemperature m))))
         (SensorSource m) ''No valid CPU/GPU temperature source is available''),
      (''fanCurveAutomation'', capability (hasValidatedFanControl m \<and> ThermalSafetyAvailable m)
         (resolvedFanControlBackend m)
         ''Automatic fan control requires both valid thermal telemetry and a supported control backend''),
      (''gpuPowerLimitControl'', capability False ''not-implemented''
         ''GPU power-limit telemetry may be readable, but a validated write backend is not implemented''),
      (''cpuOverclockControl'', capability False ''not-implemented''
         ''CPU clock/voltage overclocking is not implemented''),
      (''batteryChargeLimitControl'', capability False ''not-implemented''
         ''Battery health is read-only; charging thresholds are not changed'')]"

subsection \<open>Anomalies\<close>

definition anomaly :: "bytes \<Rightarrow> bytes \<Rightarrow> bytes \<Rightarrow> HardwareAnomaly" where
  "anomaly code severity message = \<lparr>haCode = code, haSeverity = severity, haMessage = message\<rparr>"

definition only_if :: "bool \<Rightarrow> 'a \<Rightarrow> 'a list" where
  "only_if b x = (if b then [x] else [])"

text \<open>\<open>fmt.Sprintf("%.1f", x)\<close>\<close>

definition one_decimal :: "float64 \<Rightarrow> bytes" where
  "one_decimal x = FormatFixed 1 x"

definition reached :: "bytes \<Rightarrow> float64 \<Rightarrow> bytes" where
  "reached device t =
     device @ '' temperature reached '' @ one_decimal t @ '' '' @ [CHR 0xC2, CHR 0xB0] @ ''C''"

definition invalid_temperature :: "bytes \<Rightarrow> bytes \<Rightarrow> float64 \<Rightarrow> HardwareAnomaly list" where
  "invalid_temperature code device t =
     only_if (flt (Fin 0) t \<and> \<not> isValidTemperature t)
       (anomaly code ''critical'' (device @ '' thermal telemetry is outside a valid operating range''))"

definition high_temperature :: "bytes \<Rightarrow> bytes \<Rightarrow> bytes \<Rightarrow> float64 \<Rightarrow> HardwareAnomaly list" where
  "high_temperature critCode warnCode device t =
     (if fle (Fin 95) t then [anomaly critCode ''critical'' (reached device t)]
      else only_if (fle (Fin 85) t) (anomaly warnCode ''warning'' (reached device t)))"

definition channel_anomalies :: "FanChannel \<Rightarrow> HardwareAnomaly list" where
  "channel_anomalies ch =
     (let name0 = TrimSpace (chName ch); name = (if name0 = [] then chID ch else name0) in
      if \<not> chRPMAvailable ch then
        [anomaly ''fan-rpm-unavailable-under-thermal-load'' ''warning''
           (''RPM telemetry is unavailable for controllable fan channel '' @ name @ '' while thermal load is high'')]
      else if \<not> isFiniteNonNegative (chFanRPM ch) then
        [anomaly ''fan-rpm-invalid'' ''warning''
           (''RPM telemetry is invalid for controllable fan channel '' @ name)]
      else if feq (chFanRPM ch) (Fin 0) then
        (if \<not> chPercentAvailable ch then
           [anomaly ''fan-command-state-unavailable-under-thermal-load'' ''warning''
              (''Fan channel '' @ name @ '' reports 0 RPM, but its PWM command state is unavailable'')]
         else if \<not> isFiniteNonNegative (chFanPercent ch) \<or> flt (Fin 100) (chFanPercent ch) then
           [anomaly ''fan-command-state-invalid'' ''warning''
              (''PWM command telemetry is invalid for fan channel '' @ name)]
         else only_if (flt (Fin 0) (chFanPercent ch))
           (anomaly ''fan-stall-risk'' ''critical''
              (''Fan channel '' @ name @ '' has a non-zero PWM command ('' @ one_decimal (chFanPercent ch) @
               ''%) but reports 0 RPM under thermal load'')))
      else [])"

definition fan_anomalies :: "HardwareMetrics \<Rightarrow> HardwareAnomaly list" where
  "fan_anomalies m =
     (if fle (Fin 85) (CPUTemperature m) \<or> fle (Fin 85) (GPUTemperature m) then
        (let controllable = filter controllableChannel (FanChannels m) in
         if controllable \<noteq> [] then concat (map channel_anomalies controllable)
         else only_if (FanControlSupported m \<and> fle (FanRPM m) (Fin 0))
           (anomaly ''fan-stall-risk'' ''critical''
              ''Fan control is available but no fan RPM is reported while thermal load is high''))
      else [])"

definition hardware_anomalies :: "HardwareMetrics \<Rightarrow> HardwareAnomaly list" where
  "hardware_anomalies m =
     invalid_temperature ''cpu-thermal-invalid'' ''CPU'' (CPUTemperature m) @
     invalid_temperature ''gpu-thermal-invalid'' ''GPU'' (GPUTemperature m) @
     high_temperature ''cpu-overtemperature'' ''cpu-temperature-high'' ''CPU'' (CPUTemperature m) @
     high_temperature ''gpu-overtemperature'' ''gpu-temperature-high'' ''GPU'' (GPUTemperature m) @
     fan_anomalies m @
     only_if (\<not> ThermalSafetyAvailable m) (anomaly ''thermal-sensor-missing'' ''warning''
       ''No valid thermal sensor is available; hardware control must remain fail-closed'') @
     only_if (batPresent (Battery m) \<and> batDataAvailable (Battery m) \<and>
         flt (Fin 0) (batHealthPercent (Battery m)) \<and> flt (batHealthPercent (Battery m)) (Fin 60))
       (anomaly ''battery-capacity-degraded'' ''warning''
         (''Reported battery full-charge capacity is '' @ one_decimal (batHealthPercent (Battery m)) @
          ''% of design capacity'')) @
     only_if (\<not> percent_ok (CPUUsage m)) (anomaly ''cpu-utilization-invalid'' ''warning''
       ''CPU utilization reading is invalid and must not be interpreted as a real percentage'') @
     only_if (\<not> percent_ok (MemoryUsage m)) (anomaly ''memory-utilization-invalid'' ''warning''
       ''Memory utilization reading is invalid and must not be interpreted as a real percentage'') @
     concat (map (\<lambda>vol. only_if (fle (Fin 95) (svUsagePercent vol))
       (anomaly ''storage-near-full'' ''warning''
         (''Storage volume '' @ svMountPoint vol @ '' is '' @ one_decimal (svUsagePercent vol) @ ''% full'')))
       (StorageVolumes m))"

subsection \<open>Evaluation\<close>

definition severity_step :: "HardwareAnomaly \<Rightarrow> bytes \<Rightarrow> bytes" where
  "severity_step a state =
     (if haSeverity a = ''critical'' then ''CRITICAL''
      else if haSeverity a = ''warning'' then (if state = ''SAFE'' then ''WARNING'' else state)
      else state)"

definition evaluateHardwareHealth :: "bool \<Rightarrow> HardwareMetrics \<Rightarrow> HardwareHealthEvaluation" where
  "evaluateHardwareHealth healthy m =
     (let capabilities = health_capabilities m;
          found = hardware_anomalies m;
          worst = fold severity_step found ''SAFE'';
          state = (if \<not> healthy then ''FAIL_SAFE'' else worst);
          action = (if \<not> healthy then ''trusted-repair-or-reinstall-required''
                    else if worst = ''CRITICAL'' then
                      (if hasValidCriticalTemperature m \<and> ThermalSafetyAvailable m \<and> hasValidatedFanControl m
                       then ''emergency-cooling-and-reduce-thermal-load'' else ''stop-hardware-control-and-cool'')
                    else if worst = ''WARNING'' then ''monitor-and-reduce-thermal-load'' else ''none'');
          anomalies = found @ only_if (\<not> healthy) (anomaly ''runtime-integrity-failure'' ''critical''
            ''Runtime integrity verification failed; sensitive IPC and hardware control must remain disabled'');
          identity = (case map_of capabilities ''hardwareIdentity'' of Some c \<Rightarrow> hcAvailable c | None \<Rightarrow> False);
          status = (if state = ''FAIL_SAFE'' then ''unsafe''
                    else if state \<noteq> ''SAFE'' \<or> anomalies \<noteq> [] \<or> \<not> identity then ''degraded'' else ''healthy'')
      in \<lparr>heStatus = status, heSafetyState = state, heRecoveryAction = action,
          heCapabilities = capabilities, heAnomalies = anomalies\<rparr>)"

subsection \<open>The safety state\<close>

text \<open>The specification of the scan over the severities: the worst one found.\<close>

definition worst_severity :: "HardwareAnomaly list \<Rightarrow> bytes" where
  "worst_severity as =
     (if list_ex (\<lambda>a. haSeverity a = ''critical'') as then ''CRITICAL''
      else if list_ex (\<lambda>a. haSeverity a = ''warning'') as then ''WARNING'' else ''SAFE'')"

lemma severity_step_simps:
  "severity_step a ''CRITICAL'' = ''CRITICAL''"
  "severity_step a ''WARNING'' = (if haSeverity a = ''critical'' then ''CRITICAL'' else ''WARNING'')"
  "severity_step a ''SAFE'' = worst_severity [a]"
  by (simp_all add: severity_step_def worst_severity_def)

lemma fold_severity_critical: "fold severity_step as ''CRITICAL'' = ''CRITICAL''"
  by (induction as) (auto simp: severity_step_simps)

lemma fold_severity_warning:
  "fold severity_step as ''WARNING'' =
     (if list_ex (\<lambda>a. haSeverity a = ''critical'') as then ''CRITICAL'' else ''WARNING'')"
  by (induction as) (auto simp: severity_step_simps fold_severity_critical)

lemma fold_severity: "fold severity_step as ''SAFE'' = worst_severity as"
  by (induction as)
    (auto simp: severity_step_simps fold_severity_critical fold_severity_warning worst_severity_def)

text \<open>Every anomaly is critical or a warning.\<close>

definition severity_ok :: "HardwareAnomaly \<Rightarrow> bool" where
  "severity_ok a = (haSeverity a \<in> {''critical'', ''warning''})"

lemma severity_only_if: "severity_ok a \<Longrightarrow> list_all severity_ok (only_if b a)"
  by (simp add: only_if_def)

lemma severity_anomaly [simp]:
  "severity_ok (anomaly c ''critical'' m)" "severity_ok (anomaly c ''warning'' m)"
  by (simp_all add: severity_ok_def anomaly_def)

lemma severity_channel: "list_all severity_ok (channel_anomalies ch)"
  by (simp add: channel_anomalies_def Let_def severity_only_if)

lemma list_all_concat_map: "(\<And>x. list_all P (f x)) \<Longrightarrow> list_all P (concat (map f xs))"
  by (induction xs) auto

lemma severities: "list_all severity_ok (hardware_anomalies m)"
proof -
  have "list_all severity_ok (invalid_temperature a b t)" for a b t
    by (simp add: invalid_temperature_def severity_only_if)
  moreover have "list_all severity_ok (high_temperature a b c t)" for a b c t
    by (simp add: high_temperature_def severity_only_if)
  moreover have "list_all severity_ok (fan_anomalies m)"
    by (simp add: fan_anomalies_def Let_def severity_only_if list_all_concat_map severity_channel)
  ultimately show ?thesis
    by (simp add: hardware_anomalies_def severity_only_if list_all_concat_map)
qed

lemma worst_SAFE: "list_all severity_ok as \<Longrightarrow> worst_severity as = ''SAFE'' \<longleftrightarrow> as = []"
  by (cases as) (auto simp: worst_severity_def severity_ok_def)

lemma critical_found: "hasCriticalThermalState m \<Longrightarrow> worst_severity (hardware_anomalies m) = ''CRITICAL''"
  by (auto simp: hasCriticalThermalState_def worst_severity_def hardware_anomalies_def high_temperature_def anomaly_def)

lemma no_anomaly:
  assumes "hardware_anomalies m = []"
  shows "ThermalSafetyAvailable m" "\<not> fle (Fin 85) (CPUTemperature m)" "\<not> fle (Fin 85) (GPUTemperature m)"
    "percent_ok (CPUUsage m)" "percent_ok (MemoryUsage m)"
  using assms
  by (auto simp: hardware_anomalies_def only_if_def high_temperature_def split: if_splits)

subsection \<open>Properties\<close>

text \<open>The safety state is the specification of the scan: \<open>FAIL_SAFE\<close> when the integrity check failed, and otherwise
  exactly the worst severity among the anomalies found; every anomaly is critical or a warning, so the machine is
  safe exactly when none was found.\<close>

theorem health_safety_state:
  "heSafetyState (evaluateHardwareHealth healthy m) =
     (if \<not> healthy then ''FAIL_SAFE'' else worst_severity (hardware_anomalies m)) \<and>
   (worst_severity (hardware_anomalies m) = ''SAFE'' \<longleftrightarrow> hardware_anomalies m = [])"
  using worst_SAFE [OF severities] by (simp add: evaluateHardwareHealth_def Let_def fold_severity)

text \<open>Health and control agree on danger: telemetry in which the control gate sees a critical temperature is never
  evaluated better than \<open>CRITICAL\<close>, its status is never healthy, and emergency cooling is recommended only if
  thermal telemetry and a validated fan control are there to carry it out.\<close>

theorem critical_is_never_healthy:
  assumes "hasCriticalThermalState m"
  shows "heSafetyState (evaluateHardwareHealth healthy m) \<in> {''CRITICAL'', ''FAIL_SAFE''} \<and>
    heStatus (evaluateHardwareHealth healthy m) \<noteq> ''healthy'' \<and>
    (heRecoveryAction (evaluateHardwareHealth healthy m) = ''emergency-cooling-and-reduce-thermal-load'' \<longrightarrow>
      ThermalSafetyAvailable m \<and> hasValidatedFanControl m)"
  using critical_found [OF assms] by (simp add: evaluateHardwareHealth_def Let_def fold_severity)

theorem critical_is_never_healthy_witness:
  "heSafetyState (evaluateHardwareHealth True hotMetrics) \<in> {''CRITICAL'', ''FAIL_SAFE''}"
  using critical_is_never_healthy [of hotMetrics True] by (simp add: hasCriticalThermalState_def hotMetrics_def)

text \<open>A healthy status is earned: it is reported only if the integrity check passed, no anomaly was found, thermal
  telemetry is available, no temperature has reached 85 degrees, the utilisation readings are percentages, and the
  hardware was identified.\<close>

theorem healthy_status:
  assumes "heStatus (evaluateHardwareHealth healthy m) = ''healthy''"
  shows "healthy \<and> heAnomalies (evaluateHardwareHealth healthy m) = [] \<and> ThermalSafetyAvailable m \<and>
    \<not> fle (Fin 85) (CPUTemperature m) \<and> \<not> fle (Fin 85) (GPUTemperature m) \<and>
    percent_ok (CPUUsage m) \<and> percent_ok (MemoryUsage m) \<and>
    TrimSpace (DetectionStatus m) \<noteq> [] \<and> DetectionStatus m \<noteq> ''unavailable''"
proof -
  let ?w = "fold severity_step (hardware_anomalies m) ''SAFE''"
  have h: healthy and none: "hardware_anomalies m = []"
    and ident: "\<exists>c. map_of (health_capabilities m) ''hardwareIdentity'' = Some c \<and> hcAvailable c"
    using assms unfolding evaluateHardwareHealth_def Let_def
    by (auto simp: only_if_def split: if_splits option.splits)
  have "heAnomalies (evaluateHardwareHealth healthy m) = []"
    using h none by (simp add: evaluateHardwareHealth_def Let_def only_if_def)
  moreover have "TrimSpace (DetectionStatus m) \<noteq> [] \<and> DetectionStatus m \<noteq> ''unavailable''"
    using ident by (simp add: health_capabilities_def capability_def)
  ultimately show ?thesis using h no_anomaly [OF none] by simp
qed

definition coolMetrics :: HardwareMetrics where
  "coolMetrics = emptyMetrics\<lparr>CPUTemperature := Fin 50, CPUTemperatureSource := ''cpu'', ThermalSafetyAvailable := True,
     DetectionStatus := ''ok''\<rparr>"

lemma coolMetrics_healthy: "heStatus (evaluateHardwareHealth True coolMetrics) = ''healthy''"
  by code_simp

theorem healthy_status_witness: "ThermalSafetyAvailable coolMetrics \<and> percent_ok (CPUUsage coolMetrics)"
  using healthy_status [OF coolMetrics_healthy] by blast

end
