(* ===== verification/Snapshots.thy ===== *)
theory Snapshots
  imports Connection Health Unmarshal Listener
begin

text \<open>
  The read-only reports of the bridge: \<open>healthSnapshot\<close> (\<open>health.go\<close>), \<open>sensorHealthSnapshot\<close>
  (\<open>sensor_health_service.go\<close>), the service catalog (\<open>service_catalog.go\<close>), the update check
  (\<open>update_service.go\<close>), the diagnostics record (\<open>diagnostic_service.go\<close>), \<open>diagnosticsSnapshot\<close> and
  \<open>modelDigest\<close> (\<open>main.go\<close>), and the JSON form of the telemetry.  The record \<open>snap_env\<close> says what the calls
  made for a report see; the integrity flag is read twice for a health report, so it occurs twice.

  \<open>go_render\<close> collects the reports into the parameter that \<open>Connection\<close> leaves open.

  Shown here: the checks and warnings of a health report agree with the evaluation, and a report is answered
  exactly if every reading in it is finite.
\<close>

subsection \<open>Telemetry as JSON\<close>

definition int_json :: "int \<Rightarrow> json" where
  "int_json n = JNum (FormatInt n)"

text \<open>A nil slice is written \<open>null\<close>; \<open>isNil\<close> says whether an empty one is.\<close>

definition slice_json :: "bool \<Rightarrow> ('a \<Rightarrow> json) \<Rightarrow> 'a list \<Rightarrow> json" where
  "slice_json isNil f xs = (if xs = [] \<and> isNil then JNull else JArr (map f xs))"

definition omit_ptr :: "bytes \<Rightarrow> ('a \<Rightarrow> json) \<Rightarrow> 'a option \<Rightarrow> (bytes \<times> json) list" where
  "omit_ptr k f p = (case p of None \<Rightarrow> [] | Some x \<Rightarrow> [(k, f x)])"

text \<open>A map is written in the order of its keys.\<close>

definition map_json :: "(bytes \<times> json) list \<Rightarrow> json" where
  "map_json ms = JObj (sort_key fst ms)"

definition battery_json :: "BatteryMetrics \<Rightarrow> json" where
  "battery_json b = JObj
     ([(''present'', JBool (batPresent b)), (''status'', JStr (batStatus b)), (''dataAvailable'', JBool (batDataAvailable b)),
       (''designCapacity'', json_float (batDesignCapacity b)), (''fullChargeCapacity'', json_float (batFullChargeCapacity b)),
       (''capacityUnit'', JStr (batCapacityUnit b)), (''healthPercent'', json_float (batHealthPercent b))] @
      omit_ptr ''cycleCount'' int_json (batCycleCount b))"

definition volume_json :: "StorageVolume \<Rightarrow> json" where
  "volume_json v = JObj
     ([(''mountPoint'', JStr (svMountPoint v)), (''device'', JStr (svDevice v)), (''deviceType'', JStr (svDeviceType v))] @
      omit_string ''deviceTypeSource'' (svDeviceTypeSource v) @
      [(''removable'', JBool (svRemovable v)), (''fileSystem'', JStr (svFileSystem v)), (''options'', JStr (svOptions v)),
       (''totalBytes'', int_json (uint (svTotalBytes v))), (''usedBytes'', int_json (uint (svUsedBytes v))),
       (''freeBytes'', int_json (uint (svFreeBytes v))), (''usagePercent'', json_float (svUsagePercent v)),
       (''readBytesPerSec'', json_float (svReadBytesPerSec v)), (''writeBytesPerSec'', json_float (svWriteBytesPerSec v))] @
      omit_ptr ''temperatureC'' json_float (svTemperatureC v) @ omit_ptr ''healthPercent'' json_float (svHealthPercent v) @
      [(''healthStatus'', JStr (svHealthStatus v))] @
      omit_string ''healthSource'' (svHealthSource v) @ omit_string ''healthReason'' (svHealthReason v))"

text \<open>Which empty slices of the telemetry are nil.\<close>

record nil_slices =
  nlCores :: bool
  nlVolumes :: bool
  nlChannels :: bool

definition metrics_json :: "nil_slices \<Rightarrow> HardwareMetrics \<Rightarrow> json" where
  "metrics_json nl m = JObj
      ([(''gameModeEnabled'', JBool (GameModeEnabled m)), (''gameDetected'', JBool (GameDetected m)),
        (''gameProcessName'', JStr (GameProcessName m)),
        (''gameProcessPid'', int_json (uint (GameProcessPID m))), (''gameDetectedAt'', JStr (GameDetectedAt m)),
        (''gameSessionDurationSeconds'', int_json (GameSessionDurationSeconds m)),
        (''systemManufacturer'', JStr (SystemManufacturer m)), (''systemModel'', JStr (SystemModel m)),
        (''systemVersion'', JStr (SystemVersion m)), (''biosVendor'', JStr (BIOSVendor m)),
        (''biosVersion'', JStr (BIOSVersion m)), (''motherboardVendor'', JStr (MotherboardVendor m)),
        (''motherboardModel'', JStr (MotherboardModel m)),
        (''motherboardVersion'', JStr (MotherboardVersion m)), (''cpuManufacturer'', JStr (CPUManufacturer m)),
        (''cpuModel'', JStr (CPUModel m)), (''cpuArchitecture'', JStr (CPUArchitecture m)),
        (''cpuPhysicalCores'', int_json (CPUPhysicalCores m)), (''cpuThreads'', int_json (CPUThreads m)),
        (''gpuModel'', JStr (GPUModel m)), (''detectionSource'', JStr (DetectionSource m)),
        (''detectionStatus'', JStr (DetectionStatus m)), (''serialsExcluded'', JBool (SerialsExcluded m)),
        (''cpuUsage'', json_float (CPUUsage m)),
        (''cpuPerCoreUsage'', slice_json (nlCores nl) json_float (CPUPerCoreUsage m)),
        (''cpuCoreCount'', int_json (CPUCoreCount m)), (''cpuFrequencyMHz'', json_float (CPUFrequencyMHz m)),
        (''cpuTemperature'', json_float (CPUTemperature m))] @
       omit_string ''cpuTemperatureSource'' (CPUTemperatureSource m) @
       [(''gpuTemperature'', json_float (GPUTemperature m))] @
       omit_string ''gpuTemperatureSource'' (GPUTemperatureSource m) @
       [(''metricsCollectedAt'', JStr (MetricsCollectedAt m)), (''gpuUsage'', json_float (GPUUsage m)),
        (''gpuMemoryUsage'', json_float (GPUMemoryUsage m)),
        (''gpuPowerLimitWatts'', json_float (GPUPowerLimitWatts m)), (''gpuPState'', JStr (GPUPState m)),
        (''gpuEncoderUsage'', json_float (GPUEncoderUsage m)),
        (''gpuDecoderUsage'', json_float (GPUDecoderUsage m)), (''fanPercent'', json_float (FanPercent m))] @
       omit_string ''fanPercentSource'' (FanPercentSource m) @
       [(''fanRpm'', json_float (FanRPM m))] @
       omit_string ''fanRpmSource'' (FanRPMSource m) @
       [(''memoryUsage'', json_float (MemoryUsage m)),
        (''memoryTotalBytes'', int_json (uint (MemoryTotalBytes m))), (''diskUsage'', json_float (DiskUsage m)),
        (''diskTotalBytes'', int_json (uint (DiskTotalBytes m))),
        (''storageVolumes'', slice_json (nlVolumes nl) volume_json (StorageVolumes m)),
        (''powerWatts'', json_float (PowerWatts m)), (''voltage'', json_float (Voltage m)),
        (''uptimeSeconds'', int_json (uint (UptimeSeconds m))), (''platform'', JStr (Platform m)),
        (''gpuVendor'', JStr (GPUVendor m)), (''gpuName'', JStr (GPUName m)),
        (''gpuDriver'', JStr (GPUDriver m)), (''gpuDriverProvider'', JStr (GPUDriverProvider m)),
        (''gpuDriverVersion'', JStr (GPUDriverVersion m)), (''gpuDriverStatus'', JStr (GPUDriverStatus m)),
        (''gpuDriverSource'', JStr (GPUDriverSource m)), (''gpuDriverAction'', JStr (GPUDriverAction m)),
        (''gpuDriverReason'', JStr (GPUDriverReason m)),
        (''gpuMemoryUsedBytes'', int_json (uint (GPUMemoryUsedBytes m))),
        (''gpuMemoryTotalBytes'', int_json (uint (GPUMemoryTotalBytes m))),
        (''gpuCoreClockMHz'', json_float (GPUCoreClockMHz m)),
        (''gpuMemoryClockMHz'', json_float (GPUMemoryClockMHz m)), (''sensorSource'', JStr (SensorSource m)),
        (''fanControlSupported'', JBool (FanControlSupported m)),
        (''fanControlBackend'', JStr (FanControlBackend m)),
        (''fanChannels'', slice_json (nlChannels nl) channel_json (FanChannels m)),
        (''hardwareControlMode'', JStr (HardwareControlMode m)),
        (''thermalSafetyAvailable'', JBool (ThermalSafetyAvailable m)), (''battery'', battery_json (Battery m))])"

subsection \<open>Catalog, model file and diagnostics record\<close>

definition bridgeVersion :: bytes where
  "bridgeVersion = ''2.1.0''"

record HWControlService =
  hwName :: bytes
  hwVersion :: bytes
  hwRole :: bytes
  hwTrust :: bytes
  hwNetwork :: bool
  hwFailClosed :: bool

definition hwcontrolServices :: "HWControlService list" where
  "hwcontrolServices =
     [\<lparr>hwName = ''update'', hwVersion = ''1'', hwRole = ''release/update metadata and integrity verification'',
       hwTrust = ''unprivileged metadata'', hwNetwork = True, hwFailClosed = True\<rparr>,
      \<lparr>hwName = ''sensorhealth'', hwVersion = ''1'', hwRole = ''normalized sensor health and safety state'',
       hwTrust = ''hardware telemetry'', hwNetwork = False, hwFailClosed = True\<rparr>,
      \<lparr>hwName = ''diagnostics'', hwVersion = ''1'', hwRole = ''local crash/error/security diagnostics'',
       hwTrust = ''local event data'', hwNetwork = False, hwFailClosed = False\<rparr>,
      \<lparr>hwName = ''game'', hwVersion = ''1'', hwRole = ''Game Mode detection and profile state'',
       hwTrust = ''user/application state'', hwNetwork = False, hwFailClosed = True\<rparr>,
      \<lparr>hwName = ''security'', hwVersion = ''1'', hwRole = ''secondary security guardian and panic-state enforcement'',
       hwTrust = ''secondary security boundary'', hwNetwork = False, hwFailClosed = True\<rparr>,
      \<lparr>hwName = ''fetch-status'', hwVersion = ''1'', hwRole = ''decoy/canary integrity monitor'',
       hwTrust = ''untrusted touch signal'', hwNetwork = False, hwFailClosed = True\<rparr>]"

definition serviceCatalogSnapshot :: json where
  "serviceCatalogSnapshot = JArr (map (\<lambda>s. map_json
     [(''name'', JStr (hwName s)), (''version'', JStr (hwVersion s)), (''role'', JStr (hwRole s)),
      (''trust'', JStr (hwTrust s)), (''network'', JBool (hwNetwork s)), (''failClosed'', JBool (hwFailClosed s))])
     hwcontrolServices)"

text \<open>The model file: its size and its contents, if it can be inspected and read.\<close>

definition modelDigest :: "(bytes \<Rightarrow> bytes) \<Rightarrow> bytes res \<Rightarrow> bytes" where
  "modelDigest getenv contents =
     (if TrimSpace (getenv ''HWCONTROL_MODEL'') = [] then ''managed-by-gui''
      else case contents of Inl _ \<Rightarrow> ''unavailable'' | Inr data \<Rightarrow> hex_sha256 data)"

definition model_state :: "bytes \<Rightarrow> int res \<Rightarrow> bytes" where
  "model_state modelPath fileSize =
     (if modelPath = [] then ''managed-by-gui''
      else case fileSize of
             Inl _ \<Rightarrow> ''missing''
           | Inr n \<Rightarrow> if n \<le> 0 then ''invalid'' else ''present'')"

text \<open>Where events are recorded.\<close>

definition diagnosticRecordPath :: "(bytes \<Rightarrow> bytes) \<Rightarrow> bytes \<Rightarrow> bytes" where
  "diagnosticRecordPath getenv goos =
     (let configured = TrimSpace (getenv ''HWCONTROL_DIAGNOSTIC_LOG'') in
      if configured \<noteq> [] then configured
      else if goos = ''windows'' then
        winJoin [programData (getenv ''ProgramData''), ''HWControl'', ''diagnostics'', ''events.jsonl'']
      else if goos = ''darwin'' then
        JoinPath [''/Library'', ''Application Support'', ''HWControl'', ''diagnostics'', ''events.jsonl'']
      else ''/var/lib/hwcontrol/diagnostics/events.jsonl'')"

definition recordDiagnostic :: "bool \<Rightarrow> int \<Rightarrow> bytes \<Rightarrow> bytes \<Rightarrow> bytes \<Rightarrow> diagnostics \<Rightarrow> diagnostics" where
  "recordDiagnostic appendOk now path event detail d =
     \<lparr>dgEvents = dgEvents d + 1,
      dgLog = appendCrashRecord appendOk now path
        (sanitizeDiagnostic event @ '': '' @ sanitizeDiagnostic detail) (dgLog d)\<rparr>"

definition diagnosticServiceSnapshot :: "diagnostics \<Rightarrow> json" where
  "diagnosticServiceSnapshot d = map_json [(''eventCount'', int_json (uint (dgEvents d))), (''localOnly'', JBool True)]"

subsection \<open>The update check\<close>

record UpdateServiceStatus =
  usCurrentVersion :: bytes
  usLatestVersion :: bytes
  usUpdateAvailable :: bool
  usChecked :: bool
  usLocalOnly :: bool
  usSource :: bytes
  usError :: bytes

text \<open>What becomes of the request: it cannot be built, there is no response, or one with a status code and a body.\<close>

datatype http_reply = HNoRequest | HNoResponse | HReply int bytes

definition release_fields :: "bytes fields" where
  "release_fields = [(''tag_name'', \<lambda>v s. elem_str s v)]"

definition checkForUpdates :: "http_reply \<Rightarrow> UpdateServiceStatus" where
  "checkForUpdates reply =
     (let s = \<lparr>usCurrentVersion = bridgeVersion, usLatestVersion = [], usUpdateAvailable = False, usChecked = False,
               usLocalOnly = False, usSource = ''github-releases'', usError = []\<rparr> in
      case reply of
        HNoRequest \<Rightarrow> s\<lparr>usError := ''create update request failed''\<rparr>
      | HNoResponse \<Rightarrow> s\<lparr>usError := ''update metadata unavailable''\<rparr>
      | HReply status body \<Rightarrow>
          if status \<noteq> 200 then s\<lparr>usError := ''update metadata returned HTTP '' @ FormatInt status\<rparr>
          else (case Option.bind (first_value body) (elem_struct False release_fields []) of
                  None \<Rightarrow> s\<lparr>usError := ''invalid update metadata''\<rparr>
                | Some tag \<Rightarrow>
                    (let latest = TrimSpace (TrimPrefix tag ''v'') in
                     s\<lparr>usChecked := True, usLatestVersion := latest,
                       usUpdateAvailable := (latest \<noteq> [] \<and> latest \<noteq> bridgeVersion)\<rparr>)))"

definition update_json :: "UpdateServiceStatus \<Rightarrow> json" where
  "update_json s = JObj
     ([(''currentVersion'', JStr (usCurrentVersion s))] @ omit_string ''latestVersion'' (usLatestVersion s) @
      [(''updateAvailable'', JBool (usUpdateAvailable s)), (''checked'', JBool (usChecked s)),
       (''localOnly'', JBool (usLocalOnly s)), (''source'', JStr (usSource s))] @
      omit_string ''error'' (usError s))"

subsection \<open>Health reports\<close>

definition capability_json :: "HardwareCapability \<Rightarrow> json" where
  "capability_json c = JObj
     ([(''available'', JBool (hcAvailable c)), (''backend'', JStr (hcBackend c))] @ omit_string ''reason'' (hcReason c))"

definition capabilities_json :: "(bytes \<times> HardwareCapability) list \<Rightarrow> json" where
  "capabilities_json cs = map_json (map (\<lambda>(k, c). (k, capability_json c)) cs)"

definition anomaly_json :: "HardwareAnomaly \<Rightarrow> json" where
  "anomaly_json a = JObj [(''code'', JStr (haCode a)), (''severity'', JStr (haSeverity a)), (''message'', JStr (haMessage a))]"

record snap_env =
  snEvaluated :: bool
  snHealthy :: bool
  snTargets :: int
  snGetenv :: "bytes \<Rightarrow> bytes"
  snGOOS :: bytes
  snGOARCH :: bytes
  snGoVersion :: bytes
  snModelSize :: "int res"
  snModelData :: "bytes res"
  snListen :: listen_env
  snSec :: sec_state
  snPanicFile :: "bytes option"
  snNil :: nil_slices
  snReply :: http_reply

record HealthSnapshot =
  hsStatus :: bytes
  hsSafetyState :: bytes
  hsRecoveryAction :: bytes
  hsChecks :: "(bytes \<times> bytes) list"
  hsWarnings :: "bytes list"
  hsAnomalies :: "HardwareAnomaly list"
  hsCapabilities :: "(bytes \<times> HardwareCapability) list"
  hsBridgeVersion :: bytes
  hsPlatform :: bytes
  hsArchitecture :: bytes
  hsLocalOnly :: bool
  hsHardwareControl :: bytes
  hsSensorSource :: bytes
  hsCPUTemperatureSource :: bytes
  hsGPUTemperatureSource :: bytes
  hsMetricsCollectedAt :: bytes
  hsDetectionStatus :: bytes
  hsIdentityAvailable :: bool
  hsStorage :: "StorageVolume list"

definition identity_available :: "HardwareHealthEvaluation \<Rightarrow> bool" where
  "identity_available e = (case map_of (heCapabilities e) ''hardwareIdentity'' of Some c \<Rightarrow> hcAvailable c | None \<Rightarrow> False)"

text \<open>One check: the entry is changed if the condition holds, and a warning is added otherwise.\<close>

definition check_step ::
  "bytes \<Rightarrow> bool \<Rightarrow> bytes \<Rightarrow> bytes \<Rightarrow> (bytes \<times> bytes) list \<times> bytes list \<Rightarrow> (bytes \<times> bytes) list \<times> bytes list" where
  "check_step k ok good warning = (\<lambda>(checks, warnings).
     if ok then (map (\<lambda>(k', x). (k', if k' = k then good else x)) checks, warnings) else (checks, warnings @ [warning]))"

definition check_table :: "bool \<Rightarrow> bool \<Rightarrow> bool \<Rightarrow> bool \<Rightarrow> (bytes \<times> bytes) list \<times> bytes list" where
  "check_table control identity sensors integrity =
     check_step ''runtimeIntegrity'' integrity ''ok'' ''runtime integrity verification failed; trusted repair is required''
      (check_step ''sensors'' sensors ''ok'' ''no dedicated sensor source is currently available''
      (check_step ''hardwareIdentity'' identity ''ok'' ''hardware identity detection is unavailable''
      (check_step ''hardwareControl'' control ''enabled'' ''hardware control backend is unavailable''
        ([(''authentication'', ''ok''), (''localTransport'', ''ok''), (''hardwareControl'', ''monitor-only''),
          (''hardwareIdentity'', ''unavailable''), (''sensors'', ''unavailable''), (''runtimeIntegrity'', ''unhealthy'')], []))))"

definition health_checks :: "bool \<Rightarrow> HardwareHealthEvaluation \<Rightarrow> HardwareMetrics \<Rightarrow> (bytes \<times> bytes) list \<times> bytes list" where
  "health_checks healthy evaluation m =
     check_table (hasValidatedFanControl m) (identity_available evaluation) (TrimSpace (SensorSource m) \<noteq> []) healthy"

definition healthSnapshot :: "snap_env \<Rightarrow> HardwareMetrics \<Rightarrow> HealthSnapshot" where
  "healthSnapshot env m =
     (let evaluation = evaluateHardwareHealth (snEvaluated env) m;
          (checks, warnings) = health_checks (snHealthy env) evaluation m
      in \<lparr>hsStatus = heStatus evaluation, hsSafetyState = heSafetyState evaluation,
          hsRecoveryAction = heRecoveryAction evaluation, hsChecks = checks, hsWarnings = warnings,
          hsAnomalies = heAnomalies evaluation, hsCapabilities = heCapabilities evaluation,
          hsBridgeVersion = bridgeVersion, hsPlatform = snGOOS env, hsArchitecture = snGOARCH env, hsLocalOnly = True,
          hsHardwareControl = HardwareControlMode m, hsSensorSource = SensorSource m,
          hsCPUTemperatureSource = CPUTemperatureSource m, hsGPUTemperatureSource = GPUTemperatureSource m,
          hsMetricsCollectedAt = MetricsCollectedAt m, hsDetectionStatus = DetectionStatus m,
          hsIdentityAvailable = identity_available evaluation, hsStorage = StorageVolumes m\<rparr>)"

definition omit_slice :: "bytes \<Rightarrow> ('a \<Rightarrow> json) \<Rightarrow> 'a list \<Rightarrow> (bytes \<times> json) list" where
  "omit_slice k f xs = (if xs = [] then [] else [(k, JArr (map f xs))])"

definition health_json :: "nil_slices \<Rightarrow> HealthSnapshot \<Rightarrow> json" where
  "health_json nl h = JObj
     ([(''status'', JStr (hsStatus h)), (''safetyState'', JStr (hsSafetyState h)),
       (''recoveryAction'', JStr (hsRecoveryAction h)), (''checks'', map_json (map (\<lambda>(k, x). (k, JStr x)) (hsChecks h)))] @
      omit_slice ''warnings'' JStr (hsWarnings h) @ omit_slice ''anomalies'' anomaly_json (hsAnomalies h) @
      [(''capabilities'', capabilities_json (hsCapabilities h)), (''bridgeVersion'', JStr (hsBridgeVersion h)),
       (''platform'', JStr (hsPlatform h)), (''architecture'', JStr (hsArchitecture h)), (''localOnly'', JBool (hsLocalOnly h)),
       (''hardwareControl'', JStr (hsHardwareControl h)), (''sensorSource'', JStr (hsSensorSource h))] @
      omit_string ''cpuTemperatureSource'' (hsCPUTemperatureSource h) @
      omit_string ''gpuTemperatureSource'' (hsGPUTemperatureSource h) @
      omit_string ''metricsCollectedAt'' (hsMetricsCollectedAt h) @
      [(''detectionStatus'', JStr (hsDetectionStatus h)), (''identityAvailable'', JBool (hsIdentityAvailable h)),
       (''storage'', slice_json (nlVolumes nl) volume_json (hsStorage h))])"

record SensorHealthService =
  snsStatus :: bytes
  snsSafetyState :: bytes
  snsThermalTelemetryValid :: bool
  snsCPUTemperature :: float64
  snsCPUTemperatureSource :: bytes
  snsGPUTemperature :: float64
  snsGPUTemperatureSource :: bytes
  snsMetricsCollectedAt :: bytes
  snsSensorSource :: bytes
  snsHardwareControl :: bytes
  snsAnomalies :: "HardwareAnomaly list"

definition sensorHealthSnapshot :: "snap_env \<Rightarrow> HardwareMetrics \<Rightarrow> SensorHealthService" where
  "sensorHealthSnapshot env m =
     (let health = evaluateHardwareHealth (snEvaluated env) m in
      \<lparr>snsStatus = heStatus health, snsSafetyState = heSafetyState health,
       snsThermalTelemetryValid = ThermalSafetyAvailable m, snsCPUTemperature = CPUTemperature m,
       snsCPUTemperatureSource = CPUTemperatureSource m, snsGPUTemperature = GPUTemperature m,
       snsGPUTemperatureSource = GPUTemperatureSource m, snsMetricsCollectedAt = MetricsCollectedAt m,
       snsSensorSource = SensorSource m, snsHardwareControl = HardwareControlMode m,
       snsAnomalies = heAnomalies health\<rparr>)"

definition sensor_health_json :: "SensorHealthService \<Rightarrow> json" where
  "sensor_health_json s = JObj
     ([(''status'', JStr (snsStatus s)), (''safetyState'', JStr (snsSafetyState s)),
       (''thermalTelemetryValid'', JBool (snsThermalTelemetryValid s))] @
      omit_float ''cpuTemperature'' (snsCPUTemperature s) @ omit_string ''cpuTemperatureSource'' (snsCPUTemperatureSource s) @
      omit_float ''gpuTemperature'' (snsGPUTemperature s) @ omit_string ''gpuTemperatureSource'' (snsGPUTemperatureSource s) @
      omit_string ''metricsCollectedAt'' (snsMetricsCollectedAt s) @
      [(''sensorSource'', JStr (snsSensorSource s)), (''hardwareControl'', JStr (snsHardwareControl s)),
       (''anomalies'', JArr (map anomaly_json (snsAnomalies s)))])"

subsection \<open>Diagnostics and security reports\<close>

definition diagnostic_game :: "GameModeState \<Rightarrow> json" where
  "diagnostic_game g = map_json
     [(''enabled'', JBool (gmEnabled g)), (''gameDetected'', JBool (gmGameDetected g)),
      (''processName'', JStr (gmProcessName g)), (''pid'', int_json (uint (gmPID g))),
      (''detectedAt'', JStr (gmDetectedAt g)), (''sessionDurationSeconds'', int_json (gmSessionDurationSeconds g)),
      (''optimizationMode'', JStr (gmOptimizationMode g))]"

definition diagnostic_identity :: "HardwareMetrics \<Rightarrow> json" where
  "diagnostic_identity m = map_json
     [(''systemManufacturer'', JStr (SystemManufacturer m)), (''systemModel'', JStr (SystemModel m)),
      (''systemVersion'', JStr (SystemVersion m)), (''biosVendor'', JStr (BIOSVendor m)), (''biosVersion'', JStr (BIOSVersion m)),
      (''motherboardVendor'', JStr (MotherboardVendor m)), (''motherboardModel'', JStr (MotherboardModel m)),
      (''motherboardVersion'', JStr (MotherboardVersion m)), (''cpuManufacturer'', JStr (CPUManufacturer m)),
      (''cpuModel'', JStr (CPUModel m)), (''cpuArchitecture'', JStr (CPUArchitecture m)),
      (''cpuPhysicalCores'', int_json (CPUPhysicalCores m)), (''cpuThreads'', int_json (CPUThreads m)),
      (''gpuVendor'', JStr (GPUVendor m)), (''gpuModel'', JStr (GPUModel m)), (''gpuDriver'', JStr (GPUDriver m)),
      (''gpuDriverVersion'', JStr (GPUDriverVersion m)), (''detectionSource'', JStr (DetectionSource m)),
      (''detectionStatus'', JStr (DetectionStatus m)), (''serialsExcluded'', JBool (SerialsExcluded m))]"

definition key_configured :: "(bytes \<Rightarrow> bytes) \<Rightarrow> bool" where
  "key_configured getenv =
     (TrimSpace (getenv ''HWCONTROL_KEY'') \<noteq> [] \<and> TrimSpace (getenv ''HWCONTROL_KEY'') \<noteq> ''replace-me'')"

definition diagnosticsSnapshot :: "snap_env \<Rightarrow> HardwareMetrics \<Rightarrow> GameModeState \<Rightarrow> json" where
  "diagnosticsSnapshot env m g =
     (let health = evaluateHardwareHealth (snEvaluated env) m;
          getenv = snGetenv env;
          modelPath = TrimSpace (getenv ''HWCONTROL_MODEL'')
      in map_json
        [(''bridgeVersion'', JStr bridgeVersion), (''platform'', JStr (snGOOS env)), (''architecture'', JStr (snGOARCH env)),
         (''goVersion'', JStr (snGoVersion env)),
         (''keyFileConfigured'', JBool (TrimSpace (getenv ''HWCONTROL_KEY_FILE'') \<noteq> [])),
         (''keyConfigured'', JBool (key_configured getenv)),
         (''bridgeIntegrityHealthy'', JBool (snHealthy env)),
         (''bridgeIntegrityMonitor'', JBool (\<not> key_configured getenv)),
         (''bridgeIntegrityTargets'', int_json (snTargets env)),
         (''modelPathConfigured'', JBool (modelPath \<noteq> [])),
         (''modelState'', JStr (model_state modelPath (snModelSize env))),
         (''modelSha256'', JStr (modelDigest getenv (snModelData env))),
         (''sensorSource'', JStr (SensorSource m)), (''gpuVendor'', JStr (GPUVendor m)), (''gpuDriver'', JStr (GPUDriver m)),
         (''gpuDriverStatus'', JStr (GPUDriverStatus m)), (''hardwareControl'', JBool (hasValidatedFanControl m)),
         (''fanControlBackend'', JStr (FanControlBackend m)), (''hardwareControlMode'', JStr (HardwareControlMode m)),
         (''fanChannels'', slice_json (nlChannels (snNil env)) channel_json (FanChannels m)),
         (''thermalSafetyAvailable'', JBool (ThermalSafetyAvailable m)), (''localOnly'', JBool True),
         (''listenAddress'', JStr (bridgeEndpoint (snListen env))),
         (''uptimeSeconds'', int_json (uint (UptimeSeconds m))), (''healthStatus'', JStr (heStatus health)),
         (''safetyState'', JStr (heSafetyState health)), (''recoveryAction'', JStr (heRecoveryAction health)),
         (''hardwareCapabilities'', capabilities_json (heCapabilities health)),
         (''hardwareAnomalies'', JArr (map anomaly_json (heAnomalies health))),
         (''services'', serviceCatalogSnapshot), (''fetchStatus'', fetchStatusSnapshot (snSec env)),
         (''diagnosticService'', diagnosticServiceSnapshot (ssDiag (snSec env))),
         (''panicMode'', JBool (panicModeActive (snPanicFile env))),
         (''gameMode'', diagnostic_game g), (''hardwareIdentity'', diagnostic_identity m)])"

text \<open>The answer to \<open>Get Security\<close>.\<close>

definition security_report :: "snap_env \<Rightarrow> json" where
  "security_report env = map_json
     [(''hmac'', JBool True), (''bridgeIntegrity'', JBool (snHealthy env)),
      (''modelSha256'', JStr (modelDigest (snGetenv env) (snModelData env))),
      (''keyFileConfigured'', JBool (TrimSpace (snGetenv env ''HWCONTROL_KEY_FILE'') \<noteq> [])),
      (''panicMode'', JBool (panicModeActive (snPanicFile env))), (''services'', serviceCatalogSnapshot)]"

definition go_render :: "snap_env \<Rightarrow> render" where
  "go_render env =
     \<lparr>rdMetrics = metrics_json (snNil env),
      rdSensorHealth = (\<lambda>m. sensor_health_json (sensorHealthSnapshot env m)),
      rdHealth = (\<lambda>m. health_json (snNil env) (healthSnapshot env m)),
      rdDiagnostics = diagnosticsSnapshot env,
      rdSecurity = security_report env,
      rdUpdate = update_json (checkForUpdates (snReply env))\<rparr>"

subsection \<open>Values that can be written\<close>

fun supported :: "json \<Rightarrow> bool" where
  "supported (JArr vs) = list_all supported vs"
| "supported (JObj ms) = list_all (\<lambda>(k, v). supported v) ms"
| "supported (JUnsupported t) = False"
| "supported _ = True"

lemma res_all_iff: "(\<exists>ys. res_all rs = Inr ys) \<longleftrightarrow> list_all (\<lambda>r. \<exists>y. r = Inr y) rs"
  by (induction rs) (auto simp: rbind_Inr)

lemma encode_supported: "(\<exists>x. json_encode j = Inr x) \<longleftrightarrow> supported j"
proof (induction j rule: json_encode.induct)
  case (5 vs)
  have "(\<exists>x. json_encode (JArr vs) = Inr x) \<longleftrightarrow> (\<exists>ys. res_all (map json_encode vs) = Inr ys)" by (auto simp: rbind_Inr)
  with 5 show ?case by (auto simp: res_all_iff list_all_iff)
next
  case (6 ms)
  let ?f = "\<lambda>(k, v). rbind (json_encode v) (\<lambda>e. Inr (quote k @ '':'' @ e))"
  have "(\<exists>x. json_encode (JObj ms) = Inr x) \<longleftrightarrow> (\<exists>ys. res_all (map ?f ms) = Inr ys)" by (auto simp: rbind_Inr)
  also have "\<dots> \<longleftrightarrow> list_all (\<lambda>(k, v). \<exists>x. json_encode v = Inr x) ms"
    by (auto simp: res_all_iff list_all_iff rbind_Inr split: prod.splits)
  also have "\<dots> \<longleftrightarrow> supported (JObj ms)"
  proof -
    have "(\<exists>x. json_encode v = Inr x) = supported v" if "(k, v) \<in> set ms" for k v using 6 [OF that] by simp
    then show ?thesis by (force simp: list_all_iff)
  qed
  finally show ?case .
qed simp_all

lemma supported_float [simp]: "supported (json_float x) \<longleftrightarrow> is_fin x"
  by (cases x) (auto simp: json_float_def)

lemma supported_int [simp]: "supported (int_json n)"
  by (simp add: int_json_def)

lemma supported_slice [simp]: "supported (slice_json isNil f xs) \<longleftrightarrow> list_all (\<lambda>x. supported (f x)) xs"
  by (auto simp: slice_json_def list_all_iff)

lemma supported_map [simp]: "supported (map_json ms) \<longleftrightarrow> list_all (\<lambda>(k, v). supported v) ms"
  by (simp add: map_json_def list_all_iff)

lemma feq_zero_fin: "feq x (Fin 0) \<Longrightarrow> is_fin x"
  by (cases x) (simp_all add: feq_def split: if_splits)

lemma supported_entries [simp]:
  "list_all (\<lambda>(k, v). supported v) (map (\<lambda>(k, x). (k, f x)) xs) \<longleftrightarrow> list_all (\<lambda>(k, x). supported (f x)) xs"
  "list_all (\<lambda>v. supported v) (map g ys) \<longleftrightarrow> list_all (\<lambda>y. supported (g y)) ys"
  by (auto simp: list_all_iff)

lemma list_all_always [simp]: "list_all (\<lambda>x. True) xs" "list_all (\<lambda>(k, x). True) ys"
  by (auto simp: list_all_iff)

lemma supported_omit [simp]:
  "list_all (\<lambda>(k, v). supported v) (omit_string k s)"
  "list_all (\<lambda>(k, v). supported v) (omit_float k x) \<longleftrightarrow> is_fin x"
  "list_all (\<lambda>(k, v). supported v) (omit_ptr k f p) \<longleftrightarrow> list_all (\<lambda>y. supported (f y)) (case p of None \<Rightarrow> [] | Some y \<Rightarrow> [y])"
  "list_all (\<lambda>(k, v). supported v) (omit_slice k f xs) \<longleftrightarrow> list_all (\<lambda>y. supported (f y)) xs"
  by (auto simp: omit_string_def omit_float_def omit_ptr_def omit_slice_def list_all_iff feq_zero_fin split: option.splits)

definition ptr_floats :: "float64 option \<Rightarrow> float64 list" where
  "ptr_floats p = (case p of None \<Rightarrow> [] | Some x \<Rightarrow> [x])"

definition battery_floats :: "BatteryMetrics \<Rightarrow> float64 list" where
  "battery_floats b = [batDesignCapacity b, batFullChargeCapacity b, batHealthPercent b]"

definition volume_floats :: "StorageVolume \<Rightarrow> float64 list" where
  "volume_floats v = [svUsagePercent v, svReadBytesPerSec v, svWriteBytesPerSec v] @
     ptr_floats (svTemperatureC v) @ ptr_floats (svHealthPercent v)"

definition channel_floats :: "FanChannel \<Rightarrow> float64 list" where
  "channel_floats ch = [chFanRPM ch, chFanPercent ch]"

definition metrics_floats :: "HardwareMetrics \<Rightarrow> float64 list" where
  "metrics_floats m =
     [CPUUsage m, CPUFrequencyMHz m, CPUTemperature m, GPUTemperature m, GPUUsage m, GPUMemoryUsage m,
      GPUPowerLimitWatts m, GPUEncoderUsage m, GPUDecoderUsage m, FanPercent m, FanRPM m, MemoryUsage m,
      DiskUsage m, PowerWatts m, Voltage m, GPUCoreClockMHz m, GPUMemoryClockMHz m] @
     CPUPerCoreUsage m @ concat (map volume_floats (StorageVolumes m)) @ concat (map channel_floats (FanChannels m)) @
     battery_floats (Battery m)"

lemma supported_battery [simp]: "supported (battery_json b) \<longleftrightarrow> list_all is_fin (battery_floats b)"
  by (simp add: battery_json_def battery_floats_def split: option.split)

lemma supported_volume [simp]: "supported (volume_json v) \<longleftrightarrow> list_all is_fin (volume_floats v)"
  by (simp add: volume_json_def volume_floats_def ptr_floats_def)

lemma supported_channel [simp]: "supported (channel_json ch) \<longleftrightarrow> list_all is_fin (channel_floats ch)"
  by (simp add: channel_json_def channel_floats_def)

lemma list_all_concat_floats: "list_all is_fin (concat (map f xs)) \<longleftrightarrow> list_all (\<lambda>x. list_all is_fin (f x)) xs"
  by (induction xs) simp_all

lemma supported_metrics: "supported (metrics_json nl m) \<longleftrightarrow> list_all is_fin (metrics_floats m)"
  unfolding metrics_json_def metrics_floats_def
  by (simp add: list_all_concat_floats conj_ac)

lemma supported_anomalies [simp]: "supported (anomaly_json a)"
  by (simp add: anomaly_json_def)

lemma supported_capabilities [simp]: "supported (capabilities_json cs)"
  by (simp add: capabilities_json_def capability_json_def)

lemma supported_health:
  "supported (health_json nl h) \<longleftrightarrow> list_all is_fin (concat (map volume_floats (hsStorage h)))"
  by (simp add: health_json_def list_all_concat_floats)

lemma supported_sensor_health:
  "supported (sensor_health_json s) \<longleftrightarrow> is_fin (snsCPUTemperature s) \<and> is_fin (snsGPUTemperature s)"
  by (simp add: sensor_health_json_def)

lemma supported_update: "supported (update_json s)"
  by (simp add: update_json_def)

lemma supported_catalog: "supported serviceCatalogSnapshot"
  by (simp add: serviceCatalogSnapshot_def)

lemma supported_security: "supported (security_report env)"
  by (simp add: security_report_def supported_catalog)

lemma supported_diagnostics:
  "supported (diagnosticsSnapshot env m g) \<longleftrightarrow> list_all is_fin (concat (map channel_floats (FanChannels m)))"
  by (simp add: diagnosticsSnapshot_def Let_def supported_catalog list_all_concat_floats diagnostic_game_def
      diagnostic_identity_def diagnosticServiceSnapshot_def fetchStatusSnapshot_def)

lemma send_answer:
  "(send secret env nonce (success msg data) \<noteq> None) \<longleftrightarrow> secret \<noteq> [] \<and> rqWriteOk env \<and> supported data"
  unfolding encode_supported [symmetric]
  by (auto simp: send_def encodeResponse_def signResponse_def responsePayload_def success_def answer_def Let_def rbind_def
      split: sum.splits if_splits)


subsection \<open>Health reports\<close>

text \<open>The table of checks, for each of the sixteen outcomes of the four conditions.\<close>

definition table_ok :: "bool \<Rightarrow> bool \<Rightarrow> bool \<Rightarrow> bool \<Rightarrow> bool" where
  "table_ok control identity sensors integrity =
     (case check_table control identity sensors integrity of (checks, warnings) \<Rightarrow>
        map_of checks ''runtimeIntegrity'' = Some (if integrity then ''ok'' else ''unhealthy'') \<and>
        map_of checks ''hardwareControl'' = Some (if control then ''enabled'' else ''monitor-only'') \<and>
        map_of checks ''hardwareIdentity'' = Some (if identity then ''ok'' else ''unavailable'') \<and>
        map_of checks ''sensors'' = Some (if sensors then ''ok'' else ''unavailable'') \<and>
        length warnings = length (filter (\<lambda>(k, x). x \<noteq> ''ok'' \<and> x \<noteq> ''enabled'') checks))"

lemma table_all:
  "list_all (\<lambda>a. list_all (\<lambda>b. list_all (\<lambda>c. list_all (\<lambda>d. table_ok a b c d) [False, True]) [False, True]) [False, True]) [False, True]"
  by code_simp

lemma check_table_ok: "table_ok a b c d"
  using table_all by (cases a; cases b; cases c; cases d) simp_all

lemma healthy_iff:
  fixes ok m
  defines "e \<equiv> evaluateHardwareHealth ok m"
  shows "(heStatus e = ''healthy'') = (ok \<and> heAnomalies e = [] \<and> identity_available e)"
proof -
  have caps: "heCapabilities e = health_capabilities m" and anoms: "heAnomalies e = [] \<longleftrightarrow> ok \<and> hardware_anomalies m = []"
    by (simp_all add: e_def evaluateHardwareHealth_def Let_def only_if_def)
  have "heStatus e = (if \<not> ok then ''unsafe'' else if hardware_anomalies m \<noteq> [] \<or> \<not> identity_available e then ''degraded'' else ''healthy'')"
  proof (cases ok)
    case True
    have w: "worst_severity (hardware_anomalies m) \<noteq> ''FAIL_SAFE''" by (simp add: worst_severity_def)
    show ?thesis
      using True w worst_SAFE [OF severities, of m] unfolding identity_available_def caps
      by (simp add: e_def evaluateHardwareHealth_def Let_def fold_severity only_if_def)
  next
    case False
    then show ?thesis by (simp add: e_def evaluateHardwareHealth_def Let_def)
  qed
  then show ?thesis using anoms by auto
qed

text \<open>A health report says what was evaluated: each check tells exactly whether its condition held, every
  failed check has its warning and nothing else is warned about, and the status is healthy
  exactly if the integrity flag was set at the evaluation, no anomaly was found and the hardware was identified.\<close>

theorem health_report_is_consistent:
  fixes env m
  defines "h \<equiv> healthSnapshot env m"
  shows "map_of (hsChecks h) ''runtimeIntegrity'' = Some (if snHealthy env then ''ok'' else ''unhealthy'') \<and>
    map_of (hsChecks h) ''hardwareControl'' = Some (if hasValidatedFanControl m then ''enabled'' else ''monitor-only'') \<and>
    map_of (hsChecks h) ''hardwareIdentity'' = Some (if hsIdentityAvailable h then ''ok'' else ''unavailable'') \<and>
    map_of (hsChecks h) ''sensors'' = Some (if TrimSpace (SensorSource m) \<noteq> [] then ''ok'' else ''unavailable'') \<and>
    length (hsWarnings h) = length (filter (\<lambda>(k, x). x \<noteq> ''ok'' \<and> x \<noteq> ''enabled'') (hsChecks h)) \<and>
    (hsStatus h = ''healthy'') = (snEvaluated env \<and> hsAnomalies h = [] \<and> hsIdentityAvailable h)"
proof -
  obtain checks warnings where c: "health_checks (snHealthy env) (evaluateHardwareHealth (snEvaluated env) m) m = (checks, warnings)"
    by (metis surj_pair)
  with check_table_ok have "table_ok (hasValidatedFanControl m) (identity_available (evaluateHardwareHealth (snEvaluated env) m))
    (TrimSpace (SensorSource m) \<noteq> []) (snHealthy env)" by blast
  with c healthy_iff [of "snEvaluated env" m] show ?thesis
    unfolding h_def healthSnapshot_def table_ok_def health_checks_def Let_def by (simp split: prod.splits)
qed

subsection \<open>The update check\<close>

text \<open>An update is offered only for a response that was received and understood, and any other version counts as one:
  a release older than the running version is offered too.\<close>

lemma update_needs_answer:
  "usUpdateAvailable (checkForUpdates reply) \<Longrightarrow>
     usChecked (checkForUpdates reply) \<and> usError (checkForUpdates reply) = [] \<and> (\<exists>body. reply = HReply 200 body)"
  by (auto simp: checkForUpdates_def Let_def split: http_reply.splits option.splits if_splits)

lemma any_other_release_is_offered:
  assumes "first_value body = Some (JObj [(''tag_name'', JStr (''v'' @ ver))])" and "TrimSpace ver = ver"
  shows "usLatestVersion (checkForUpdates (HReply 200 body)) = ver \<and>
    usUpdateAvailable (checkForUpdates (HReply 200 body)) = (ver \<noteq> [] \<and> ver \<noteq> ''2.1.0'')"
proof -
  have "fold_name ''tag_name'' = ''tag_name''" by code_simp
  moreover have "TrimPrefix (CHR ''v'' # ver) ''v'' = ver" using TrimPrefix_append [of "''v''" ver] by simp
  ultimately show ?thesis
    using assms by (simp add: checkForUpdates_def elem_struct_def release_fields_def elem_str_def Let_def bridgeVersion_def)
qed

end
