(* ===== verification/LocalAudit.thy ===== *)
theory LocalAudit
  imports Inventory Unmarshal JsonText Safety FanLinux SensorHistory
begin

text \<open>
  The local audit tool (\<open>security/local-audit/main.go\<close>): a manifest names files below a root
  directory and the SHA-256 digests they are expected to have.  The file system is a function
  from a path to what \<open>os.Lstat\<close> and \<open>os.ReadFile\<close> return for it, and stays the same while the
  tool runs; \<open>wd\<close> is the result of \<open>os.Getwd\<close>.  Paths follow Unix rules, where \<open>filepath.FromSlash\<close>
  is the identity and there are no volume names.  \<open>quoteGo\<close> stands for the \<open>%q\<close> formatting of a
  string, \<open>lowerU\<close> for the Unicode case mapping.  What the tool writes to the standard error
  stream is left out.

  Shown here: exactly when an entry passes, and what the exit status says of the whole manifest.
\<close>

subsection \<open>Data\<close>

record ManifestFile =
  mfPath :: bytes
  mfSHA256 :: bytes

record Result =
  rsPath :: bytes
  rsStatus :: bytes
  rsSHA256 :: bytes
  rsIssue :: bytes

definition fail :: "ManifestFile \<Rightarrow> bytes \<Rightarrow> bytes \<Rightarrow> Result" where
  "fail entry digest issue = \<lparr>rsPath = mfPath entry, rsStatus = ''FAIL'', rsSHA256 = digest, rsIssue = issue\<rparr>"

subsection \<open>Paths\<close>

definition filepath_Abs :: "bytes res \<Rightarrow> bytes \<Rightarrow> bytes res" where
  "filepath_Abs wd path = (if IsAbs path then Inr (Clean path) else rbind wd (\<lambda>w. Inr (JoinPath [w, path])))"

definition escapes :: "bytes \<Rightarrow> bool" where
  "escapes rel = (rel = ''..'' \<or> HasPrefix rel (''..'' @ [slash]))"

definition withinRoot :: "bytes res \<Rightarrow> bytes \<Rightarrow> bytes \<Rightarrow> bool" where
  "withinRoot wd rootDir target =
     (case filepath_Abs wd rootDir of
        Inl _ \<Rightarrow> False
      | Inr rootAbs \<Rightarrow>
          (case filepath_Abs wd target of
             Inl _ \<Rightarrow> False
           | Inr targetAbs \<Rightarrow>
               (case Rel rootAbs targetAbs of None \<Rightarrow> False | Some rel \<Rightarrow> \<not> escapes rel)))"

subsection \<open>Files\<close>

definition digestFile :: "file_view \<Rightarrow> bytes \<Rightarrow> bytes res" where
  "digestFile fs path =
     (case fst (fs path) of
        SMissing e \<Rightarrow> Inl e
      | SError e \<Rightarrow> Inl e
      | SInfo kind _ _ \<Rightarrow>
          if kind = KSymlink then Inl ''symlink is not accepted''
          else if kind \<noteq> KRegular then Inl ''target is not a regular file''
          else rbind (read_result (snd (fs path))) (\<lambda>data. Inr (hex_sha256 data)))"

text \<open>The loop over the components of the relative path.\<close>

fun walk_components :: "(bytes \<Rightarrow> bytes) \<Rightarrow> file_view \<Rightarrow> bytes \<Rightarrow> bytes list \<Rightarrow> gerr" where
  "walk_components quoteGo fs current [] = nil"
| "walk_components quoteGo fs current (part # parts) =
     (if part = [] \<or> part = ''.'' then walk_components quoteGo fs current parts
      else let next = JoinPath [current, part] in
        (case fst (fs next) of
           SMissing e \<Rightarrow> Err (''inspect path component '' @ quoteGo part @ '': '' @ e)
         | SError e \<Rightarrow> Err (''inspect path component '' @ quoteGo part @ '': '' @ e)
         | SInfo kind _ _ \<Rightarrow>
             if kind = KSymlink then Err ''symlink path component is not accepted''
             else if parts \<noteq> [] \<and> kind \<noteq> KDir then Err ''non-directory path component''
             else walk_components quoteGo fs next parts))"

definition rejectSymlinkComponents :: "(bytes \<Rightarrow> bytes) \<Rightarrow> file_view \<Rightarrow> bytes \<Rightarrow> bytes \<Rightarrow> gerr" where
  "rejectSymlinkComponents quoteGo fs rootDir target =
     (case fst (fs rootDir) of
        SMissing e \<Rightarrow> Err (''inspect audit root: '' @ e)
      | SError e \<Rightarrow> Err (''inspect audit root: '' @ e)
      | SInfo kind _ _ \<Rightarrow>
          if kind = KSymlink \<or> kind \<noteq> KDir then Err ''audit root must be a real directory, not a symlink''
          else (case Rel rootDir target of
             None \<Rightarrow> Err ''invalid path relative to audit root''
           | Some rel \<Rightarrow>
               if rel = ''.'' \<or> escapes rel then Err ''invalid path relative to audit root''
               else walk_components quoteGo fs rootDir (Split rel slash)))"

text \<open>The comparison of a digest with the entry's expectation.\<close>

definition compare_digest :: "(bytes \<Rightarrow> bytes) \<Rightarrow> ManifestFile \<Rightarrow> bytes \<Rightarrow> Result" where
  "compare_digest lowerU entry digest =
     (let expected = ToLower lowerU (TrimSpace (mfSHA256 entry)) in
      if expected = [] then
        \<lparr>rsPath = mfPath entry, rsStatus = ''UNVERIFIED'', rsSHA256 = digest, rsIssue = ''expected SHA-256 is missing''\<rparr>
      else if length expected \<noteq> 64 then
        fail entry digest ''expected SHA-256 must contain 64 hexadecimal characters''
      else if hex_DecodeString expected = None then fail entry digest ''expected SHA-256 is not hexadecimal''
      else if digest \<noteq> expected then fail entry digest ''SHA-256 mismatch''
      else \<lparr>rsPath = mfPath entry, rsStatus = ''PASS'', rsSHA256 = digest, rsIssue = []\<rparr>)"

definition auditFile :: "(bytes \<Rightarrow> bytes) \<Rightarrow> (bytes \<Rightarrow> bytes) \<Rightarrow> bytes res \<Rightarrow> file_view \<Rightarrow> bytes \<Rightarrow> ManifestFile \<Rightarrow> Result" where
  "auditFile lowerU quoteGo wd fs rootDir entry =
     (if TrimSpace (mfPath entry) = [] then fail entry [] ''empty path''
      else (case filepath_Abs wd rootDir of
        Inl _ \<Rightarrow> fail entry [] ''invalid audit root''
      | Inr rootAbs \<Rightarrow>
          if IsAbs (mfPath entry) then fail entry [] ''absolute paths are not accepted''
          else let target = JoinPath [rootAbs, mfPath entry] in
            if \<not> withinRoot wd rootAbs target then fail entry [] ''path escapes audit root''
            else (case rejectSymlinkComponents quoteGo fs rootAbs target of
               Some e \<Rightarrow> fail entry [] e
             | None \<Rightarrow>
                 (case digestFile fs target of
                    Inl e \<Rightarrow> fail entry [] e
                  | Inr digest \<Rightarrow> compare_digest lowerU entry digest))))"

subsection \<open>The manifest\<close>

definition emptyEntry :: ManifestFile where
  "emptyEntry = \<lparr>mfPath = [], mfSHA256 = []\<rparr>"

definition entry_fields :: "ManifestFile fields" where
  "entry_fields =
     [(''path'', field mfPath (\<lambda>x. mfPath_update (\<lambda>_. x)) elem_str),
      (''sha256'', field mfSHA256 (\<lambda>x. mfSHA256_update (\<lambda>_. x)) elem_str)]"

definition manifest_fields :: "(ManifestFile list \<times> ManifestFile list option) fields" where
  "manifest_fields = [(''files'', \<lambda>v st. elem_list (elem_struct False entry_fields) emptyEntry st v)]"

definition decode_manifest :: "bytes \<Rightarrow> ManifestFile list option" where
  "decode_manifest data =
     (case json_decode data of
        None \<Rightarrow> None
      | Some v \<Rightarrow> map_option (\<lambda>(_, files). slice_of files) (elem_struct False manifest_fields ([], None) v))"

text \<open>\<open>invalid\<close> is the text of the decoding error.\<close>

definition loadManifest :: "bytes \<Rightarrow> fread \<Rightarrow> ManifestFile list res" where
  "loadManifest invalid f =
     rbind (read_result f) (\<lambda>data.
       (case decode_manifest data of
          None \<Rightarrow> Inl invalid
        | Some files \<Rightarrow> if files = [] then Inl ''manifest contains no files'' else Inr files))"

subsection \<open>The command\<close>

record audit_options =
  aoRoot :: bytes
  aoManifest :: bytes
  aoJSON :: bool
  aoAllowUnpinned :: bool

definition result_json :: "Result \<Rightarrow> json" where
  "result_json r = JObj ([(''path'', JStr (rsPath r)), (''status'', JStr (rsStatus r))] @
     omit_string ''sha256'' (rsSHA256 r) @ omit_string ''issue'' (rsIssue r))"

definition result_line :: "Result \<Rightarrow> bytes" where
  "result_line r = ''['' @ rsStatus r @ ''] '' @ rsPath r @
     (if rsSHA256 r \<noteq> [] then '' sha256='' @ rsSHA256 r else []) @
     (if rsIssue r \<noteq> [] then '' issue='' @ rsIssue r else []) @ [CHR 0x0A]"

fun audit_loop :: "(ManifestFile \<Rightarrow> Result) \<Rightarrow> bool \<Rightarrow> ManifestFile list \<Rightarrow> Result list \<Rightarrow> bool \<Rightarrow> Result list \<times> bool" where
  "audit_loop audit allow [] results failed = (results, failed)"
| "audit_loop audit allow (entry # entries) results failed =
     (let r = audit entry in
      audit_loop audit allow entries (results @ [r])
        (if rsStatus r = ''FAIL'' \<or> (rsStatus r = ''UNVERIFIED'' \<and> \<not> allow) then True else failed))"

text \<open>The exit status and the standard output.\<close>

definition audit_main ::
  "(bytes \<Rightarrow> bytes) \<Rightarrow> (bytes \<Rightarrow> bytes) \<Rightarrow> bytes res \<Rightarrow> file_view \<Rightarrow> bytes \<Rightarrow> audit_options \<Rightarrow> int \<times> bytes" where
  "audit_main lowerU quoteGo wd fs invalid opts =
     (if TrimSpace (aoManifest opts) = [] then (2, [])
      else (case filepath_Abs wd (aoRoot opts) of
        Inl _ \<Rightarrow> (2, [])
      | Inr rootAbs \<Rightarrow>
          (case loadManifest invalid (snd (fs (aoManifest opts))) of
             Inl _ \<Rightarrow> (2, [])
           | Inr files \<Rightarrow>
               (case audit_loop (auditFile lowerU quoteGo wd fs rootAbs) (aoAllowUnpinned opts) files [] False of
                  (results, failed) \<Rightarrow>
                    if aoJSON opts then
                      (case json_marshal_indent (JArr (map result_json results)) of
                         Inl _ \<Rightarrow> (2, [])
                       | Inr out \<Rightarrow> (if failed then 1 else 0, out @ [CHR 0x0A]))
                    else (if failed then 1 else 0, concat (map result_line results))))))"

subsection \<open>Paths below the root\<close>

lemma clean_step_append: "clean_step r st (xs @ ys) = clean_step r (rev (clean_step r st xs)) ys"
proof (induction xs arbitrary: st)
  case (Cons x xs)
  then show ?case by (cases st; cases r) simp_all
qed simp

lemma Split_concat: "Split (a @ sep # b) sep = Split a sep @ Split b sep"
  by (induction a) (auto split: list.split)

lemma JoinPath_two: "IsAbs a \<Longrightarrow> b \<noteq> [] \<Longrightarrow> JoinPath [a, b] = Clean (a @ slash # b)"
  by (auto simp: JoinPath_def Let_def IsAbs_def HasPrefix_def)

lemma IsAbs_append [simp]: "IsAbs a \<Longrightarrow> IsAbs (a @ b)"
  by (cases a) (simp_all add: IsAbs_def HasPrefix_def)

lemma clean_comps_append:
  "IsAbs a \<Longrightarrow> clean_comps (a @ slash # b) = clean_step True (rev (clean_comps a)) (Split b slash)"
  by (simp add: clean_comps_def Split_concat clean_step_append)

definition name_ok :: "bytes \<Rightarrow> bool" where
  "name_ok c = (comp_ok c \<and> c \<noteq> ''..'')"

lemma clean_names_ok: "IsAbs p \<Longrightarrow> list_all name_ok (clean_comps p)"
  using clean_comps_ok clean_comps_no_up by (fastforce simp: list_all_iff name_ok_def)

text \<open>The name of a file below a directory, from the components of the way to it.\<close>

definition below :: "bytes \<Rightarrow> bytes list \<Rightarrow> bytes" where
  "below base names = slash # Join (clean_comps base @ names) [slash]"

lemma below_Clean: "IsAbs p \<Longrightarrow> clean_comps p = clean_comps base @ names \<Longrightarrow> Clean p = below base names"
  by (simp add: below_def Clean_abs)

lemma clean_comps_below:
  assumes "IsAbs base" and "list_all name_ok names"
  shows "clean_comps (below base names) = clean_comps base @ names"
proof -
  let ?cs = "clean_comps base @ names"
  have ok: "\<forall>c \<in> set ?cs. comp_ok c \<and> c \<noteq> ''..''"
    using clean_names_ok [OF assms(1)] assms(2) by (auto simp: list_all_iff name_ok_def)
  then have "Split (Join ?cs [slash]) slash = (if ?cs = [] then [[]] else ?cs)"
    by (simp add: Split_Join comp_ok_def)
  then have "clean_comps (below base names) = clean_step True [] (if ?cs = [] then [[]] else ?cs)"
    by (simp add: below_def clean_comps_def)
  then show ?thesis using clean_step_plain [OF ok, of True "[]"] by simp
qed

lemma JoinPath_below:
  assumes "IsAbs base" and "list_all name_ok names" and "name_ok c"
  shows "JoinPath [below base names, c] = below base (names @ [c])"
proof -
  have c: "c \<noteq> []" "Split c slash = [c]" using assms(3) by (simp_all add: name_ok_def comp_ok_def Split_single)
  have abs: "IsAbs (below base names)" by (simp add: below_def)
  have "clean_comps (below base names @ slash # c) = clean_comps base @ names @ [c]"
    using assms(3) c clean_step_plain [of "[c]" True]
    by (simp add: clean_comps_append [OF abs] clean_comps_below [OF assms(1,2)] name_ok_def)
  then show ?thesis
    using JoinPath_two [OF abs c(1)] below_Clean [of "below base names @ slash # c" base "names @ [c]"] abs by simp
qed

subsection \<open>The relative path\<close>

lemma strip_common_prefix: "strip_common a (a @ n) = ([], n)"
  by (induction a) simp_all

lemma HasPrefixD: "HasPrefix s p \<Longrightarrow> \<exists>t. s = p @ t"
  by (metis HasPrefix_def append_take_drop_id)

lemma not_escapes:
  assumes "list_all name_ok names" and "names \<noteq> []"
  shows "\<not> escapes (Join names [slash])"
proof
  assume e: "escapes (Join names [slash])"
  have "\<exists>t. Join names [slash] = (''..'' @ [slash]) @ t" if "HasPrefix (Join names [slash]) (''..'' @ [slash])"
    using HasPrefixD [OF that] .
  with e have j: "Join names [slash] = ''..'' \<or> (\<exists>t. Join names [slash] = ''..'' @ slash # t)"
    unfolding escapes_def by fastforce
  have "hd (Split ''..'' slash) = ''..''" by simp
  moreover have "hd (Split (''..'' @ slash # t) slash) = ''..''" for t by simp
  ultimately have "hd (Split (Join names [slash]) slash) = ''..''" using j by metis
  moreover have "Split (Join names [slash]) slash = names"
    using assms by (intro Split_Join) (auto simp: list_all_iff name_ok_def comp_ok_def)
  ultimately show False using assms by (cases names) (simp_all add: name_ok_def)
qed

lemma Rel_below:
  assumes "IsAbs base" and "IsAbs p"
  shows "(case Rel base p of None \<Rightarrow> False | Some rel \<Rightarrow> rel \<noteq> ''.'' \<and> \<not> escapes rel) \<longleftrightarrow>
    (\<exists>names. names \<noteq> [] \<and> clean_comps p = clean_comps base @ names)" (is "?rel \<longleftrightarrow> ?below")
    and "clean_comps p = clean_comps base @ names \<Longrightarrow> names \<noteq> [] \<Longrightarrow> Rel base p = Some (Join names [slash])"
proof -
  have same: "Clean base = Clean p \<longleftrightarrow> clean_comps base = clean_comps p"
    using assms clean_comps_Clean by (metis Clean_abs)
  show rel: "Rel base p = Some (Join names [slash])" if "clean_comps p = clean_comps base @ names" "names \<noteq> []" for names
    using that assms by (simp add: Rel_def same strip_common_prefix)
  show "?rel \<longleftrightarrow> ?below"
  proof
    assume ?below
    then obtain names where n: "names \<noteq> []" "clean_comps p = clean_comps base @ names" by blast
    with clean_names_ok [OF assms(2)] have ok: "list_all name_ok names" by simp
    then have "Join names [slash] \<noteq> ''.''"
      using n(1) by (intro Join_dot) (auto simp: list_all_iff name_ok_def)
    with rel [OF n(2,1)] not_escapes [OF ok n(1)] show ?rel by simp
  next
    assume ?rel
    then obtain rel where r: "Rel base p = Some rel" "rel \<noteq> ''.''" "\<not> escapes rel"
      by (auto split: option.splits)
    obtain rb rt where st: "strip_common (clean_comps base) (clean_comps p) = (rb, rt)" by fastforce
    have join: "rel = Join (map (\<lambda>_. ''..'') rb @ rt) [slash]"
      using r(1,2) st assms by (auto simp: Rel_def split: if_splits)
    with Join_updirs [of rb rt] r(3) have "rb = []" by (auto simp: escapes_def)
    moreover obtain pre where "clean_comps base = pre @ rb" "clean_comps p = pre @ rt"
      using strip_common_append [OF st] by blast
    moreover from r(1,2) \<open>rb = []\<close> calculation have "rt \<noteq> []" by (auto simp: Rel_def same split: if_splits)
    ultimately show ?below by auto
  qed
qed

text \<open>A relative path that stays at the root itself or below it.\<close>

lemma withinRoot_below:
  assumes "IsAbs base" and "IsAbs p" and "names \<noteq> []" and "clean_comps p = clean_comps base @ names"
  shows "withinRoot wd base p"
proof -
  have "clean_comps (Clean p) = clean_comps (Clean base) @ names"
    using assms by (simp add: clean_comps_Clean)
  with assms(1-3) Rel_below(1) [of "Clean base" "Clean p"] show ?thesis
    by (auto simp: withinRoot_def filepath_Abs_def split: option.splits)
qed

subsection \<open>The walk to a file\<close>

definition kind_at :: "file_view \<Rightarrow> bytes \<Rightarrow> fkind option" where
  "kind_at fs p = (case fst (fs p) of SInfo kind _ _ \<Rightarrow> Some kind | _ \<Rightarrow> None)"

text \<open>Every directory on the way is a real directory, and the last component is no symbolic link.\<close>

fun real_way :: "file_view \<Rightarrow> bytes \<Rightarrow> bytes list \<Rightarrow> bytes list \<Rightarrow> bool" where
  "real_way fs base way [] = True"
| "real_way fs base way (c # cs) =
     ((case kind_at fs (below base (way @ [c])) of
         None \<Rightarrow> False
       | Some kind \<Rightarrow> kind \<noteq> KSymlink \<and> (cs = [] \<or> kind = KDir)) \<and> real_way fs base (way @ [c]) cs)"

lemma walk_components_nil:
  assumes "IsAbs base" and "list_all name_ok way" and "list_all name_ok names"
  shows "walk_components q fs (below base way) names = None \<longleftrightarrow> real_way fs base way names"
  using assms(2,3)
proof (induction names arbitrary: way)
  case (Cons c cs)
  have "c \<noteq> []" "c \<noteq> ''.''" using Cons.prems by (simp_all add: name_ok_def comp_ok_def)
  moreover have "JoinPath [below base way, c] = below base (way @ [c])"
    using Cons.prems by (intro JoinPath_below [OF assms(1)]) simp_all
  moreover have "walk_components q fs (below base (way @ [c])) cs = None \<longleftrightarrow> real_way fs base (way @ [c]) cs"
    using Cons by simp
  ultimately show ?case by (auto simp: kind_at_def Let_def split: fstat.splits)
qed simp

lemma reject_nil:
  assumes "IsAbs base" and "Clean base = base" and "IsAbs p" and "Clean p = p"
  shows "rejectSymlinkComponents q fs base p = None \<longleftrightarrow>
    kind_at fs base = Some KDir \<and>
    (\<exists>names. names \<noteq> [] \<and> clean_comps p = clean_comps base @ names \<and> real_way fs base [] names)"
proof -
  have start: "below base [] = base" using assms(1,2) Clean_abs [of base] by (simp add: below_def)
  have walk: "walk_components q fs base (Split (Join names [slash]) slash) = None \<longleftrightarrow> real_way fs base [] names"
    if "names \<noteq> []" "clean_comps p = clean_comps base @ names" for names
  proof -
    have ok: "list_all name_ok names" using clean_names_ok [OF assms(3)] that(2) by simp
    then have "Split (Join names [slash]) slash = names"
      using that(1) by (intro Split_Join) (auto simp: list_all_iff name_ok_def comp_ok_def)
    with walk_components_nil [OF assms(1) _ ok, of "[]" q fs] start show ?thesis by simp
  qed
  show ?thesis
  proof (cases "\<exists>names. names \<noteq> [] \<and> clean_comps p = clean_comps base @ names")
    case True
    then obtain names where n: "names \<noteq> []" "clean_comps p = clean_comps base @ names" by blast
    from Rel_below(1) [OF assms(1,3)] Rel_below(2) [OF assms(1,3) n(2,1)] True
    have rel: "Rel base p = Some (Join names [slash])" "Join names [slash] \<noteq> ''.''" "\<not> escapes (Join names [slash])"
      by auto
    show ?thesis using walk [OF n] n
      by (auto simp: rejectSymlinkComponents_def rel kind_at_def split: fstat.splits)
  next
    case False
    with Rel_below(1) [OF assms(1,3)] show ?thesis
      by (auto simp: rejectSymlinkComponents_def kind_at_def split: fstat.splits option.splits)
  qed
qed

subsection \<open>When an entry passes\<close>

lemma status_names [simp]: "rsStatus (fail e d i) = ''FAIL''"
  by (simp add: fail_def)

lemma compare_digest_pass:
  "rsStatus (compare_digest lowerU e (hex_sha256 data)) = ''PASS'' \<longleftrightarrow>
   ToLower lowerU (TrimSpace (mfSHA256 e)) = hex_sha256 data"
proof -
  have "hex_sha256 data \<noteq> []" "hex_DecodeString (hex_sha256 data) \<noteq> None"
    by (simp_all add: hex_sha256_def flip: length_greater_0_conv)
  then show ?thesis
    by (cases "ToLower lowerU (TrimSpace (mfSHA256 e)) = hex_sha256 data") (auto simp: compare_digest_def Let_def)
qed

lemma digestFile_pass:
  "(case digestFile fs p of Inl _ \<Rightarrow> False | Inr d \<Rightarrow> rsStatus (compare_digest lowerU e d) = ''PASS'') \<longleftrightarrow>
   kind_at fs p = Some KRegular \<and>
   (\<exists>data. snd (fs p) = RData data \<and> ToLower lowerU (TrimSpace (mfSHA256 e)) = hex_sha256 data)"
  by (cases "snd (fs p)") (auto simp: digestFile_def kind_at_def read_result_def compare_digest_pass split: fstat.splits)

text \<open>What an entry has to satisfy: the names lead from the root through real directories to a
  regular file, whose contents have the digest.\<close>

definition pinned :: "(bytes \<Rightarrow> bytes) \<Rightarrow> file_view \<Rightarrow> bytes \<Rightarrow> bytes list \<Rightarrow> bytes \<Rightarrow> bool" where
  "pinned lowerU fs base names digest =
     (names \<noteq> [] \<and> kind_at fs base = Some KDir \<and> real_way fs base [] names \<and>
      kind_at fs (below base names) = Some KRegular \<and>
      (case snd (fs (below base names)) of
         RData data \<Rightarrow> ToLower lowerU (TrimSpace digest) = hex_sha256 data
       | _ \<Rightarrow> False))"

lemma target_abs:
  assumes "IsAbs base" and "path \<noteq> []"
  shows "IsAbs (JoinPath [base, path])" "Clean (JoinPath [base, path]) = JoinPath [base, path]"
    "clean_comps (JoinPath [base, path]) = clean_comps (base @ slash # path)"
proof -
  have eq: "JoinPath [base, path] = Clean (base @ slash # path)" and abs: "IsAbs (base @ slash # path)"
    using assms by (simp_all add: JoinPath_two)
  show "IsAbs (JoinPath [base, path])" using abs by (simp add: eq)
  show comps: "clean_comps (JoinPath [base, path]) = clean_comps (base @ slash # path)"
    using abs by (simp add: eq clean_comps_Clean)
  show "Clean (JoinPath [base, path]) = JoinPath [base, path]"
    using Clean_abs [of "JoinPath [base, path]"] Clean_abs [OF abs] abs comps by (simp add: eq)
qed

lemma audit_pass:
  assumes base: "filepath_Abs wd rootDir = Inr base" "IsAbs base" "Clean base = base"
    and path: "TrimSpace (mfPath e) \<noteq> []" "\<not> IsAbs (mfPath e)"
  defines "target \<equiv> JoinPath [base, mfPath e]"
  shows "rsStatus (auditFile lowerU quoteGo wd fs rootDir e) = ''PASS'' \<longleftrightarrow>
    (\<exists>names. clean_comps target = clean_comps base @ names \<and> pinned lowerU fs base names (mfSHA256 e))"
proof -
  have "mfPath e \<noteq> []" using path(1) TrimSpace_Nil by auto
  note t = target_abs [OF base(2) this, folded target_def]
  note r = reject_nil [OF base(2,3) t(1,2), of quoteGo fs]
  have within: "withinRoot wd base target" if "rejectSymlinkComponents quoteGo fs base target = None"
    using that r withinRoot_below [OF base(2) t(1)] by blast
  have named: "target = below base names" if "clean_comps target = clean_comps base @ names" for names
    using below_Clean [OF t(1) that] t(2) by simp
  have "rsStatus (auditFile lowerU quoteGo wd fs rootDir e) = ''PASS'' \<longleftrightarrow>
    rejectSymlinkComponents quoteGo fs base target = None \<and> kind_at fs target = Some KRegular \<and>
    (\<exists>data. snd (fs target) = RData data \<and> ToLower lowerU (TrimSpace (mfSHA256 e)) = hex_sha256 data)"
  proof (cases "rejectSymlinkComponents quoteGo fs base target")
    case None
    have "rsStatus (auditFile lowerU quoteGo wd fs rootDir e) = ''PASS'' \<longleftrightarrow>
      (case digestFile fs target of Inl _ \<Rightarrow> False | Inr d \<Rightarrow> rsStatus (compare_digest lowerU e d) = ''PASS'')"
      using base path within [OF None] None by (simp add: auditFile_def Let_def flip: target_def split: sum.split)
    with None show ?thesis by (simp add: digestFile_pass)
  next
    case (Some x)
    with base path show ?thesis by (simp add: auditFile_def Let_def flip: target_def)
  qed
  moreover have "pinned lowerU fs base names (mfSHA256 e) \<longleftrightarrow>
      names \<noteq> [] \<and> kind_at fs base = Some KDir \<and> real_way fs base [] names \<and> kind_at fs target = Some KRegular \<and>
      (\<exists>data. snd (fs target) = RData data \<and> ToLower lowerU (TrimSpace (mfSHA256 e)) = hex_sha256 data)"
    if "clean_comps target = clean_comps base @ names" for names
    unfolding pinned_def named [OF that, symmetric] by (cases "snd (fs target)") auto
  ultimately show ?thesis unfolding r by blast
qed

lemma audit_path: "rsStatus (auditFile lowerU quoteGo wd fs rootDir e) = ''PASS'' \<Longrightarrow> TrimSpace (mfPath e) \<noteq> [] \<and> \<not> IsAbs (mfPath e)"
  by (auto simp: auditFile_def split: if_splits sum.splits)

lemma audit_status:
  "rsStatus (auditFile lowerU quoteGo wd fs rootDir e) \<in> {''PASS'', ''UNVERIFIED'', ''FAIL''}"
  by (auto simp: auditFile_def Let_def compare_digest_def split: sum.split option.split)

subsection \<open>The exit status\<close>

lemma audit_loop_results:
  "audit_loop audit allow es results failed =
   (results @ map audit es,
    failed \<or> (\<exists>e \<in> set es. rsStatus (audit e) = ''FAIL'' \<or> (rsStatus (audit e) = ''UNVERIFIED'' \<and> \<not> allow)))"
  by (induction es arbitrary: results failed) (auto simp: Let_def)

lemma res_all_Inr: "(\<forall>v \<in> set vs. \<exists>x. f v = Inr x) \<Longrightarrow> \<exists>xs. res_all (map f vs) = Inr xs"
  by (induction vs) (auto simp: rbind_Inr)

lemma results_encode: "\<exists>out. json_marshal_indent (JArr (map result_json rs)) = Inr out"
proof -
  have "\<exists>x. layout q nl gap d (result_json r) = Inr x" for q nl gap d r
    by (simp add: result_json_def omit_string_def)
  then show ?thesis
    using res_all_Inr [of rs "\<lambda>r. layout html_quote (\<lambda>d. CHR 0x0A # replicate (2 * d) (CHR '' '')) '' '' 1 (result_json r)"]
    by (auto simp: json_marshal_indent_def comp_def)
qed

lemma results_no_error: "json_marshal_indent (JArr (map (result_json \<circ> f) es)) \<noteq> Inl x"
  using results_encode [of "map f es"] by auto

text \<open>C20: an entry passes exactly when its path is relative and stays below the root, every directory on the
  way is a real directory, no component is a symbolic link, and the file is a regular file whose SHA-256 is the
  expected digest.\<close>

theorem audit_passes_exactly:
  assumes "IsAbs rootDir"
  shows "rsStatus (auditFile lowerU quoteGo wd fs rootDir e) = ''PASS'' \<longleftrightarrow>
    TrimSpace (mfPath e) \<noteq> [] \<and> \<not> IsAbs (mfPath e) \<and>
    (\<exists>names. clean_comps (rootDir @ slash # mfPath e) = clean_comps rootDir @ names \<and>
       pinned lowerU fs (Clean rootDir) names (mfSHA256 e))"
proof (cases "TrimSpace (mfPath e) \<noteq> [] \<and> \<not> IsAbs (mfPath e)")
  case True
  then have ne: "mfPath e \<noteq> []" using TrimSpace_Nil by auto
  have base: "filepath_Abs wd rootDir = Inr (Clean rootDir)" "IsAbs (Clean rootDir)" "Clean (Clean rootDir) = Clean rootDir"
    using assms clean_comps_Clean [OF assms] by (simp_all add: filepath_Abs_def Clean_abs)
  have comps: "clean_comps (JoinPath [Clean rootDir, mfPath e]) = clean_comps (rootDir @ slash # mfPath e)"
    using assms by (simp add: target_abs(3) [OF base(2) ne] clean_comps_append clean_comps_Clean)
  from True audit_pass [OF base, of e lowerU quoteGo fs] show ?thesis
    by (simp add: comps clean_comps_Clean [OF assms])
next
  case False
  then show ?thesis using audit_path by blast
qed

text \<open>The tool exits with status 0 exactly when the manifest could be read and names at least one file, and
  every entry passes, or has no expected digest and the option for unpinned entries is set.\<close>

theorem audit_exit_status:
  "fst (audit_main lowerU quoteGo wd fs invalid opts) = 0 \<longleftrightarrow>
   TrimSpace (aoManifest opts) \<noteq> [] \<and>
   (\<exists>base files. filepath_Abs wd (aoRoot opts) = Inr base \<and>
      loadManifest invalid (snd (fs (aoManifest opts))) = Inr files \<and> files \<noteq> [] \<and>
      list_all (\<lambda>e. rsStatus (auditFile lowerU quoteGo wd fs base e) = ''PASS'' \<or>
        (aoAllowUnpinned opts \<and> rsStatus (auditFile lowerU quoteGo wd fs base e) = ''UNVERIFIED'')) files)"
proof -
  have files: "loadManifest invalid f = Inr files \<Longrightarrow> files \<noteq> []" for f files
    by (auto simp: loadManifest_def rbind_Inr split: option.splits if_splits)
  have st: "rsStatus r \<noteq> ''FAIL'' \<and> \<not> (rsStatus r = ''UNVERIFIED'' \<and> \<not> allow) \<longleftrightarrow>
      rsStatus r = ''PASS'' \<or> (allow \<and> rsStatus r = ''UNVERIFIED'')"
    if "rsStatus r \<in> {''PASS'', ''UNVERIFIED'', ''FAIL''}" for r allow
    using that by auto
  have all: "\<not> (\<exists>e \<in> set files. rsStatus (auditFile lowerU quoteGo wd fs base e) = ''FAIL'' \<or>
        (rsStatus (auditFile lowerU quoteGo wd fs base e) = ''UNVERIFIED'' \<and> \<not> allow)) \<longleftrightarrow>
      list_all (\<lambda>e. rsStatus (auditFile lowerU quoteGo wd fs base e) = ''PASS'' \<or>
        (allow \<and> rsStatus (auditFile lowerU quoteGo wd fs base e) = ''UNVERIFIED'')) files" for base files allow
    using st [OF audit_status] by (simp add: list_all_iff)
  show ?thesis
  proof (cases "loadManifest invalid (snd (fs (aoManifest opts)))")
    case (Inl e)
    then show ?thesis by (simp add: audit_main_def split: sum.split)
  next
    case (Inr fl)
    with files [OF Inr] show ?thesis
      by (auto simp: audit_main_def audit_loop_results results_no_error simp flip: all split: sum.split)
  qed
qed

subsection \<open>Concrete audits\<close>

definition auditTree :: file_view where
  "auditTree p =
     (if p = ''/opt/hw'' then (SInfo KDir 0 0, RError ''is a directory'')
      else if p = ''/opt/hw/bin'' then (SInfo KDir 0 0, RError ''is a directory'')
      else if p = ''/opt/hw/bin/bridge'' then (SInfo KRegular 0 3, RData ''abc'')
      else if p = ''/opt/hw/link'' then (SInfo KSymlink 0 3, RData ''abc'')
      else (SMissing ''no such file'', RMissing ''no such file''))"

definition auditEntry :: ManifestFile where
  "auditEntry = \<lparr>mfPath = ''bin/../bin/bridge'', mfSHA256 = hex_sha256 ''abc''\<rparr>"

lemma hex_digits: "list_all (\<lambda>c. lower_byte c = c \<and> 33 \<le> byte c \<and> byte c < 128) (hex_EncodeToString s)"
proof -
  have "lower_byte (hex_digit n) = hex_digit n \<and> 33 \<le> byte (hex_digit n) \<and> byte (hex_digit n) < 128" if "n < 16" for n
    using that by (simp add: hex_digit_def lower_byte_def)
  moreover have "byte c div 16 < 16" for c by (rule less_mult_imp_div_less) simp
  ultimately show ?thesis by (induction s) simp_all
qed

lemma expected_digest: "ToLower lowerU (TrimSpace (hex_sha256 d)) = hex_sha256 d"
proof -
  let ?h = "hex_sha256 d"
  have all: "lower_byte c = c \<and> 33 \<le> byte c \<and> byte c < 128" if "c \<in> set ?h" for c
    using hex_digits [of "sha256 d"] that by (simp add: list_all_iff hex_sha256_def)
  have ne: "?h \<noteq> []" using length_hex_sha256 [of d] by (auto simp del: length_hex_sha256)
  have "TrimSpace ?h = ?h"
    using all [OF hd_in_set [OF ne]] all [OF last_in_set [OF ne]] ne by (intro TrimSpace_visible) auto
  moreover have "map lower_byte ?h = ?h" using all by (simp add: map_idI)
  moreover have "list_all (\<lambda>c. byte c < 128) ?h" using all by (simp add: list_all_iff)
  ultimately show ?thesis by (simp add: ToLower_def)
qed

theorem audit_passes_exactly_witness:
  "rsStatus (auditFile id id (Inl []) auditTree ''/opt/hw'' auditEntry) = ''PASS'' \<and>
   rsStatus (auditFile id id (Inl []) auditTree ''/opt/hw'' (auditEntry\<lparr>mfPath := ''link''\<rparr>)) \<noteq> ''PASS''"
proof -
  have abs: "IsAbs ''/opt/hw''" "Clean ''/opt/hw'' = ''/opt/hw''" by code_simp+
  have path: "mfPath auditEntry = ''bin/../bin/bridge''" by (simp add: auditEntry_def)
  have e: "TrimSpace (mfPath auditEntry) \<noteq> [] \<and> \<not> IsAbs (mfPath auditEntry) \<and>
    clean_comps (''/opt/hw'' @ slash # mfPath auditEntry) = clean_comps ''/opt/hw'' @ [''bin'', ''bridge'']"
    unfolding path by code_simp
  have way: "kind_at auditTree ''/opt/hw'' = Some KDir" "real_way auditTree ''/opt/hw'' [] [''bin'', ''bridge'']"
    "kind_at auditTree (below ''/opt/hw'' [''bin'', ''bridge'']) = Some KRegular"
    "snd (auditTree (below ''/opt/hw'' [''bin'', ''bridge''])) = RData ''abc''"
    by code_simp+
  have "pinned id auditTree ''/opt/hw'' [''bin'', ''bridge''] (mfSHA256 auditEntry)"
    by (simp add: pinned_def way expected_digest auditEntry_def del: real_way.simps)
  with e audit_passes_exactly [OF abs(1), of id id "Inl []" auditTree auditEntry] abs(2)
  have "rsStatus (auditFile id id (Inl []) auditTree ''/opt/hw'' auditEntry) = ''PASS''" by auto
  moreover have "clean_comps (''/opt/hw'' @ slash # ''link'') = clean_comps ''/opt/hw'' @ [''link'']"
    "\<not> real_way auditTree ''/opt/hw'' [] [''link'']" by code_simp+
  then have "rsStatus (auditFile id id (Inl []) auditTree ''/opt/hw'' (auditEntry\<lparr>mfPath := ''link''\<rparr>)) \<noteq> ''PASS''"
    using audit_passes_exactly [OF abs(1), of id id "Inl []" auditTree "auditEntry\<lparr>mfPath := ''link''\<rparr>"]
    by (auto simp: abs(2) pinned_def simp del: real_way.simps)
  ultimately show ?thesis by blast
qed

end
