(* ===== verification/Storage.thy ===== *)
theory Storage
  imports Unmarshal Safety Hardware GoTime
begin

text \<open>
  Mounted volumes and their health (\<open>storage.go\<close>, \<open>storage_health.go\<close>).  The results of gopsutil
  (\<open>disk.Partitions\<close>, \<open>disk.IOCounters\<close>, \<open>disk.Usage\<close>), of the file system below \<open>/sys\<close>, and of running
  \<open>smartctl\<close> are inputs.  \<open>storageIOState\<close> and \<open>storageHealthCache\<close> are explicit state; times are
  nanoseconds, and the time of the last collection is \<open>None\<close> before the first one.  Paths follow
  Unix rules, and the operating system is a parameter because the code asks for it.

  Shown here: health and temperature stay in their ranges, whatever the tool prints; the reported
  rates are finite and not negative; every volume is reported once; and a device is queried at most
  once in thirty seconds.
\<close>

subsection \<open>Strings\<close>

definition TrimDigits :: "bytes \<Rightarrow> bytes" where
  "TrimDigits s = rev (dropWhile is_digit (rev s))"

text \<open>\<open>strings.LastIndex(s, "p")\<close> as the text before and after the last \<open>p\<close>.\<close>

definition last_p :: "bytes \<Rightarrow> (bytes \<times> bytes) option" where
  "last_p s =
     (if CHR ''p'' \<in> set s
      then Some (let after = rev (takeWhile (\<lambda>c. c \<noteq> CHR ''p'') (rev s)) in
                 (take (length s - length after - 1) s, after))
      else None)"

subsection \<open>Device types\<close>

definition block_parent :: "bytes \<Rightarrow> bytes" where
  "block_parent base =
     (if HasPrefix base ''nvme'' \<or> HasPrefix base ''mmcblk'' then
        (case last_p base of
           Some (before, after) \<Rightarrow>
             if before \<noteq> [] \<and> after \<noteq> [] \<and> TrimDigits after = [] then before else base
         | None \<Rightarrow> base)
      else TrimDigits base)"

text \<open>The answer from sysfs, if it gives one; an ignored error leaves an empty string.\<close>

definition sysfs_type :: "(bytes \<Rightarrow> bytes) \<Rightarrow> os_view \<Rightarrow> bytes \<Rightarrow> (bytes \<times> bytes \<times> bool) option" where
  "sysfs_type lowerU v parent =
     (let dir = JoinPath [''/sys/class/block'', parent];
          devicePath = ToLower lowerU (case osEvalSymlinks v (JoinPath [dir, ''device'']) of Some p \<Rightarrow> p | None \<Rightarrow> []);
          isRemovable = (TrimSpace (case osReadFile v (JoinPath [dir, ''removable'']) of Some d \<Rightarrow> d | None \<Rightarrow> []) = ''1'');
          rotational = map_option TrimSpace (osReadFile v (JoinPath [dir, ''queue'', ''rotational'']))
      in if Contains devicePath ''/usb'' \<or> Contains devicePath ''usb'' then Some (''usb_storage'', ''linux-sysfs'', True)
         else if HasPrefix parent ''nvme'' then Some (''nvme_ssd'', ''linux-sysfs'', isRemovable)
         else if HasPrefix parent ''mmcblk'' then
           (if isRemovable then Some (''sd_card'', ''linux-sysfs'', True) else Some (''mmc_storage'', ''linux-sysfs'', False))
         else if rotational = Some ''0'' then Some (''ssd'', ''linux-sysfs'', isRemovable)
         else if rotational = Some ''1'' then Some (''hdd'', ''linux-sysfs'', isRemovable)
         else if isRemovable then Some (''removable_storage'', ''linux-sysfs'', True)
         else None)"

definition path_type :: "bytes \<Rightarrow> bytes \<times> bytes \<times> bool" where
  "path_type value =
     (if Contains value ''/disk/by-id/usb-'' then (''usb_storage'', ''linux-device-path'', True)
      else if HasPrefix value ''/dev/nvme'' then (''nvme_ssd'', ''linux-device-path'', False)
      else if Contains value ''sdcard'' \<or> Contains value ''sd_card'' then (''sd_card'', ''device-path'', True)
      else (''unknown'', ''insufficient-device-metadata'', False))"

definition classifyStorageDevice :: "(bytes \<Rightarrow> bytes) \<Rightarrow> bytes \<Rightarrow> os_view \<Rightarrow> bytes \<Rightarrow> bytes \<times> bytes \<times> bool" where
  "classifyStorageDevice lowerU goos v device =
     (let value = ToLower lowerU (TrimSpace device) in
      if value = [] then (''unknown'', ''unavailable'', False)
      else if goos = ''linux'' \<and> HasPrefix value ''/dev/'' then
        (let parent = block_parent (Base value) in
         if parent \<noteq> [] then
           (case sysfs_type lowerU v parent of Some answer \<Rightarrow> answer | None \<Rightarrow> path_type value)
         else path_type value)
      else path_type value)"

subsection \<open>Health reports\<close>

record smartctlReport =
  srPassed :: "bool option"
  srCurrent :: "float64 option"
  srPercentageUsed :: "float64 option"

record storageHealthResult =
  shStatus :: bytes
  shSource :: bytes
  shReason :: bytes
  shTemperature :: "float64 option"
  shHealthPercent :: "float64 option"

definition no_health :: "bytes \<Rightarrow> bytes \<Rightarrow> storageHealthResult" where
  "no_health source reason =
     \<lparr>shStatus = ''unknown'', shSource = source, shReason = reason, shTemperature = None, shHealthPercent = None\<rparr>"

definition report_fields :: "smartctlReport fields" where
  "report_fields =
     [(''smart_status'', \<lambda>v r. elem_struct False
         [(''passed'', field srPassed (\<lambda>x. srPassed_update (\<lambda>_. x)) (elem_ptr False elem_bool))] r v),
      (''temperature'', \<lambda>v r. elem_struct False
         [(''current'', field srCurrent (\<lambda>x. srCurrent_update (\<lambda>_. x)) (elem_ptr (Fin 0) elem_float))] r v),
      (''nvme_smart_health_information_log'', \<lambda>v r. elem_struct False
         [(''percentage_used'', field srPercentageUsed (\<lambda>x. srPercentageUsed_update (\<lambda>_. x)) (elem_ptr (Fin 0) elem_float))] r v)]"

definition decode_report :: "bytes \<Rightarrow> smartctlReport option" where
  "decode_report data =
     (case json_decode data of
        None \<Rightarrow> None
      | Some v \<Rightarrow> elem_struct False report_fields \<lparr>srPassed = None, srCurrent = None, srPercentageUsed = None\<rparr> v)"

definition overall_status :: "bool option \<Rightarrow> storageHealthResult \<Rightarrow> storageHealthResult" where
  "overall_status passed r =
     (case passed of
        None \<Rightarrow> r
      | Some True \<Rightarrow> r\<lparr>shStatus := ''healthy'', shReason := ''Device-reported SMART overall status is passing''\<rparr>
      | Some False \<Rightarrow> r\<lparr>shStatus := ''warning'', shReason := ''Device-reported SMART overall status is failing''\<rparr>)"

definition report_temperature :: "float64 option \<Rightarrow> storageHealthResult \<Rightarrow> storageHealthResult" where
  "report_temperature current r =
     (case current of
        None \<Rightarrow> r
      | Some t \<Rightarrow> if fle (Fin (- 20)) t \<and> fle t (Fin 125) then r\<lparr>shTemperature := Some t\<rparr> else r)"

definition wear_status :: "float64 option \<Rightarrow> storageHealthResult \<Rightarrow> storageHealthResult" where
  "wear_status wear r =
     (case wear of
        None \<Rightarrow> r
      | Some used \<Rightarrow>
          if fle (Fin 0) used \<and> fle used (Fin 1000) then
            (let v = fsub (Fin 100) used;
                 r' = r\<lparr>shHealthPercent := Some (if flt v (Fin 0) then Fin 0 else v)\<rparr>
             in if fle (Fin 100) used \<and> shStatus r' = ''healthy''
                then r'\<lparr>shStatus := ''warning'',
                        shReason := ''NVMe reported percentage-used has reached or exceeded its rated endurance''\<rparr>
                else r')
          else r)"

definition parseSmartctlReport :: "bytes \<Rightarrow> storageHealthResult" where
  "parseSmartctlReport data =
     (case decode_report data of
        None \<Rightarrow> no_health ''smartctl'' ''SMART report was not valid JSON''
      | Some report \<Rightarrow>
          wear_status (srPercentageUsed report)
            (report_temperature (srCurrent report)
              (overall_status (srPassed report)
                (no_health ''smartctl'' ''Drive did not provide a supported health indicator''))))"

subsection \<open>Querying a device\<close>

definition device_candidates :: "bytes \<Rightarrow> bytes list" where
  "device_candidates base =
     base #
     (if HasPrefix base ''nvme'' \<or> HasPrefix base ''mmcblk'' then
        (case last_p base of
           Some (before, after) \<Rightarrow>
             if before \<noteq> [] \<and> after \<noteq> [] \<and> Atoi after \<noteq> None then [before] else []
         | None \<Rightarrow> [])
      else if TrimDigits base \<noteq> base then [TrimDigits base] else [])"

definition linuxPhysicalDevice :: "bytes \<Rightarrow> os_view \<Rightarrow> bytes \<Rightarrow> bytes" where
  "linuxPhysicalDevice goos v device =
     (if goos \<noteq> ''linux'' \<or> \<not> HasPrefix (Clean device) ''/dev/'' then []
      else (case find (\<lambda>c. c \<noteq> [] \<and> osStat v (JoinPath [''/sys/class/block'', c])) (device_candidates (Base device)) of
              Some c \<Rightarrow> JoinPath [''/dev'', c]
            | None \<Rightarrow> []))"

text \<open>How a run of \<open>smartctl\<close> ended: at the deadline, or with an error or not and some output.\<close>

datatype smart_run = SmTimeout | SmDone bool bytes

definition query_result :: "smart_run \<Rightarrow> storageHealthResult" where
  "query_result run =
     (case run of
        SmTimeout \<Rightarrow> no_health ''smartctl'' ''SMART query timed out''
      | SmDone failed out \<Rightarrow>
          if failed \<and> out = [] then
            no_health ''smartctl'' ''smartctl is unavailable or the device cannot be queried; permissions may be required''
          else parseSmartctlReport out)"

type_synonym health_cache = "bytes \<rightharpoonup> int \<times> storageHealthResult"

text \<open>\<open>Time.Sub\<close> saturates at the range of \<open>time.Duration\<close>.\<close>

definition time_Sub :: "int \<Rightarrow> int \<Rightarrow> int" where
  "time_Sub a b = max (- (2 ^ 63)) (min (2 ^ 63 - 1) (a - b))"

text \<open>The result, the cache, and the device that was queried, if one was.\<close>

definition readStorageHealth ::
  "bytes \<Rightarrow> os_view \<Rightarrow> int \<Rightarrow> (bytes \<Rightarrow> smart_run) \<Rightarrow> bytes \<Rightarrow> health_cache \<Rightarrow>
   storageHealthResult \<times> health_cache \<times> bytes list" where
  "readStorageHealth goos v now smartctl device cache =
     (let physical = linuxPhysicalDevice goos v device in
      if physical = [] then
        (no_health ''unavailable'' ''No supported physical-device mapping is available for SMART health'', cache, [])
      else (case cache physical of
        Some (since, cached) \<Rightarrow>
          if time_Sub now since < 30 * second then (cached, cache, [])
          else (let result = query_result (smartctl physical) in (result, cache(physical \<mapsto> (now, result)), [physical]))
      | None \<Rightarrow>
          (let result = query_result (smartctl physical) in (result, cache(physical \<mapsto> (now, result)), [physical]))))"

subsection \<open>Volumes\<close>

record IOCounters =
  ioReadBytes :: "64 word"
  ioWriteBytes :: "64 word"

record partition =
  ptMountpoint :: bytes
  ptDevice :: bytes
  ptFstype :: bytes
  ptOpts :: "bytes list"

record usage =
  usTotal :: "64 word"
  usUsed :: "64 word"
  usFree :: "64 word"
  usUsedPercent :: float64

definition storageDeviceKey :: "(bytes \<Rightarrow> bytes) \<Rightarrow> bytes \<Rightarrow> bytes" where
  "storageDeviceKey lowerU device =
     (let value = TrimSpace device in if value = [] then [] else ToLower lowerU (Clean value))"

definition storageCounterForVolume ::
  "(bytes \<Rightarrow> bytes) \<Rightarrow> StorageVolume \<Rightarrow> (bytes \<rightharpoonup> IOCounters) \<Rightarrow> IOCounters option" where
  "storageCounterForVolume lowerU volume counters =
     (case find (\<lambda>key. key \<noteq> [] \<and> counters key \<noteq> None)
        [storageDeviceKey lowerU (svDevice volume),
         storageDeviceKey lowerU (Base (svDevice volume)),
         storageDeviceKey lowerU (TrimSuffix (svMountPoint volume) [slash])] of
        Some key \<Rightarrow> counters key
      | None \<Rightarrow> None)"

text \<open>\<open>Duration.Seconds\<close>, with division toward zero.\<close>

definition Seconds :: "int \<Rightarrow> float64" where
  "Seconds d = fadd (fof_int (sgn d * (\<bar>d\<bar> div second))) (fdiv (fof_int (sgn d * (\<bar>d\<bar> mod second))) (Fin 1000000000))"

record storage_state =
  stAt :: "int option"
  stCounters :: "bytes \<rightharpoonup> IOCounters"
  stHealth :: health_cache

text \<open>What a collection sees; the clock and the tool are asked again for every partition.\<close>

record storage_env =
  seGOOS :: bytes
  sePartitions :: "partition list option"
  seNow :: int
  seCounters :: "(bytes \<times> IOCounters) list"
  seUsage :: "bytes \<Rightarrow> usage option"
  seView :: os_view
  seClock :: "nat \<Rightarrow> int"
  seSmartctl :: "nat \<Rightarrow> bytes \<Rightarrow> smart_run"

definition normalize_counters :: "(bytes \<Rightarrow> bytes) \<Rightarrow> (bytes \<times> IOCounters) list \<Rightarrow> bytes \<rightharpoonup> IOCounters" where
  "normalize_counters lowerU cs = fold (\<lambda>(name, c) m. m(storageDeviceKey lowerU name \<mapsto> c)) cs Map.empty"

definition byte_delta :: "64 word \<Rightarrow> 64 word \<Rightarrow> float64" where
  "byte_delta new old = (let d = fof_int (uint (new - old)) in if new < old then Fin 0 else d)"

definition volume_rates ::
  "(bytes \<Rightarrow> bytes) \<Rightarrow> int option \<Rightarrow> (bytes \<rightharpoonup> IOCounters) \<Rightarrow> (bytes \<rightharpoonup> IOCounters) \<Rightarrow> float64 \<Rightarrow>
   StorageVolume \<Rightarrow> StorageVolume" where
  "volume_rates lowerU previousAt previousCounters counters elapsed volume =
     (if previousAt = None then volume\<lparr>svHealthSource := ''unavailable''\<rparr>
      else (case storageCounterForVolume lowerU volume counters of
        None \<Rightarrow> volume
      | Some counter \<Rightarrow>
          (let v1 = (case storageCounterForVolume lowerU volume previousCounters of
                       Some previous \<Rightarrow>
                         if flt (Fin 0) elapsed then
                           volume\<lparr>svReadBytesPerSec := fdiv (byte_delta (ioReadBytes counter) (ioReadBytes previous)) elapsed,
                                  svWriteBytesPerSec := fdiv (byte_delta (ioWriteBytes counter) (ioWriteBytes previous)) elapsed\<rparr>
                         else volume
                     | None \<Rightarrow> volume)
           in v1\<lparr>svHealthSource := ''io-counters'',
                 svHealthReason := ''I/O counters available; device health percentage requires a platform-specific reliability backend''\<rparr>)))"

definition new_volume :: "(bytes \<Rightarrow> bytes) \<Rightarrow> bytes \<Rightarrow> os_view \<Rightarrow> bytes \<Rightarrow> partition \<Rightarrow> usage \<Rightarrow> StorageVolume" where
  "new_volume lowerU goos v mount p u =
     (let device = TrimSpace (ptDevice p) in
      case classifyStorageDevice lowerU goos v device of (deviceType, source, removable) \<Rightarrow>
        \<lparr>svMountPoint = mount, svDevice = device, svDeviceType = deviceType, svDeviceTypeSource = source,
         svRemovable = removable, svFileSystem = TrimSpace (ptFstype p), svOptions = TrimSpace (Join (ptOpts p) '',''),
         svTotalBytes = usTotal u, svUsedBytes = usUsed u, svFreeBytes = usFree u, svUsagePercent = usUsedPercent u,
         svReadBytesPerSec = Fin 0, svWriteBytesPerSec = Fin 0, svTemperatureC = None, svHealthPercent = None,
         svHealthStatus = ''unknown'', svHealthSource = [],
         svHealthReason = ''No platform-specific storage health source is currently configured''\<rparr>)"

definition volume_health ::
  "storage_env \<Rightarrow> nat \<Rightarrow> StorageVolume \<Rightarrow> health_cache \<Rightarrow> StorageVolume \<times> health_cache" where
  "volume_health env i volume cache =
     (if seGOOS env = ''linux'' then
        (case readStorageHealth (seGOOS env) (seView env) (seClock env i) (seSmartctl env i) (svDevice volume) cache of
           (h, cache', _) \<Rightarrow>
             (volume\<lparr>svHealthStatus := shStatus h, svHealthSource := shSource h, svHealthReason := shReason h,
                     svTemperatureC := shTemperature h, svHealthPercent := shHealthPercent h\<rparr>, cache'))
      else (volume, cache))"

fun volume_loop ::
  "(bytes \<Rightarrow> bytes) \<Rightarrow> storage_env \<Rightarrow> (StorageVolume \<Rightarrow> StorageVolume) \<Rightarrow> nat \<Rightarrow> partition list \<Rightarrow> bytes set \<Rightarrow>
   health_cache \<Rightarrow> StorageVolume list \<times> health_cache" where
  "volume_loop lowerU env rates i [] seen cache = ([], cache)"
| "volume_loop lowerU env rates i (p # ps) seen cache =
     (let mount = TrimSpace (ptMountpoint p);
          key = ToLower lowerU (Clean mount)
      in if mount = [] \<or> key \<in> seen then volume_loop lowerU env rates (Suc i) ps seen cache
         else (case seUsage env mount of
           None \<Rightarrow> volume_loop lowerU env rates (Suc i) ps (insert key seen) cache
         | Some u \<Rightarrow>
             if usTotal u = 0 then volume_loop lowerU env rates (Suc i) ps (insert key seen) cache
             else (case volume_health env i (rates (new_volume lowerU (seGOOS env) (seView env) mount p u)) cache of
               (volume, cache') \<Rightarrow>
                 (case volume_loop lowerU env rates (Suc i) ps (insert key seen) cache' of
                    (volumes, cache'') \<Rightarrow> (volume # volumes, cache'')))))"

definition collectStorageVolumes ::
  "(bytes \<Rightarrow> bytes) \<Rightarrow> storage_env \<Rightarrow> storage_state \<Rightarrow> StorageVolume list \<times> storage_state" where
  "collectStorageVolumes lowerU env st =
     (case sePartitions env of
        None \<Rightarrow> ([], st)
      | Some partitions \<Rightarrow>
          (let counters = normalize_counters lowerU (seCounters env);
               secs = (case stAt st of Some since \<Rightarrow> Seconds (time_Sub (seNow env) since) | None \<Rightarrow> Fin 0);
               elapsed = (if fle secs (Fin 0) then Fin 0 else secs)
           in case volume_loop lowerU env (volume_rates lowerU (stAt st) (stCounters st) counters elapsed) 0 partitions {} (stHealth st) of
                (volumes, cache) \<Rightarrow> (volumes, \<lparr>stAt = Some (seNow env), stCounters = counters, stHealth = cache\<rparr>)))"

subsection \<open>Ranges of a health report\<close>

definition health_ok :: "storageHealthResult \<Rightarrow> bool" where
  "health_ok r =
     ((case shTemperature r of None \<Rightarrow> True | Some t \<Rightarrow> fle (Fin (- 20)) t \<and> fle t (Fin 125)) \<and>
      (case shHealthPercent r of None \<Rightarrow> True | Some h \<Rightarrow> fle (Fin 0) h \<and> fle h (Fin 100)) \<and>
      shStatus r \<in> {''unknown'', ''healthy'', ''warning''})"

lemma no_health_ok [simp]: "health_ok (no_health s r)"
  by (simp add: health_ok_def no_health_def)

lemma fle_fin_cases: "fle (Fin a) x \<Longrightarrow> fle x (Fin b) \<Longrightarrow> is_fin x \<and> a \<le> fval x \<and> fval x \<le> b"
  by (cases x) (auto simp: fle_def flt_def feq_def split: if_splits)

lemma fadd_fin:
  "is_fin x \<Longrightarrow> is_fin y \<Longrightarrow> x \<noteq> NegZero \<Longrightarrow> fadd x y = fround (fval x + fval y)"
  by (simp add: fadd_def is_fin_def)

text \<open>The remaining endurance, from a wear in the accepted range.\<close>

lemma remaining_bounds:
  assumes "fle (Fin 0) used" and "fle used (Fin 1000)"
  defines "v \<equiv> fsub (Fin 100) used"
  shows "is_fin v" and "fval v \<le> 100"
proof -
  have u: "is_fin used" "0 \<le> fval used" "fval used \<le> 1000"
    using fle_fin_cases [OF assms(1,2)] by simp_all
  then have n: "is_fin (fneg used)" "fval (fneg used) = - fval used"
    using is_fin_cases [OF u(1)] by auto
  have v: "v = fround (100 - fval used)"
    using n fadd_fin [of "Fin 100" "fneg used"] by (simp add: v_def fsub_def)
  have a: "\<bar>100 - fval used\<bar> < 2 ^ 53" using u by (simp add: abs_if)
  have b: "100 - fval used \<le> of_int 100" using u by simp
  show "is_fin v" "fval v \<le> 100"
    using fround_le_int [OF a b] by (simp_all add: v)
qed

lemma wear_status_ok: "health_ok r \<Longrightarrow> health_ok (wear_status wear r)"
proof (cases wear)
  case (Some used)
  assume ok: "health_ok r"
  show ?thesis
  proof (cases "fle (Fin 0) used \<and> fle used (Fin 1000)")
    case True
    with remaining_bounds [of used] ok show ?thesis
      by (simp add: wear_status_def Some Let_def health_ok_def not_less)
  next
    case False
    with ok show ?thesis by (auto simp: wear_status_def Some)
  qed
qed (simp add: wear_status_def)

lemma report_temperature_ok: "health_ok r \<Longrightarrow> health_ok (report_temperature t r)"
  by (cases t) (simp_all add: report_temperature_def health_ok_def)

lemma overall_status_ok: "health_ok r \<Longrightarrow> health_ok (overall_status p r)"
  by (cases p rule: option.exhaust; cases "the p") (auto simp: overall_status_def health_ok_def)

lemma parse_ok: "health_ok (parseSmartctlReport data)"
  by (simp add: parseSmartctlReport_def wear_status_ok report_temperature_ok overall_status_ok split: option.split)

lemma query_ok: "health_ok (query_result run)"
  by (simp add: query_result_def parse_ok split: smart_run.split)

definition cache_ok :: "health_cache \<Rightarrow> bool" where
  "cache_ok cache = (\<forall>p t r. cache p = Some (t, r) \<longrightarrow> health_ok r)"

lemma readStorageHealth_ok:
  assumes "cache_ok cache" and "readStorageHealth goos v now smartctl device cache = (r, cache', qs)"
  shows "health_ok r \<and> cache_ok cache'"
proof -
  have up: "cache_ok (cache(p \<mapsto> (t, query_result run)))" for p t run
    using assms(1) by (simp add: cache_ok_def query_ok)
  show ?thesis
  proof (cases "linuxPhysicalDevice goos v device = []")
    case True
    with assms show ?thesis by (auto simp: readStorageHealth_def)
  next
    case False
    show ?thesis
    proof (cases "cache (linuxPhysicalDevice goos v device)")
      case None
      with False assms(2) up query_ok show ?thesis by (auto simp: readStorageHealth_def Let_def)
    next
      case (Some e)
      moreover obtain t h where e: "e = (t, h)" by fastforce
      moreover have "health_ok h" using assms(1) Some e by (simp add: cache_ok_def)
      ultimately show ?thesis
        using False assms up query_ok by (auto simp: readStorageHealth_def Let_def split: if_splits)
    qed
  qed
qed

subsection \<open>Rounding within a factor of two\<close>

lemma fround_factor:
  assumes lo: "2 powi (- 1000) \<le> x" and hi: "x \<le> 2 powi 1000"
  shows "is_fin (fround x) \<and> x / 2 \<le> fval (fround x) \<and> fval (fround x) \<le> 2 * x"
proof -
  have pos: "0 < x" using lo less_le_trans [of 0 "2 powi (- 1000)" x] by simp
  let ?L = "ilog2 x"
  note b = ilog2_bounds [OF pos]
  have "(2::rat) powi (- 1000) < 2 powi (?L + 1)" using lo b by linarith
  then have "- 1000 < ?L + 1" by (metis not_less one_le_numeral power_int_increasing leD)
  moreover have "(2::rat) powi ?L < 2 powi 1001" using hi b by (simp add: power_int_def) 
  then have "?L < 1001" by (metis not_less one_le_numeral power_int_increasing leD)
  ultimately have e: "ulp_exp x = ?L - 52" "?L - 52 < 971" using pos by (simp_all add: ulp_exp_def)
  let ?u = "(2::rat) powi (?L - 52)"
  have u: "0 < ?u" by simp
  have L: "(2::rat) powi ?L = 2 ^ 52 * ?u" "(2::rat) powi (?L + 1) = 2 ^ 53 * ?u"
    using power_int_add [of "2::rat" "?L - 52" 52] power_int_add [of "2::rat" "?L - 52" 53]
    by (simp_all add: algebra_simps)
  have "of_int (2 ^ 52) \<le> x / ?u" using b u L by (simp add: pos_le_divide_eq)
  then have m1: "2 ^ 52 \<le> rhe (x / ?u)" by (rule rhe_ge)
  have "x / ?u \<le> of_int (2 ^ 53)" using b u L by (simp add: pos_divide_le_eq)
  then have m2: "rhe (x / ?u) \<le> 2 ^ 53" by (rule rhe_le)
  have f: "fround x = Fin (of_int (rhe (x / ?u)) * ?u)"
    using pos e m1 by (simp add: fround_def Let_def)
  have "(of_int (2 ^ 52) :: rat) \<le> of_int (rhe (x / ?u))" using m1 by (simp only: of_int_le_iff)
  then have g1: "2 ^ 52 * ?u \<le> fval (fround x)" unfolding f by (simp add: mult_right_mono)
  have "(of_int (rhe (x / ?u)) :: rat) \<le> of_int (2 ^ 53)" using m2 by (simp only: of_int_le_iff)
  then have g2: "fval (fround x) \<le> 2 ^ 53 * ?u" unfolding f by (simp add: mult_right_mono)
  have "x / 2 < 2 ^ 52 * ?u" "2 ^ 53 * ?u \<le> 2 * x" using b L by simp_all
  with g1 g2 have "x / 2 \<le> fval (fround x)" "fval (fround x) \<le> 2 * x" by linarith+
  moreover have "is_fin (fround x)" by (simp add: f)
  ultimately show ?thesis by blast
qed

definition rate_ok :: "float64 \<Rightarrow> bool" where
  "rate_ok x = (is_fin x \<and> 0 \<le> fval x)"

text \<open>The quotient of two values that are neither huge nor tiny.\<close>

lemma fdiv_rate:
  assumes "is_fin d" "fval d = 0 \<or> (1 / 2 \<le> fval d \<and> fval d \<le> 2 ^ 70)"
    and "is_fin t" "1 / 2 ^ 40 \<le> fval t" "fval t \<le> 2 ^ 70"
  shows "rate_ok (fdiv d t)"
proof (cases "fval d = 0")
  case True
  have "fval t \<noteq> 0" using assms(4) by auto
  with True assms have "fdiv d t = fzero (fneg_sign d \<noteq> fneg_sign t)" by (simp add: fdiv_def Let_def is_fin_def)
  then show ?thesis by (simp add: rate_ok_def)
next
  case False
  let ?q = "fval d / fval t"
  from False assms have d: "1 / 2 \<le> fval d" "fval d \<le> 2 ^ 70" by simp_all
  have t: "0 < fval t" using assms(4) less_le_trans [of 0 "1 / 2 ^ 40" "fval t"] by simp
  have "?q \<le> 2 ^ 70 / (1 / 2 ^ 40)" using d assms(4) by (intro frac_le) auto
  also have "\<dots> \<le> 2 powi 1000" by (simp add: power_int_def)
  finally have hi: "?q \<le> 2 powi 1000" .
  have "(2::rat) powi (- 1000) \<le> (1 / 2) / 2 ^ 70" by (simp add: power_int_def field_simps)
  also have "\<dots> \<le> ?q" using d assms(5) t by (intro frac_le) auto
  finally have lo: "2 powi (- 1000) \<le> ?q" .
  have "fdiv d t = fround ?q" using assms(1,3) d(1) t by (intro fdiv_fin) auto
  moreover have "0 \<le> ?q" using d t by simp
  ultimately show ?thesis using fround_factor [OF lo hi] by (simp add: rate_ok_def)
qed

lemma fof_int_factor:
  assumes "1 \<le> n" and "n \<le> 2 ^ 64"
  shows "is_fin (fof_int n) \<and> of_int n / 2 \<le> fval (fof_int n) \<and> fval (fof_int n) \<le> 2 * of_int n"
proof -
  have n: "(1::rat) \<le> of_int n" "(of_int n :: rat) \<le> 2 ^ 64"
    using assms of_int_le_iff [of 1 n, where 'a=rat] of_int_le_iff [of n "2 ^ 64", where 'a=rat] by simp_all
  have "(2::rat) powi (- 1000) \<le> of_int n"
    by (rule order_trans [OF _ n(1)]) (simp add: power_int_def field_simps)
  moreover have "(of_int n :: rat) \<le> 2 powi 1000"
    by (rule order_trans [OF n(2)]) (simp add: power_int_def)
  ultimately show ?thesis unfolding fof_int_def by (rule fround_factor)
qed

lemma byte_delta_bounds:
  "is_fin (byte_delta a b) \<and> (fval (byte_delta a b) = 0 \<or> (1 / 2 \<le> fval (byte_delta a b) \<and> fval (byte_delta a b) \<le> 2 ^ 70))"
proof (cases "a < b \<or> a - b = 0")
  case True
  then show ?thesis by (auto simp: byte_delta_def Let_def fof_int_def fround_def)
next
  case False
  let ?n = "uint (a - b)"
  have "?n < 2 ^ 64" using uint_lt2p [of "a - b"] by simp
  moreover have "?n \<noteq> 0" using False by (simp add: uint_0_iff)
  then have "1 \<le> ?n" using uint_ge_0 [of "a - b"] by linarith
  ultimately have n: "1 \<le> ?n" "?n \<le> 2 ^ 64" by simp_all
  have "(1::rat) \<le> of_int ?n" "(of_int ?n :: rat) \<le> 2 ^ 64"
    using n of_int_le_iff [of 1 ?n, where 'a=rat] of_int_le_iff [of ?n "2 ^ 64", where 'a=rat] by simp_all
  with fof_int_factor [OF n] False show ?thesis by (simp add: byte_delta_def)
qed

subsection \<open>Elapsed time\<close>

lemma nanoseconds:
  assumes "0 \<le> n" and "n < second"
  defines "b \<equiv> fdiv (fof_int n) (Fin 1000000000)"
  shows "is_fin b" and "0 \<le> fval b" and "fval b \<le> 4" and "1 \<le> n \<Longrightarrow> 1 / 2 ^ 38 \<le> fval b"
proof -
  have "is_fin b \<and> 0 \<le> fval b \<and> fval b \<le> 4 \<and> (1 \<le> n \<longrightarrow> 1 / 2 ^ 38 \<le> fval b)"
  proof (cases "n = 0")
    case True
    then show ?thesis by (simp add: b_def fof_int_def fround_def fdiv_def IsNaN_def IsInf_def fzero_def)
  next
    case False
    then have n: "1 \<le> n" "n \<le> 2 ^ 64" "(1::rat) \<le> of_int n" "(of_int n :: rat) \<le> 1000000000"
      using assms of_int_le_iff [of n 1000000000, where 'a=rat] by simp_all
    note f = fof_int_factor [OF n(1,2)]
    let ?q = "fval (fof_int n) / 1000000000"
    have q: "1 / 2 / 1000000000 \<le> ?q" "?q \<le> 2" using f n by (simp_all add: divide_simps)
    have lo: "2 powi (- 1000) \<le> ?q"
      by (rule order_trans [OF _ q(1)]) (simp add: power_int_def field_simps)
    have hi: "?q \<le> 2 powi 1000"
      by (rule order_trans [OF q(2)]) (simp add: power_int_def)
    have "b = fround ?q" using f n fdiv_fin [of "fof_int n" "Fin 1000000000"] by (simp add: b_def)
    moreover have "(1::rat) / 2 ^ 38 \<le> 1 / 2 / 1000000000 / 2" by simp
    ultimately show ?thesis using fround_factor [OF lo hi] q by auto
  qed
  then show "is_fin b" and "0 \<le> fval b" and "fval b \<le> 4" and "1 \<le> n \<Longrightarrow> 1 / 2 ^ 38 \<le> fval b" by blast+
qed

lemma fround_sign: "0 \<le> x \<Longrightarrow> fround x \<noteq> NegZero"
  by (simp add: fround_def Let_def)

lemma Seconds_bounds:
  assumes "0 < d" and "d < 2 ^ 63"
  shows "is_fin (Seconds d) \<and> 1 / 2 ^ 40 \<le> fval (Seconds d) \<and> fval (Seconds d) \<le> 2 ^ 70"
proof -
  let ?s = "d div second" and ?n = "d mod second"
  have n: "0 \<le> ?n" "?n < second" by simp_all
  note b = nanoseconds [OF n]
  let ?b = "fdiv (fof_int ?n) (Fin 1000000000)"
  have s: "0 \<le> ?s" "?s < 2 ^ 53" using assms by simp_all
  then have "\<bar>?s\<bar> < 2 ^ 53" by simp
  note a = fround_int [OF this]
  have "Seconds d = fadd (fof_int ?s) ?b" using assms by (simp add: Seconds_def)
  also have "fof_int ?s \<noteq> NegZero"
    using s(1) fround_sign [of "of_int ?s"] by (simp add: fof_int_def)
  then have "fadd (fof_int ?s) ?b = fround (of_int ?s + fval ?b)"
    using a b(1) fadd_fin [of "fof_int ?s" ?b] by (simp add: fof_int_def)
  finally have eq: "Seconds d = fround (of_int ?s + fval ?b)" .
  let ?x = "of_int ?s + fval ?b :: rat"
  have s': "(0::rat) \<le> of_int ?s" "(of_int ?s :: rat) \<le> 2 ^ 53"
    using s of_int_le_iff [of ?s "2 ^ 53", where 'a=rat] by (simp_all del: of_int_le_iff)
  have "1 / 2 ^ 38 \<le> ?x"
  proof (cases "?s = 0")
    case True
    then have "?n = d" using assms(1) by (simp add: div_eq_0_iff pos_imp_zdiv_nonneg_iff zdiv_eq_0_iff)
    with assms(1) have "1 \<le> ?n" by linarith
    with b(4) s' show ?thesis by linarith
  next
    case False
    with s have "1 \<le> ?s" by linarith
    then have "(1::rat) \<le> of_int ?s" using of_int_le_iff [of 1 ?s, where 'a=rat] by (simp del: of_int_le_iff)
    moreover have "(1::rat) / 2 ^ 38 \<le> 1" by simp
    ultimately show ?thesis using b(2) by linarith
  qed
  moreover have "?x \<le> 2 ^ 54" using s' b(3) by simp
  ultimately have x: "1 / 2 ^ 38 \<le> ?x" "?x \<le> 2 ^ 54" by blast+
  have lo: "2 powi (- 1000) \<le> ?x" by (rule order_trans [OF _ x(1)]) (simp add: power_int_def field_simps)
  have hi: "?x \<le> 2 powi 1000" by (rule order_trans [OF x(2)]) (simp add: power_int_def)
  have f: "is_fin (fround ?x)" "?x / 2 \<le> fval (fround ?x)" "fval (fround ?x) \<le> 2 * ?x"
    using fround_factor [OF lo hi] by blast+
  have "1 / 2 ^ 40 \<le> ?x / 2" using x(1) by simp
  moreover have "2 * ?x \<le> 2 ^ 70" using x(2) by simp
  ultimately show ?thesis unfolding eq using f order_trans by blast
qed

text \<open>No time is counted when the clock did not advance.\<close>

lemma fof_int_small:
  assumes "\<bar>i\<bar> < 2 ^ 53"
  shows "is_fin (fof_int i)" "fval (fof_int i) = of_int i" "fof_int i \<noteq> NegZero"
proof -
  show f: "is_fin (fof_int i)" "fval (fof_int i) = of_int i"
    using fround_int [OF assms] by (simp_all add: fof_int_def)
  show "fof_int i \<noteq> NegZero"
  proof (cases "i = 0")
    case True
    then show ?thesis by (simp add: fof_int_def fround_def)
  qed (use f in auto)
qed

lemma fround_nonpos: "x \<le> 0 \<Longrightarrow> \<bar>x\<bar> < 2 ^ 53 \<Longrightarrow> is_fin (fround x) \<and> fval (fround x) \<le> 0"
  using fround_le_int [of x 0] by simp

lemma fround_minus_one: "- 1 \<le> x \<Longrightarrow> \<bar>x\<bar> < 2 ^ 53 \<Longrightarrow> - 1 \<le> fval (fround x)"
  using fround_ge_int [of x "- 1"] by simp

lemma Seconds_nonpos:
  assumes "d \<le> 0" and "- (2 ^ 63) \<le> d"
  shows "fle (Seconds d) (Fin 0)"
proof -
  let ?s = "sgn d * (\<bar>d\<bar> div second)" and ?n = "sgn d * (\<bar>d\<bar> mod second)"
  have sg: "sgn d = 0 \<or> sgn d = - 1" using assms(1) by (auto simp: sgn_if)
  have "\<bar>d\<bar> div second \<le> 2 ^ 63 div second" using assms by (intro zdiv_mono1) auto
  then have s: "?s \<le> 0" "- (2 ^ 40) \<le> ?s" using sg by auto
  have "0 \<le> \<bar>d\<bar> mod second" "\<bar>d\<bar> mod second < second" by simp_all
  then have n: "?n \<le> 0" "- second < ?n" using sg by auto
  have s': "(of_int ?s :: rat) \<le> 0" "- (2 ^ 40) \<le> (of_int ?s :: rat)"
    using s of_int_le_iff [of "- (2 ^ 40)" ?s, where 'a=rat] by (simp_all del: of_int_le_iff of_int_mult)
  have n': "(of_int ?n :: rat) \<le> 0" "- 1000000000 \<le> (of_int ?n :: rat)"
    using n of_int_le_iff [of "- 1000000000" ?n, where 'a=rat] by (simp_all del: of_int_le_iff of_int_mult)
  have "\<bar>?s\<bar> < 2 ^ 53" unfolding abs_of_nonpos [OF s(1)] using s(2) by simp
  note a = fof_int_small [OF this]
  have "\<bar>?n\<bar> < 2 ^ 53" unfolding abs_of_nonpos [OF n(1)] using n(2) by simp
  note m = fof_int_small [OF this]
  let ?b = "fdiv (fof_int ?n) (Fin 1000000000)"
  have b: "is_fin ?b \<and> fval ?b \<le> 0 \<and> - 1 \<le> fval ?b"
  proof (cases "?n = 0")
    case True
    then show ?thesis by (simp add: fof_int_def fround_def fdiv_def IsNaN_def IsInf_def fzero_def)
  next
    case False
    let ?q = "of_int ?n / 1000000000 :: rat"
    have q: "?q \<le> 0" "- 1 \<le> ?q" "\<bar>?q\<bar> < 2 ^ 53" using n' by (simp_all del: of_int_mult add: abs_if)
    have "?b = fround ?q" using m False fdiv_fin [of "fof_int ?n" "Fin 1000000000"] by (simp del: of_int_mult)
    with q fround_nonpos fround_minus_one show ?thesis by (simp del: of_int_mult)
  qed
  have "Seconds d = fround (of_int ?s + fval ?b)"
    unfolding Seconds_def using a b fadd_fin [of "fof_int ?s" ?b] by (simp del: of_int_mult)
  moreover have "of_int ?s + fval ?b \<le> 0" "\<bar>of_int ?s + fval ?b\<bar> < 2 ^ 53"
    using s' b by (simp_all del: of_int_mult add: abs_if)
  ultimately show ?thesis using fround_nonpos [of "of_int ?s + fval ?b"] by (simp del: of_int_mult)
qed

lemma elapsed_bounds:
  assumes "\<not> fle (Seconds d) (Fin 0)" and "- (2 ^ 63) \<le> d" and "d < 2 ^ 63"
  shows "is_fin (Seconds d) \<and> 1 / 2 ^ 40 \<le> fval (Seconds d) \<and> fval (Seconds d) \<le> 2 ^ 70"
  using Seconds_nonpos [OF _ assms(2)] assms by (intro Seconds_bounds) force+

subsection \<open>The volumes\<close>

definition volume_ok :: "StorageVolume \<Rightarrow> bool" where
  "volume_ok v =
     (svTotalBytes v \<noteq> 0 \<and> rate_ok (svReadBytesPerSec v) \<and> rate_ok (svWriteBytesPerSec v) \<and>
      (case svTemperatureC v of None \<Rightarrow> True | Some t \<Rightarrow> fle (Fin (- 20)) t \<and> fle t (Fin 125)) \<and>
      (case svHealthPercent v of None \<Rightarrow> True | Some h \<Rightarrow> fle (Fin 0) h \<and> fle h (Fin 100)) \<and>
      svHealthStatus v \<in> {''unknown'', ''healthy'', ''warning''})"

lemma new_volume_fields:
  "svMountPoint (new_volume lowerU goos v mount p u) = mount"
  "usTotal u \<noteq> 0 \<Longrightarrow> volume_ok (new_volume lowerU goos v mount p u)"
  by (simp_all add: new_volume_def volume_ok_def rate_ok_def Let_def split: prod.split)

text \<open>The rates come from an elapsed time that is 0 or as long as a clock difference.\<close>

definition elapsed_ok :: "float64 \<Rightarrow> bool" where
  "elapsed_ok t = (t = Fin 0 \<or> (is_fin t \<and> 1 / 2 ^ 40 \<le> fval t \<and> fval t \<le> 2 ^ 70))"

lemma volume_rates_ok:
  assumes "volume_ok v" and "elapsed_ok t"
  shows "volume_ok (volume_rates lowerU at0 old new t v)"
    and "svMountPoint (volume_rates lowerU at0 old new t v) = svMountPoint v"
    and "svDevice (volume_rates lowerU at0 old new t v) = svDevice v"
proof -
  have rate: "rate_ok (fdiv (byte_delta a b) t)" if "flt (Fin 0) t" for a b
    using fdiv_rate byte_delta_bounds that assms(2) by (auto simp: elapsed_ok_def)
  show "volume_ok (volume_rates lowerU at0 old new t v)"
    using assms(1) rate
    by (cases "storageCounterForVolume lowerU v new"; cases "storageCounterForVolume lowerU v old")
      (simp_all add: volume_rates_def volume_ok_def Let_def)
  show "svMountPoint (volume_rates lowerU at0 old new t v) = svMountPoint v"
    "svDevice (volume_rates lowerU at0 old new t v) = svDevice v"
    by (simp_all add: volume_rates_def Let_def split: option.split)
qed

lemma volume_health_ok:
  assumes "volume_ok v" and "cache_ok cache" and "volume_health env i v cache = (v', cache')"
  shows "volume_ok v' \<and> cache_ok cache' \<and> svMountPoint v' = svMountPoint v"
proof (cases "seGOOS env = ''linux''")
  case True
  obtain h c qs where r:
    "readStorageHealth (seGOOS env) (seView env) (seClock env i) (seSmartctl env i) (svDevice v) cache = (h, c, qs)"
    by (metis prod_cases3)
  with readStorageHealth_ok [OF assms(2) r] True assms show ?thesis
    by (auto simp: volume_health_def volume_ok_def health_ok_def)
next
  case False
  with assms show ?thesis by (simp add: volume_health_def)
qed

abbreviation mount_key :: "(bytes \<Rightarrow> bytes) \<Rightarrow> StorageVolume \<Rightarrow> bytes" where
  "mount_key lowerU v \<equiv> ToLower lowerU (Clean (svMountPoint v))"

lemma volume_loop_ok:
  assumes "\<And>v. volume_ok v \<Longrightarrow> volume_ok (rates v) \<and> svMountPoint (rates v) = svMountPoint v"
    and "cache_ok cache" and "volume_loop lowerU env rates i ps seen cache = (vs, cache')"
  shows "list_all volume_ok vs \<and> cache_ok cache' \<and> distinct (map (mount_key lowerU) vs) \<and>
    set (map (mount_key lowerU) vs) \<inter> seen = {}"
  using assms(2,3)
proof (induction ps arbitrary: i seen cache vs cache')
  case (Cons p ps)
  let ?mount = "TrimSpace (ptMountpoint p)"
  let ?key = "ToLower lowerU (Clean ?mount)"
  show ?case
  proof (cases "?mount = [] \<or> ?key \<in> seen")
    case True
    with Cons.prems Cons.IH [of cache "Suc i" seen] show ?thesis by (simp add: Let_def)
  next
    case fresh: False
    show ?thesis
    proof (cases "seUsage env ?mount = None \<or> usTotal (the (seUsage env ?mount)) = 0")
      case True
      with fresh Cons.prems(2) have "volume_loop lowerU env rates (Suc i) ps (insert ?key seen) cache = (vs, cache')"
        by (cases "seUsage env ?mount") (simp_all add: Let_def)
      from Cons.IH [OF Cons.prems(1) this] show ?thesis by auto
    next
      case False
      then obtain u where u: "seUsage env ?mount = Some u" "usTotal u \<noteq> 0" by auto
      let ?v = "rates (new_volume lowerU (seGOOS env) (seView env) ?mount p u)"
      have v: "volume_ok ?v" "svMountPoint ?v = ?mount"
        using assms(1) new_volume_fields u(2) by simp_all
      obtain w c where w: "volume_health env i ?v cache = (w, c)" by fastforce
      note ok = volume_health_ok [OF v(1) Cons.prems(1) w]
      obtain ws c' where ws: "volume_loop lowerU env rates (Suc i) ps (insert ?key seen) c = (ws, c')" by fastforce
      have "vs = w # ws" "cache' = c'" using fresh u w ws Cons.prems(2) by (simp_all add: Let_def)
      with Cons.IH [OF _ ws] ok v fresh show ?thesis by auto
    qed
  qed
qed simp

lemma collect_ok:
  assumes "cache_ok (stHealth st)" and "collectStorageVolumes lowerU env st = (vs, st')"
  shows "list_all volume_ok vs \<and> cache_ok (stHealth st') \<and> distinct (map (mount_key lowerU) vs)"
proof (cases "sePartitions env")
  case None
  with assms show ?thesis by (simp add: collectStorageVolumes_def)
next
  case (Some ps)
  define t where "t = (let secs = (case stAt st of Some since \<Rightarrow> Seconds (time_Sub (seNow env) since) | None \<Rightarrow> Fin 0)
    in if fle secs (Fin 0) then Fin 0 else secs)"
  have "- (2 ^ 63) \<le> time_Sub a b" "time_Sub a b < 2 ^ 63" for a b by (simp_all add: time_Sub_def)
  then have t: "elapsed_ok t"
    using elapsed_bounds by (auto simp: t_def elapsed_ok_def Let_def split: option.split)
  let ?rates = "volume_rates lowerU (stAt st) (stCounters st) (normalize_counters lowerU (seCounters env)) t"
  obtain ws c where loop: "volume_loop lowerU env ?rates 0 ps {} (stHealth st) = (ws, c)" by fastforce
  have "vs = ws" "stHealth st' = c"
    using assms(2) loop by (auto simp: collectStorageVolumes_def Some Let_def t_def)
  with volume_loop_ok [OF _ assms(1) loop] volume_rates_ok(1,2) [OF _ t] show ?thesis by blast
qed

subsection \<open>Repeated collections\<close>

definition initStorage :: storage_state where
  "initStorage = \<lparr>stAt = None, stCounters = Map.empty, stHealth = Map.empty\<rparr>"

fun storage_run :: "(bytes \<Rightarrow> bytes) \<Rightarrow> storage_env list \<Rightarrow> storage_state \<Rightarrow> StorageVolume list list" where
  "storage_run lowerU [] st = []"
| "storage_run lowerU (env # envs) st =
     (case collectStorageVolumes lowerU env st of (vs, st') \<Rightarrow> vs # storage_run lowerU envs st')"

definition report_ok :: "(bytes \<Rightarrow> bytes) \<Rightarrow> StorageVolume list \<Rightarrow> bool" where
  "report_ok lowerU vs = (list_all volume_ok vs \<and> distinct (map (mount_key lowerU) vs))"

lemma storage_run_ok: "cache_ok (stHealth st) \<Longrightarrow> list_all (report_ok lowerU) (storage_run lowerU envs st)"
proof (induction envs arbitrary: st)
  case (Cons env envs)
  obtain vs st' where c: "collectStorageVolumes lowerU env st = (vs, st')" by fastforce
  from collect_ok [OF Cons.prems c] Cons.IH [of st'] show ?case by (simp add: c report_ok_def)
qed simp

text \<open>C35: however often the volumes are collected, and whatever gopsutil, sysfs and \<open>smartctl\<close> return, every report
  lists each mount point once, with a size that is not zero, finite rates that are not negative, a temperature between
  -20 and 125 degrees and a health between 0 and 100 percent, where they are given.\<close>

theorem storage_reports_are_sound: "list_all (report_ok lowerU) (storage_run lowerU envs initStorage)"
  by (rule storage_run_ok) (simp add: initStorage_def cache_ok_def)

subsection \<open>Spacing of queries\<close>

record health_call =
  hcNow :: int
  hcView :: os_view
  hcSmartctl :: "bytes \<Rightarrow> smart_run"
  hcDevice :: bytes

text \<open>The runs of \<open>smartctl\<close> that a sequence of calls makes: their times and devices.\<close>

fun health_calls :: "bytes \<Rightarrow> health_call list \<Rightarrow> health_cache \<Rightarrow> (int \<times> bytes) list" where
  "health_calls goos [] cache = []"
| "health_calls goos (c # cs) cache =
     (case readStorageHealth goos (hcView c) (hcNow c) (hcSmartctl c) (hcDevice c) cache of
        (_, cache', qs) \<Rightarrow> map (Pair (hcNow c)) qs @ health_calls goos cs cache')"

definition spaced :: "int \<times> bytes \<Rightarrow> int \<times> bytes \<Rightarrow> bool" where
  "spaced a b = (snd a = snd b \<longrightarrow> fst a + 30 * second \<le> fst b)"

lemma readStorageHealth_cases:
  assumes "readStorageHealth goos v now smartctl device cache = (r, cache', qs)"
  shows "(cache' = cache \<and> qs = []) \<or>
    (\<exists>p. qs = [p] \<and> cache' = cache(p \<mapsto> (now, r)) \<and> (\<forall>t h. cache p = Some (t, h) \<longrightarrow> t + 30 * second \<le> now))"
proof -
  have sub: "\<not> time_Sub now t < 30 * second \<longleftrightarrow> t + 30 * second \<le> now" for t
    by (auto simp: time_Sub_def)
  show ?thesis
  proof (cases "cache (linuxPhysicalDevice goos v device)")
    case None
    with assms show ?thesis by (auto simp: readStorageHealth_def Let_def split: if_splits)
  next
    case (Some e)
    moreover obtain t h where "e = (t, h)" by fastforce
    ultimately show ?thesis
      using assms sub by (auto simp: readStorageHealth_def Let_def split: if_splits)
  qed
qed

lemma health_calls_spaced:
  "sorted_wrt spaced (health_calls goos cs cache) \<and>
   (\<forall>(t, p) \<in> set (health_calls goos cs cache). \<forall>t0 h. cache p = Some (t0, h) \<longrightarrow> t0 + 30 * second \<le> t)"
proof (induction cs arbitrary: cache)
  case (Cons c cs)
  obtain r cache' qs where r:
    "readStorageHealth goos (hcView c) (hcNow c) (hcSmartctl c) (hcDevice c) cache = (r, cache', qs)"
    by (metis prod_cases3)
  from readStorageHealth_cases [OF r] show ?case
  proof
    assume "cache' = cache \<and> qs = []"
    with Cons.IH [of cache] r show ?thesis by simp
  next
    assume "\<exists>p. qs = [p] \<and> cache' = cache(p \<mapsto> (hcNow c, r)) \<and> (\<forall>t h. cache p = Some (t, h) \<longrightarrow> t + 30 * second \<le> hcNow c)"
    then obtain p where p: "qs = [p]" "cache' = cache(p \<mapsto> (hcNow c, r))"
      "\<And>t h. cache p = Some (t, h) \<Longrightarrow> t + 30 * second \<le> hcNow c" by blast
    let ?log = "health_calls goos cs cache'"
    have later: "t0 + 30 * second \<le> t" if "(t, q) \<in> set ?log" "cache' q = Some (t0, h)" for t q t0 h
      using Cons.IH [of cache'] that by fastforce
    have all: "t0 + 30 * second \<le> t" if "(t, q) \<in> set ?log" "cache q = Some (t0, h)" for t q t0 h
    proof (cases "q = p")
      case True
      with p later [OF that(1)] that(2) show ?thesis by fastforce
    next
      case False
      with p later [OF that(1)] that(2) show ?thesis by simp
    qed
    have "\<forall>e \<in> set ?log. spaced (hcNow c, p) e"
      using later p(2) by (fastforce simp: spaced_def)
    then show ?thesis using Cons.IH [of cache'] r p(1,3) all by auto
  qed
qed simp

text \<open>However often the health of devices is asked for, two runs of \<open>smartctl\<close> on the same device are at least
  thirty seconds apart: failures are cached like answers.\<close>

theorem smartctl_runs_are_spaced:
  "sorted_wrt (\<lambda>(t, p) (t', p'). p = p' \<longrightarrow> t + 30 * second \<le> t') (health_calls goos cs Map.empty)"
  using health_calls_spaced [of goos cs Map.empty] by (simp add: spaced_def [abs_def] split_def)

definition demoDisk :: os_view where
  "demoDisk = \<lparr>osGetenv = \<lambda>_. [], osReadFile = \<lambda>_. None, osStat = \<lambda>p. p = ''/sys/class/block/sda'', osOpenWrite = \<lambda>_. False,
     osEvalSymlinks = \<lambda>_. None, osReadlink = \<lambda>_. None, osGlob = \<lambda>_. None, osWriteErr = \<lambda>_. None\<rparr>"

definition demoCall :: "int \<Rightarrow> health_call" where
  "demoCall t = \<lparr>hcNow = t, hcView = demoDisk, hcSmartctl = \<lambda>_. SmTimeout, hcDevice = ''/dev/sda1''\<rparr>"

theorem smartctl_runs_are_spaced_witness:
  "health_calls ''linux'' [demoCall 0, demoCall (29 * second), demoCall (30 * second)] Map.empty
     = [(0, ''/dev/sda''), (30 * second, ''/dev/sda'')]
   \<and> sorted_wrt (\<lambda>(t, p) (t', p'). p = p' \<longrightarrow> t + 30 * second \<le> t')
       (health_calls ''linux'' [demoCall 0, demoCall (29 * second), demoCall (30 * second)] Map.empty)"
proof -
  have "linuxPhysicalDevice ''linux'' demoDisk ''/dev/sda1'' = ''/dev/sda''" by code_simp
  then have "health_calls ''linux'' [demoCall 0, demoCall (29 * second), demoCall (30 * second)] Map.empty
      = [(0, ''/dev/sda''), (30 * second, ''/dev/sda'')]"
    by (simp add: demoCall_def readStorageHealth_def time_Sub_def Let_def)
  then show ?thesis
    using smartctl_runs_are_spaced [of "''linux''" "[demoCall 0, demoCall (29 * second), demoCall (30 * second)]"]
    by blast
qed

lemma parse_healthy:
  "shStatus (parseSmartctlReport data) = ''healthy'' \<longleftrightarrow>
   (\<exists>r. decode_report data = Some r \<and> srPassed r = Some True \<and>
      (case srPercentageUsed r of None \<Rightarrow> True | Some u \<Rightarrow> \<not> (fle (Fin 100) u \<and> fle u (Fin 1000))))"
proof (cases "decode_report data")
  case None
  then show ?thesis by (simp add: parseSmartctlReport_def no_health_def)
next
  case (Some r)
  have temp: "shStatus (report_temperature t x) = shStatus x" for t x
    by (cases t) (simp_all add: report_temperature_def)
  have over: "shStatus (overall_status p (no_health a b)) = ''healthy'' \<longleftrightarrow> p = Some True" for p a b
    by (cases p rule: option.exhaust; cases "the p") (auto simp: overall_status_def no_health_def)
  have low: "fle (Fin 100) u \<Longrightarrow> fle (Fin 0) u" for u
    by (rule fle_trans [of _ "Fin 100"]) simp_all
  show ?thesis
    by (cases "srPercentageUsed r")
      (auto simp: parseSmartctlReport_def Some wear_status_def Let_def temp over low)
qed

end
