(* ===== verification/PowerModeWindows.thy ===== *)
theory PowerModeWindows
  imports PowerMode "HOL-Library.Word"
begin

text \<open>
  Power modes on Windows (\<open>power_mode_windows.go\<close>).  The procedures of \<open>powrprof.dll\<close> are a parameter: the
  record \<open>winapi\<close> says what looking up, getting and setting return, and how the system changes on the way.
  Other programs may change a mode between two calls.  Every call is logged.

  Shown here: a request changes only the supply it names; nothing is written before both modes were read; the
  change is reported as done only after it was read back; and the second write, if there is one, restores the
  mode that was read before.
\<close>

record powerModeGUID =
  Data1 :: "32 word"
  Data2 :: "16 word"
  Data3 :: "16 word"
  Data4 :: "8 word list"

definition powerEfficiencyGUID :: powerModeGUID where
  "powerEfficiencyGUID = \<lparr>Data1 = 0x961cc777, Data2 = 0x2547, Data3 = 0x4f9d,
     Data4 = [0x81, 0x74, 0x7d, 0x86, 0x18, 0x1b, 0x8a, 0x7a]\<rparr>"

definition powerBalancedGUID :: powerModeGUID where
  "powerBalancedGUID = \<lparr>Data1 = 0, Data2 = 0, Data3 = 0, Data4 = [0, 0, 0, 0, 0, 0, 0, 0]\<rparr>"

definition powerPerformanceGUID :: powerModeGUID where
  "powerPerformanceGUID = \<lparr>Data1 = 0xded574b5, Data2 = 0x45a0, Data3 = 0x4f42,
     Data4 = [0x87, 0x37, 0x46, 0x34, 0x5c, 0x09, 0xc2, 0x38]\<rparr>"

definition powerModeGUIDForValue :: "float64 \<Rightarrow> powerModeGUID res" where
  "powerModeGUIDForValue value =
     (if feq value powerModeBalanced then Inr powerBalancedGUID
      else if feq value powerModeEfficiency then Inr powerEfficiencyGUID
      else if feq value powerModePerformance then Inr powerPerformanceGUID
      else Inl ''unsupported power mode value'')"

definition powerModeNameFromGUID :: "powerModeGUID \<Rightarrow> bytes" where
  "powerModeNameFromGUID value =
     (if value = powerBalancedGUID then ''Balanced''
      else if value = powerEfficiencyGUID then ''Best Power Efficiency''
      else if value = powerPerformanceGUID then ''Best Performance''
      else ''Unknown'')"

subsection \<open>The library\<close>

datatype power_supply = AC | DC

datatype proc = GetMode power_supply | SetMode power_supply

record 'w winapi =
  waFind :: "'w \<Rightarrow> proc \<Rightarrow> 'w \<times> gerr"
  waGet :: "'w \<Rightarrow> power_supply \<Rightarrow> 'w \<times> 64 word \<times> powerModeGUID"
  waSet :: "'w \<Rightarrow> power_supply \<Rightarrow> powerModeGUID \<Rightarrow> 'w \<times> 64 word"

datatype power_call = CFind proc gerr | CGet power_supply "64 word" powerModeGUID | CSet power_supply powerModeGUID "64 word"

type_synonym ('w, 'a) win = "('w \<times> power_call list, 'a) state"

definition find_proc :: "'w winapi \<Rightarrow> proc \<Rightarrow> ('w, gerr) win" where
  "find_proc api p = State (\<lambda>(w, calls). case waFind api w p of (w', e) \<Rightarrow> (e, (w', calls @ [CFind p e])))"

definition call_get :: "'w winapi \<Rightarrow> power_supply \<Rightarrow> ('w, 64 word \<times> powerModeGUID) win" where
  "call_get api s = State (\<lambda>(w, calls). case waGet api w s of (w', r, g) \<Rightarrow> ((r, g), (w', calls @ [CGet s r g])))"

definition call_set :: "'w winapi \<Rightarrow> power_supply \<Rightarrow> powerModeGUID \<Rightarrow> ('w, 64 word) win" where
  "call_set api s g = State (\<lambda>(w, calls). case waSet api w s g of (w', r) \<Rightarrow> (r, (w', calls @ [CSet s g r])))"

fun find_procs :: "'w winapi \<Rightarrow> proc list \<Rightarrow> ('w, gerr) win" where
  "find_procs api [] = State_Monad.return nil"
| "find_procs api (p # ps) =
     State_Monad.bind (find_proc api p) (\<lambda>e.
       case e of
         Some m \<Rightarrow> State_Monad.return (Err (''Windows 11 power-mode API unavailable: '' @ m))
       | None \<Rightarrow> find_procs api ps)"

definition powerModeAPIsAvailable :: "'w winapi \<Rightarrow> ('w, gerr) win" where
  "powerModeAPIsAvailable api = find_procs api [GetMode AC, GetMode DC, SetMode AC, SetMode DC]"

subsection \<open>Reading\<close>

definition blankState :: PowerModeState where
  "blankState = \<lparr>pmSupported = False, pmPlatform = ''windows'', pmAC = ''Unknown'', pmDC = ''Unknown'', pmMessage = []\<rparr>"

definition read_failed :: "bytes \<Rightarrow> 64 word \<Rightarrow> bytes" where
  "read_failed what r = ''read configured '' @ what @ '' power mode failed with Windows error '' @ FormatInt (uint r)"

definition readWindowsPowerMode :: "'w winapi \<Rightarrow> ('w, PowerModeState \<times> gerr) win" where
  "readWindowsPowerMode api =
     State_Monad.bind (powerModeAPIsAvailable api) (\<lambda>err.
     case err of
       Some m \<Rightarrow> State_Monad.return
         (blankState\<lparr>pmMessage := ''Windows 11 power-mode APIs are unavailable on this system.''\<rparr>, Err m)
     | None \<Rightarrow>
         State_Monad.bind (call_get api AC) (\<lambda>(r, ac).
         if r \<noteq> 0 then State_Monad.return (blankState, Err (read_failed ''AC'' r))
         else State_Monad.bind (call_get api DC) (\<lambda>(r, dc).
         if r \<noteq> 0 then State_Monad.return (blankState, Err (read_failed ''DC'' r))
         else State_Monad.return
           (blankState\<lparr>pmSupported := True, pmAC := powerModeNameFromGUID ac, pmDC := powerModeNameFromGUID dc,
              pmMessage := ''Configured power modes read successfully; effective performance can still be overridden by Windows or firmware.''\<rparr>,
            nil))))"

definition describe_error :: "PowerModeState \<times> gerr \<Rightarrow> PowerModeState" where
  "describe_error r =
     (case r of
        (s, None) \<Rightarrow> s
      | (s, Some e) \<Rightarrow>
          (let s' = s\<lparr>pmSupported := False\<rparr> in if pmMessage s' = [] then s'\<lparr>pmMessage := e\<rparr> else s'))"

definition winGetPlatformPowerMode :: "'w winapi \<Rightarrow> ('w, PowerModeState) win" where
  "winGetPlatformPowerMode api =
     State_Monad.bind (readWindowsPowerMode api) (\<lambda>r. State_Monad.return (describe_error r))"

text \<open>\<open>return getPlatformPowerMode(), err\<close>\<close>

definition win_finish :: "'w winapi \<Rightarrow> bytes \<Rightarrow> ('w, PowerModeState \<times> gerr) win" where
  "win_finish api e = State_Monad.bind (winGetPlatformPowerMode api) (\<lambda>s. State_Monad.return (s, Err e))"

subsection \<open>Setting\<close>

definition supply_name :: "power_supply \<Rightarrow> bytes" where
  "supply_name s = (case s of AC \<Rightarrow> ''AC'' | DC \<Rightarrow> ''DC'')"

definition mode_of :: "power_supply \<Rightarrow> PowerModeState \<Rightarrow> bytes" where
  "mode_of s st = (case s of AC \<Rightarrow> pmAC st | DC \<Rightarrow> pmDC st)"

definition previous_value :: "bytes \<Rightarrow> float64 option" where
  "previous_value name =
     (if name = ''Balanced'' then Some powerModeBalanced
      else if name = ''Best Power Efficiency'' then Some powerModeEfficiency
      else if name = ''Best Performance'' then Some powerModePerformance
      else None)"

text \<open>The part after a readback that did not confirm the request; the ignored error of the
  lookup of a known mode leaves the zero value.\<close>

definition win_rollback ::
  "'w winapi \<Rightarrow> power_supply \<Rightarrow> PowerModeState \<Rightarrow> PowerModeState \<times> gerr \<Rightarrow> ('w, PowerModeState \<times> gerr) win" where
  "win_rollback api s before readback =
     (case previous_value (mode_of s before) of
        None \<Rightarrow> State_Monad.return (fst readback,
          Err ''power mode readback did not confirm the requested state; prior mode unknown, manual verification required'')
      | Some previousValue \<Rightarrow>
          State_Monad.bind
            (call_set api s (case powerModeGUIDForValue previousValue of Inr g \<Rightarrow> g | Inl _ \<Rightarrow> powerBalancedGUID)) (\<lambda>_.
          case snd readback of
            Some e \<Rightarrow> win_finish api (''power mode readback failed; attempted to restore previous '' @ supply_name s @ '' setting: '' @ e)
          | None \<Rightarrow> win_finish api (''power mode readback did not match requested '' @ supply_name s @
              '' setting; attempted to restore previous setting'')))"

definition set_supply :: "'w winapi \<Rightarrow> power_supply \<Rightarrow> powerModeGUID \<Rightarrow> ('w, PowerModeState \<times> gerr) win" where
  "set_supply api s target =
     State_Monad.bind (readWindowsPowerMode api) (\<lambda>(before, err).
     if err \<noteq> nil \<or> \<not> pmSupported before then
       State_Monad.return (before, if err = nil then Err ''Windows power-mode control is unsupported'' else err)
     else
       State_Monad.bind (call_set api s target) (\<lambda>r.
       if r \<noteq> 0 then win_finish api (''set configured '' @ supply_name s @ '' power mode failed with Windows error '' @ FormatInt (uint r))
       else State_Monad.bind (readWindowsPowerMode api) (\<lambda>readback.
         if snd readback = nil \<and> mode_of s (fst readback) = powerModeNameFromGUID target then
           State_Monad.return ((fst readback)\<lparr>pmMessage := supply_name s @
             '' configured power mode applied and read back. Windows may still override effective performance.''\<rparr>, nil)
         else win_rollback api s before readback)))"

definition winSetPlatformPowerMode :: "'w winapi \<Rightarrow> bytes \<Rightarrow> float64 \<Rightarrow> ('w, PowerModeState \<times> gerr) win" where
  "winSetPlatformPowerMode api supply value =
     (if supply \<noteq> ''AC'' \<and> supply \<noteq> ''DC'' then win_finish api ''power supply must be AC or DC''
      else (case powerModeGUIDForValue value of
        Inl e \<Rightarrow> win_finish api e
      | Inr target \<Rightarrow> set_supply api (if supply = ''DC'' then DC else AC) target))"

subsection \<open>Modes and their names\<close>

lemma guids_distinct [simp]:
  "powerBalancedGUID \<noteq> powerEfficiencyGUID" "powerBalancedGUID \<noteq> powerPerformanceGUID"
  "powerEfficiencyGUID \<noteq> powerPerformanceGUID" "powerEfficiencyGUID \<noteq> powerBalancedGUID"
  "powerPerformanceGUID \<noteq> powerBalancedGUID" "powerPerformanceGUID \<noteq> powerEfficiencyGUID"
  by (simp_all add: powerBalancedGUID_def powerEfficiencyGUID_def powerPerformanceGUID_def)

lemma GUIDForValue_known:
  "powerModeGUIDForValue x = Inr g \<Longrightarrow> g \<in> {powerBalancedGUID, powerEfficiencyGUID, powerPerformanceGUID}"
  by (auto simp: powerModeGUIDForValue_def split: if_splits)

lemma name_known:
  "t \<in> {powerBalancedGUID, powerEfficiencyGUID, powerPerformanceGUID} \<Longrightarrow>
   powerModeNameFromGUID g = powerModeNameFromGUID t \<longleftrightarrow> g = t"
  by (auto simp: powerModeNameFromGUID_def split: if_splits)

text \<open>The mode written by a rollback is the one whose name was read.\<close>

lemma previous_value_guid:
  "previous_value (powerModeNameFromGUID g) = Some x \<Longrightarrow> powerModeGUIDForValue x = Inr g"
  by (auto simp: previous_value_def powerModeNameFromGUID_def powerModeGUIDForValue_def powerModeBalanced_def
      powerModeEfficiency_def powerModePerformance_def feq_def split: if_splits)

subsection \<open>The log\<close>

fun set_calls :: "power_call list \<Rightarrow> (power_supply \<times> powerModeGUID \<times> 64 word) list" where
  "set_calls [] = []"
| "set_calls (CSet s g r # cs) = (s, g, r) # set_calls cs"
| "set_calls (CGet _ _ _ # cs) = set_calls cs"
| "set_calls (CFind _ _ # cs) = set_calls cs"

lemma set_calls_append [simp]: "set_calls (xs @ ys) = set_calls xs @ set_calls ys"
  by (induction xs rule: set_calls.induct) simp_all

lemma run_find: "run_state (find_proc api p) (w, calls) = (snd (waFind api w p), (fst (waFind api w p), calls @ [CFind p (snd (waFind api w p))]))"
  by (simp add: find_proc_def split: prod.split)

lemma run_get: "run_state (call_get api s) (w, calls) =
  (snd (waGet api w s), (fst (waGet api w s), calls @ [CGet s (fst (snd (waGet api w s))) (snd (snd (waGet api w s)))]))"
  by (simp add: call_get_def split: prod.split)

lemma run_set: "run_state (call_set api s g) (w, calls) =
  (snd (waSet api w s g), (fst (waSet api w s g), calls @ [CSet s g (snd (waSet api w s g))]))"
  by (simp add: call_set_def split: prod.split)

lemmas win_run = run_find run_get run_set run_state_bind run_state_return

lemma find_procs_log:
  "\<exists>e w' cs. run_state (find_procs api ps) (w, calls) = (e, (w', calls @ cs)) \<and> set_calls cs = []"
proof (induction ps arbitrary: w calls)
  case Nil
  show ?case by (simp add: win_run)
next
  case (Cons p ps)
  obtain w1 e1 where f: "waFind api w p = (w1, e1)" by fastforce
  show ?case
  proof (cases e1)
    case None
    obtain e w' cs where "run_state (find_procs api ps) (w1, calls @ [CFind p None]) = (e, (w', (calls @ [CFind p None]) @ cs))"
      "set_calls cs = []" using Cons.IH [of w1 "calls @ [CFind p None]"] by blast
    with f None show ?thesis by (auto simp: win_run intro!: exI [of _ "CFind p None # cs"])
  next
    case (Some m)
    with f show ?thesis by (auto simp: win_run)
  qed
qed

text \<open>What a read leaves in the log, and what it says when it succeeds.\<close>

definition read_ok :: "power_call list \<Rightarrow> PowerModeState \<Rightarrow> bool" where
  "read_ok cs st \<longleftrightarrow> pmSupported st \<and>
     (\<exists>ac dc. CGet AC 0 ac \<in> set cs \<and> CGet DC 0 dc \<in> set cs \<and>
        pmAC st = powerModeNameFromGUID ac \<and> pmDC st = powerModeNameFromGUID dc)"

lemma read_log:
  "\<exists>st e w' cs. run_state (readWindowsPowerMode api) (w, calls) = ((st, e), (w', calls @ cs)) \<and>
     set_calls cs = [] \<and> (e = nil \<longrightarrow> read_ok cs st)"
proof -
  obtain e1 w1 cs1 where f: "run_state (powerModeAPIsAvailable api) (w, calls) = (e1, (w1, calls @ cs1))" "set_calls cs1 = []"
    using find_procs_log [of api "[GetMode AC, GetMode DC, SetMode AC, SetMode DC]" w calls]
    unfolding powerModeAPIsAvailable_def by blast
  obtain w2 r2 ac where g: "waGet api w1 AC = (w2, r2, ac)" by (metis prod_cases3)
  obtain w3 r3 dc where h: "waGet api w2 DC = (w3, r3, dc)" by (metis prod_cases3)
  consider (api) m where "e1 = Some m" | (ac) "e1 = None" "r2 \<noteq> 0" | (dc) "e1 = None" "r2 = 0" "r3 \<noteq> 0"
    | (ok) "e1 = None" "r2 = 0" "r3 = 0" by (cases e1) auto
  then show ?thesis
  proof cases
    case ok
    with f g h show ?thesis
      by (auto simp: readWindowsPowerMode_def win_run read_ok_def intro!: exI [of _ "cs1 @ [CGet AC 0 ac, CGet DC 0 dc]"])
  qed (use f g h in \<open>auto simp: readWindowsPowerMode_def win_run\<close>)
qed

lemma finish_log:
  "\<exists>st w' cs. run_state (win_finish api e) (w, calls) = ((st, Err e), (w', calls @ cs)) \<and> set_calls cs = []"
proof -
  obtain st e' w' cs where "run_state (readWindowsPowerMode api) (w, calls) = ((st, e'), (w', calls @ cs))" "set_calls cs = []"
    using read_log [of api w calls] by blast
  then show ?thesis by (auto simp: win_finish_def winGetPlatformPowerMode_def win_run)
qed

lemma read_ok_mode: "read_ok cs st \<Longrightarrow> \<exists>g. CGet s 0 g \<in> set cs \<and> mode_of s st = powerModeNameFromGUID g"
  by (cases s) (auto simp: read_ok_def mode_of_def)

lemma rollback_calls:
  assumes "read_ok pre before"
  shows "\<exists>st e w' cs. run_state (win_rollback api s before readback) (w, calls) = ((st, Err e), (w', calls @ cs)) \<and>
    (set_calls cs = [] \<or> (\<exists>g r. set_calls cs = [(s, g, r)] \<and> CGet s 0 g \<in> set pre))"
proof (cases "previous_value (mode_of s before)")
  case None
  then show ?thesis by (auto simp: win_rollback_def win_run)
next
  case (Some x)
  obtain g where g: "CGet s 0 g \<in> set pre" "mode_of s before = powerModeNameFromGUID g" using read_ok_mode [OF assms] by blast
  have v: "powerModeGUIDForValue x = Inr g" using Some g(2) previous_value_guid by simp
  obtain w1 r where c: "waSet api w s g = (w1, r)" by fastforce
  obtain m where m: "run_state (win_rollback api s before readback) (w, calls) = run_state (win_finish api m) (w1, calls @ [CSet s g r])"
    by (cases "snd readback") (simp_all add: win_rollback_def Some v c win_run)
  obtain st w' cs where "run_state (win_finish api m) (w1, calls @ [CSet s g r]) = ((st, Err m), (w', (calls @ [CSet s g r]) @ cs))"
    "set_calls cs = []" using finish_log [of api m w1 "calls @ [CSet s g r]"] by blast
  with g(1) show ?thesis by (auto simp: m intro!: exI [of _ "CSet s g r # cs"])
qed

subsection \<open>The protocol\<close>

text \<open>The shape of the log of a request to set the mode of \<open>s\<close> to \<open>target\<close>, given its error.\<close>

definition win_log_ok :: "power_supply \<Rightarrow> powerModeGUID \<Rightarrow> gerr \<Rightarrow> power_call list \<Rightarrow> bool" where
  "win_log_ok s target err calls \<longleftrightarrow>
     (set_calls calls = [] \<and> err \<noteq> nil) \<or>
     (\<exists>pre r post. calls = pre @ CSet s target r # post \<and> set_calls pre = [] \<and>
        (\<exists>st. read_ok pre st) \<and>
        ((set_calls post = [] \<and> (err = nil \<longrightarrow> r = 0 \<and> CGet s 0 target \<in> set post)) \<or>
         (\<exists>g r'. set_calls post = [(s, g, r')] \<and> CGet s 0 g \<in> set pre \<and> r = 0 \<and> err \<noteq> nil)))"

lemma set_supply_log:
  assumes "target \<in> {powerBalancedGUID, powerEfficiencyGUID, powerPerformanceGUID}"
  shows "win_log_ok s target (snd (fst (run_state (set_supply api s target) (w, []))))
    (snd (snd (run_state (set_supply api s target) (w, []))))"
proof -
  obtain before e1 w1 pre where a: "run_state (readWindowsPowerMode api) (w, []) = ((before, e1), (w1, pre))"
    "set_calls pre = []" "e1 = nil \<Longrightarrow> read_ok pre before"
    using read_log [of api w "[]"] by auto
  show ?thesis
  proof (cases "e1 \<noteq> nil \<or> \<not> pmSupported before")
    case True
    with a show ?thesis by (auto simp: set_supply_def win_run win_log_ok_def)
  next
    case False
    then have ok: "read_ok pre before" using a by simp
    obtain w2 r where c: "waSet api w1 s target = (w2, r)" by fastforce
    let ?calls = "pre @ [CSet s target r]"
    show ?thesis
    proof (cases "r = 0")
      case r: True
      obtain after e3 w3 cs where b: "run_state (readWindowsPowerMode api) (w2, ?calls) = ((after, e3), (w3, ?calls @ cs))"
        "set_calls cs = []" "e3 = nil \<Longrightarrow> read_ok cs after"
        using read_log [of api w2 ?calls] by auto
      show ?thesis
      proof (cases "e3 = nil \<and> mode_of s after = powerModeNameFromGUID target")
        case True
        then obtain g where "CGet s 0 g \<in> set cs" "powerModeNameFromGUID g = powerModeNameFromGUID target"
          using b(3) read_ok_mode [of cs after s] by auto
        then have "CGet s 0 target \<in> set cs" using name_known [OF assms, of g] by simp
        with a b c r False True ok show ?thesis
          by (auto simp: set_supply_def win_run win_log_ok_def)
      next
        case unconfirmed: False
        obtain st e w' cs' where d: "run_state (win_rollback api s before (after, e3)) (w3, ?calls @ cs) =
            ((st, Err e), (w', (?calls @ cs) @ cs'))"
          "set_calls cs' = [] \<or> (\<exists>g r'. set_calls cs' = [(s, g, r')] \<and> CGet s 0 g \<in> set pre)"
          using rollback_calls [OF ok, of api s "(after, e3)" w3 "?calls @ cs"] by blast
        have "run_state (set_supply api s target) (w, []) = ((st, Err e), (w', (?calls @ cs) @ cs'))"
          using a(1) b(1) c r False unconfirmed d(1) by (auto simp: set_supply_def win_run)
        then show ?thesis using a(2) b(2) d(2) r ok
          by (auto simp: win_log_ok_def intro!: exI [of _ pre])
      qed
    next
      case r: False
      obtain m where "run_state (set_supply api s target) (w, []) = run_state (win_finish api m) (w2, ?calls)"
        using a c r False by (auto simp: set_supply_def win_run)
      moreover obtain st w' cs where "run_state (win_finish api m) (w2, ?calls) = ((st, Err m), (w', ?calls @ cs))" "set_calls cs = []"
        using finish_log [of api m w2 ?calls] by blast
      ultimately show ?thesis using a ok by (auto simp: win_log_ok_def)
    qed
  qed
qed

lemma win_set_log:
  fixes api :: "'w winapi" and w :: 'w
  assumes "powerModeGUIDForValue x = Inr target" and "supply = ''AC'' \<or> supply = ''DC''"
  defines "s \<equiv> (if supply = ''DC'' then DC else AC)"
  defines "run \<equiv> run_state (winSetPlatformPowerMode api supply x) (w, [])"
  shows "win_log_ok s target (snd (fst run)) (snd (snd run))"
    and "\<forall>c \<in> set (set_calls (snd (snd run))). fst c = s"
proof -
  have "run = run_state (set_supply api s target) (w, [])"
    using assms(1,2) by (auto simp: run_def s_def winSetPlatformPowerMode_def)
  with set_supply_log [OF GUIDForValue_known [OF assms(1)], of s api w]
  show "win_log_ok s target (snd (fst run)) (snd (snd run))" by simp
  then show "\<forall>c \<in> set (set_calls (snd (snd run))). fst c = s"
    by (auto simp: win_log_ok_def)
qed

text \<open>C34: a change of a Windows power mode follows the read, write, confirm protocol, whatever the system library
  answers: nothing is written unless both configured modes were read first; the first write sets the mode of the requested
  supply to the requested one; success is reported only when that mode was read back afterwards; a second write
  only restores the mode that was read for the same supply before, and is reported as an error; and the mode of the
  other supply is never written.\<close>

theorem windows_power_protocol:
  fixes api :: "'w winapi" and w :: 'w
  assumes "powerModeGUIDForValue x = Inr target" and "supply = ''AC'' \<or> supply = ''DC''"
  defines "s \<equiv> (if supply = ''DC'' then DC else AC)"
  defines "run \<equiv> run_state (winSetPlatformPowerMode api supply x) (w, [])"
  shows "win_log_ok s target (snd (fst run)) (snd (snd run)) \<and> (\<forall>c \<in> set (set_calls (snd (snd run))). fst c = s)"
  unfolding s_def run_def using win_set_log [OF assms(1,2), of api w] by blast

text \<open>A system that keeps what was set, and one that keeps the modes it had.\<close>

definition demoApi :: "bool \<Rightarrow> (power_supply \<Rightarrow> powerModeGUID) winapi" where
  "demoApi obeys = \<lparr>waFind = \<lambda>w _. (w, nil), waGet = \<lambda>w s. (w, 0, w s),
     waSet = \<lambda>w s g. (if obeys then w(s := g) else w, 0)\<rparr>"

theorem windows_power_protocol_witness:
  "win_log_ok DC powerPerformanceGUID
     (snd (fst (run_state (winSetPlatformPowerMode (demoApi False) ''DC'' (Fin 100)) (\<lambda>_. powerBalancedGUID, []))))
     (snd (snd (run_state (winSetPlatformPowerMode (demoApi False) ''DC'' (Fin 100)) (\<lambda>_. powerBalancedGUID, []))))
   \<and> snd (fst (run_state (winSetPlatformPowerMode (demoApi True) ''DC'' (Fin 100)) (\<lambda>_. powerBalancedGUID, []))) = nil"
proof -
  have v: "powerModeGUIDForValue (Fin 100) = Inr powerPerformanceGUID"
    by (simp add: powerModeGUIDForValue_def powerModeBalanced_def powerModeEfficiency_def powerModePerformance_def)
  have "snd (fst (run_state (winSetPlatformPowerMode (demoApi True) ''DC'' (Fin 100)) (\<lambda>_. powerBalancedGUID, []))) = nil"
    by (simp add: winSetPlatformPowerMode_def v set_supply_def readWindowsPowerMode_def powerModeAPIsAvailable_def
        demoApi_def win_run mode_of_def)
  with windows_power_protocol [OF v, of "''DC''" "demoApi False" "\<lambda>_. powerBalancedGUID"] show ?thesis by simp
qed

end
