(* ===== verification/WindowsTelemetry.thy ===== *)
theory WindowsTelemetry
  imports Unmarshal Metrics PowerModeWindows Execute
begin

text \<open>
  Telemetry on Windows: \<open>platform_metrics_windows.go\<close>, \<open>platform_battery_windows.go\<close> and
  \<open>driver_info_windows.go\<close>.  Each runs a fixed PowerShell script; its output is an input, \<open>None\<close> if the
  command failed or timed out.  With the fan backend and the power modes of Windows they make up the
  platform on which commands are executed.

  Shown here: only valid temperatures are taken over, a script that fails changes nothing, and on Windows
  no command writes to a fan.
\<close>

subsection \<open>Sensors\<close>

record windowsSensorMetrics =
  wsCPUTemperature :: float64
  wsGPUTemperature :: float64
  wsGPUUsage :: float64
  wsFanRPM :: float64
  wsPowerWatts :: float64
  wsVoltage :: float64
  wsGPUVendor :: bytes
  wsSensorSource :: bytes

definition noSensors :: windowsSensorMetrics where
  "noSensors = \<lparr>wsCPUTemperature = Fin 0, wsGPUTemperature = Fin 0, wsGPUUsage = Fin 0, wsFanRPM = Fin 0,
     wsPowerWatts = Fin 0, wsVoltage = Fin 0, wsGPUVendor = [], wsSensorSource = []\<rparr>"

definition sensor_fields :: "windowsSensorMetrics fields" where
  "sensor_fields =
     [(''cputemperature'', field wsCPUTemperature (\<lambda>x. wsCPUTemperature_update (\<lambda>_. x)) elem_float),
      (''gputemperature'', field wsGPUTemperature (\<lambda>x. wsGPUTemperature_update (\<lambda>_. x)) elem_float),
      (''gpuusage'', field wsGPUUsage (\<lambda>x. wsGPUUsage_update (\<lambda>_. x)) elem_float),
      (''fanrpm'', field wsFanRPM (\<lambda>x. wsFanRPM_update (\<lambda>_. x)) elem_float),
      (''powerwatts'', field wsPowerWatts (\<lambda>x. wsPowerWatts_update (\<lambda>_. x)) elem_float),
      (''voltage'', field wsVoltage (\<lambda>x. wsVoltage_update (\<lambda>_. x)) elem_float),
      (''gpuvendor'', field wsGPUVendor (\<lambda>x. wsGPUVendor_update (\<lambda>_. x)) elem_str),
      (''sensorsource'', field wsSensorSource (\<lambda>x. wsSensorSource_update (\<lambda>_. x)) elem_str)]"

definition unmarshal_struct :: "'s fields \<Rightarrow> 's \<Rightarrow> bytes \<Rightarrow> 's option" where
  "unmarshal_struct fs zero data =
     (case json_decode data of None \<Rightarrow> None | Some v \<Rightarrow> elem_struct False fs zero v)"

definition apply_sensors :: "windowsSensorMetrics \<Rightarrow> HardwareMetrics \<Rightarrow> HardwareMetrics" where
  "apply_sensors s m =
     (let m1 = (if flt (Fin 0) (wsCPUTemperature s) \<and> isValidTemperature (wsCPUTemperature s)
                then m\<lparr>CPUTemperature := wsCPUTemperature s, CPUTemperatureSource := wsSensorSource s\<rparr> else m);
          m2 = (if flt (Fin 0) (wsGPUTemperature s) \<and> isValidTemperature (wsGPUTemperature s)
                then m1\<lparr>GPUTemperature := wsGPUTemperature s, GPUTemperatureSource := wsSensorSource s\<rparr> else m1);
          m3 = (if flt (Fin 0) (wsGPUUsage s) then m2\<lparr>GPUUsage := wsGPUUsage s\<rparr> else m2);
          m4 = (if isFinitePositive (wsFanRPM s)
                then m3\<lparr>FanRPM := wsFanRPM s, FanRPMSource := wsSensorSource s\<rparr> else m3);
          m5 = (if flt (Fin 0) (wsPowerWatts s) then m4\<lparr>PowerWatts := wsPowerWatts s\<rparr> else m4);
          m6 = (if flt (Fin 0) (wsVoltage s) then m5\<lparr>Voltage := wsVoltage s\<rparr> else m5);
          m7 = (if wsGPUVendor s \<noteq> [] \<and> wsGPUVendor s \<noteq> ''unknown'' then m6\<lparr>GPUVendor := wsGPUVendor s\<rparr> else m6)
      in if wsSensorSource s \<noteq> [] then m7\<lparr>SensorSource := wsSensorSource s\<rparr> else m7)"

definition winMergePlatformMetrics :: "bytes option \<Rightarrow> HardwareMetrics \<Rightarrow> HardwareMetrics" where
  "winMergePlatformMetrics out m =
     (case out of
        None \<Rightarrow> m
      | Some output \<Rightarrow>
          if TrimSpace output = [] then m
          else (case unmarshal_struct sensor_fields noSensors output of
                  None \<Rightarrow> m
                | Some sensors \<Rightarrow> apply_sensors sensors m))"

subsection \<open>Battery\<close>

record windowsBatteryPayload =
  wbPresent :: bool
  wbStatus :: bytes
  wbDesign :: float64
  wbFull :: float64
  wbCycles :: int
  wbHasCycle :: bool

definition battery_fields :: "windowsBatteryPayload fields" where
  "battery_fields =
     [(''present'', field wbPresent (\<lambda>x. wbPresent_update (\<lambda>_. x)) elem_bool),
      (''status'', field wbStatus (\<lambda>x. wbStatus_update (\<lambda>_. x)) elem_str),
      (''designcapacity'', field wbDesign (\<lambda>x. wbDesign_update (\<lambda>_. x)) elem_float),
      (''fullchargecapacity'', field wbFull (\<lambda>x. wbFull_update (\<lambda>_. x)) elem_float),
      (''cyclecount'', field wbCycles (\<lambda>x. wbCycles_update (\<lambda>_. x)) elem_int),
      (''hascyclecount'', field wbHasCycle (\<lambda>x. wbHasCycle_update (\<lambda>_. x)) elem_bool)]"

definition noPayload :: windowsBatteryPayload where
  "noPayload = \<lparr>wbPresent = False, wbStatus = [], wbDesign = Fin 0, wbFull = Fin 0, wbCycles = 0, wbHasCycle = False\<rparr>"

text \<open>\<open>maxBatteryOutput\<close> is the limit written in the code.\<close>

definition maxBatteryOutput :: nat where
  "maxBatteryOutput = 64 * 1024"

definition winMergeBatteryMetrics :: "bytes option \<Rightarrow> HardwareMetrics \<Rightarrow> HardwareMetrics" where
  "winMergeBatteryMetrics out m =
     (let unavailable = m\<lparr>Battery := emptyBattery\<lparr>batStatus := ''unavailable''\<rparr>\<rparr> in
      case out of
        None \<Rightarrow> unavailable
      | Some output \<Rightarrow>
          if output = [] \<or> length output > maxBatteryOutput then unavailable
          else (case first_value output of
            None \<Rightarrow> unavailable
          | Some v \<Rightarrow>
              (case elem_struct True battery_fields noPayload v of
                 None \<Rightarrow> unavailable
               | Some p \<Rightarrow>
                   (let cycles = (if wbHasCycle p \<and> 0 \<le> wbCycles p \<and> wbCycles p \<le> 1000000 then Some (wbCycles p) else None)
                    in m\<lparr>Battery := makeBatteryMetrics (wbPresent p) (wbStatus p) (wbDesign p) (wbFull p) ''mWh'' cycles\<rparr>))))"

subsection \<open>Display driver\<close>

record windowsDriverInfo =
  wdProvider :: bytes
  wdVersion :: bytes
  wdName :: bytes
  wdSigned :: bool

definition driver_fields :: "windowsDriverInfo fields" where
  "driver_fields =
     [(''provider'', field wdProvider (\<lambda>x. wdProvider_update (\<lambda>_. x)) elem_str),
      (''version'', field wdVersion (\<lambda>x. wdVersion_update (\<lambda>_. x)) elem_str),
      (''name'', field wdName (\<lambda>x. wdName_update (\<lambda>_. x)) elem_str),
      (''signed'', field wdSigned (\<lambda>x. wdSigned_update (\<lambda>_. x)) elem_bool)]"

definition apply_driver :: "windowsDriverInfo \<Rightarrow> HardwareMetrics \<Rightarrow> HardwareMetrics" where
  "apply_driver info m =
     (let m1 = (if wdProvider info \<noteq> [] then m\<lparr>GPUDriverProvider := wdProvider info\<rparr> else m);
          m2 = (if wdVersion info \<noteq> [] then m1\<lparr>GPUDriverVersion := wdVersion info\<rparr> else m1);
          m3 = (if GPUDriver m2 = [] then m2\<lparr>GPUDriver := wdProvider info\<rparr> else m2);
          m4 = (if wdName info \<noteq> [] \<and> GPUName m3 = [] then m3\<lparr>GPUName := wdName info\<rparr> else m3);
          m5 = m4\<lparr>GPUDriverStatus := ''ok'', GPUDriverSource := ''Windows PnP''\<rparr>
      in if \<not> wdSigned info then m5\<lparr>GPUDriverStatus := ''unsigned''\<rparr> else m5)"

definition winMergeDriverInfo :: "bytes option \<Rightarrow> HardwareMetrics \<Rightarrow> HardwareMetrics" where
  "winMergeDriverInfo out m =
     (if out = None \<or> TrimSpace (the out) = [] then
        (if GPUDriverStatus m = [] then m\<lparr>GPUDriverStatus := ''unavailable''\<rparr> else m)\<lparr>GPUDriverSource := ''Windows PnP''\<rparr>
      else (case unmarshal_struct driver_fields \<lparr>wdProvider = [], wdVersion = [], wdName = [], wdSigned = False\<rparr> (the out) of
              None \<Rightarrow> m
            | Some info \<Rightarrow> apply_driver info m))"

subsection \<open>The platform\<close>

text \<open>The view of a call is the output of its PowerShell script.\<close>

definition windows_platform :: "'w winapi \<Rightarrow> (bytes option, 'w \<times> power_call list) platform" where
  "windows_platform api = \<lparr>plFan = windows_ops, plMerge = winMergePlatformMetrics,
     plPower = (\<lambda>supply x. run_state (winSetPlatformPowerMode api supply x)),
     plGetPower = run_state (winGetPlatformPowerMode api)\<rparr>"

subsection \<open>What the scripts can change\<close>

text \<open>A temperature that a script reports is taken over only when it is valid and positive.\<close>

definition sound_reading :: "float64 \<Rightarrow> bool" where
  "sound_reading t = (isValidTemperature t \<and> flt (Fin 0) t)"

lemma apply_sensors_temperatures:
  "CPUTemperature (apply_sensors s m) = CPUTemperature m \<or> sound_reading (CPUTemperature (apply_sensors s m))"
  "GPUTemperature (apply_sensors s m) = GPUTemperature m \<or> sound_reading (GPUTemperature (apply_sensors s m))"
  by (simp_all add: apply_sensors_def Let_def sound_reading_def)

lemma winMerge_temperatures:
  "CPUTemperature (winMergePlatformMetrics out m) = CPUTemperature m \<or> sound_reading (CPUTemperature (winMergePlatformMetrics out m))"
  "GPUTemperature (winMergePlatformMetrics out m) = GPUTemperature m \<or> sound_reading (GPUTemperature (winMergePlatformMetrics out m))"
  by (simp_all add: winMergePlatformMetrics_def apply_sensors_temperatures split: option.split)

lemma winBattery_cycles:
  "batCycleCount (Battery (winMergeBatteryMetrics out m)) = Some n \<Longrightarrow> 0 \<le> n \<and> n \<le> 1000000"
  by (auto simp: winMergeBatteryMetrics_def makeBatteryMetrics_def emptyBattery_def Let_def split: option.splits if_splits)

subsection \<open>Power modes as commands\<close>

lemma GUIDForValue_valid: "validatePowerModeRequest a x = nil \<Longrightarrow> \<exists>target. powerModeGUIDForValue x = Inr target"
  by (auto simp: validatePowerModeRequest_def powerModeName_def powerModeGUIDForValue_def split: if_splits)

lemma execute_power:
  assumes "cAction cmd \<in> {''Set Power Mode AC'', ''Set Power Mode DC''}"
  shows "executeHardwareCommand lowerU pl env cmd st =
    (if panicModeActive (xePanicFile env) then (Err panicDenied, [], st)
     else case validatePowerModeRequest (cAction cmd) (cValue cmd) of
            Some e \<Rightarrow> (Err e, [], st)
          | None \<Rightarrow> set_power pl (if cAction cmd = ''Set Power Mode DC'' then ''DC'' else ''AC'') (cValue cmd) st)"
  using assms by (auto simp: executeHardwareCommand_def Let_def actFan_def actAI_def)

text \<open>A power-mode command on Windows changes at most the configured mode of the supply it names, and nothing else:
  no file is written, the game mode stays, and the system library is not called at all in panic mode or for a value that
  is not a mode.  It is answered with success only when the requested mode was read back.\<close>

theorem windows_power_command:
  fixes api :: "'w winapi" and w :: 'w and lowerU env g
  assumes "cAction cmd \<in> {''Set Power Mode AC'', ''Set Power Mode DC''}"
  defines "s \<equiv> (if cAction cmd = ''Set Power Mode DC'' then DC else AC)"
  defines "r \<equiv> executeHardwareCommand lowerU (windows_platform api) env cmd \<lparr>esGameMode = g, esPower = (w, [])\<rparr>"
  defines "calls \<equiv> snd (esPower (snd (snd r)))"
  shows "fst (snd r) = [] \<and> esGameMode (snd (snd r)) = g \<and> list_all (\<lambda>c. fst c = s) (set_calls calls) \<and>
    (calls = [] \<or> (\<not> panicModeActive (xePanicFile env) \<and> powerModeName (cValue cmd) \<noteq> None)) \<and>
    (fst r \<noteq> nil \<or> (\<exists>target. powerModeGUIDForValue (cValue cmd) = Inr target \<and> CGet s 0 target \<in> set calls))"
proof (cases "panicModeActive (xePanicFile env) \<or> validatePowerModeRequest (cAction cmd) (cValue cmd) \<noteq> nil")
  case True
  then show ?thesis by (auto simp: r_def calls_def execute_power [OF assms(1)])
next
  case False
  let ?supply = "if cAction cmd = ''Set Power Mode DC'' then ''DC'' else ''AC''"
  let ?run = "run_state (winSetPlatformPowerMode api ?supply (cValue cmd)) (w, [])"
  from False obtain target where t: "powerModeGUIDForValue (cValue cmd) = Inr target" using GUIDForValue_valid by blast
  have s: "s = (if ?supply = ''DC'' then DC else AC)" by (simp add: s_def)
  have "?supply = ''AC'' \<or> ?supply = ''DC''" by simp
  note l = win_set_log [OF t this, of api w, folded s]
  have r: "r = (snd (fst ?run), [], \<lparr>esGameMode = g, esPower = snd ?run\<rparr>)"
    using False by (simp add: r_def execute_power [OF assms(1)] set_power_def windows_platform_def split: prod.split)
  have cs: "calls = snd (snd ?run)" by (simp add: calls_def r)
  have "powerModeName (cValue cmd) \<noteq> None" using False by (auto simp: validatePowerModeRequest_def split: if_splits)
  moreover have "CGet s 0 target \<in> set calls" if "fst r = nil"
    using l(1) that unfolding cs win_log_ok_def r by auto
  moreover have "fst (snd r) = [] \<and> esGameMode (snd (snd r)) = g" by (simp add: r)
  moreover have "list_all (\<lambda>c. fst c = s) (set_calls calls)" using l(2) by (simp add: cs list_all_iff)
  ultimately show ?thesis using False t by blast
qed

definition powerCommand :: Command where
  "powerCommand = \<lparr>cAction = ''Set Power Mode DC'', cValue = Fin 100, cTarget = [], cTimestamp = 0, cNonce = [], cAuth = []\<rparr>"

definition powerEnv :: "bytes option exec_env" where
  "powerEnv = \<lparr>xePanicFile = None, xeList = None, xeSafety = \<lparr>seTemps = None, seNvidia = None, seMerge = None, seList = None, seDetect = None\<rparr>, xeSet = None\<rparr>"

theorem windows_power_command_witness:
  "fst (executeHardwareCommand id (windows_platform (demoApi True)) powerEnv powerCommand
     \<lparr>esGameMode = False, esPower = (\<lambda>_. powerBalancedGUID, [])\<rparr>) = nil \<and>
   CGet DC 0 powerPerformanceGUID \<in> set (snd (esPower (snd (snd (executeHardwareCommand id (windows_platform (demoApi True)) powerEnv powerCommand
     \<lparr>esGameMode = False, esPower = (\<lambda>_. powerBalancedGUID, [])\<rparr>)))))"
proof -
  have a: "cAction powerCommand \<in> {''Set Power Mode AC'', ''Set Power Mode DC''}" by (simp add: powerCommand_def)
  have v: "powerModeGUIDForValue (cValue powerCommand) = Inr powerPerformanceGUID"
    by (simp add: powerCommand_def powerModeGUIDForValue_def powerModeBalanced_def powerModeEfficiency_def powerModePerformance_def)
  have n: "validatePowerModeRequest (cAction powerCommand) (cValue powerCommand) = None" by code_simp
  have ok: "fst (executeHardwareCommand id (windows_platform (demoApi True)) powerEnv powerCommand
     \<lparr>esGameMode = False, esPower = (\<lambda>_. powerBalancedGUID, [])\<rparr>) = nil"
    unfolding execute_power [OF a] n
    using v by (simp add: set_power_def windows_platform_def powerEnv_def panicModeActive_def powerCommand_def
        winSetPlatformPowerMode_def set_supply_def readWindowsPowerMode_def powerModeAPIsAvailable_def demoApi_def win_run mode_of_def)
  with windows_power_command [OF a, of id "demoApi True" powerEnv False "\<lambda>_. powerBalancedGUID"] v show ?thesis
    by (auto simp: powerCommand_def)
qed

end
