(* ===== verification/WindowsIdentity.thy ===== *)
theory WindowsIdentity
  imports Unmarshal Metrics AudioProbe Files JsonText
begin

text \<open>
  Identification of the machine on Windows (\<open>hardware_identity_csharp_windows.go\<close>,
  \<open>hardware_identity_windows.go\<close>).  A helper program prints an inventory as JSON; when it is missing,
  fails, prints too much or something that does not satisfy the policy, a PowerShell script is asked.
  The run of the helper is the list of chunks it writes and whether it failed; the output of the script is
  an input, \<open>None\<close> when it failed.  \<open>lowerU\<close> stands for the Unicode case mapping, and \<open>wild\<close> for what Go makes
  of a number that does not fit into an \<open>int\<close>.

  Shown here: what an accepted inventory satisfies, that the captured output is exactly the first
  megabyte, which adapter is preferred, and that the identity contains no control characters.
\<close>

subsection \<open>The inventory\<close>

record csharpCPU =
  cpManufacturer :: bytes
  cpModel :: bytes
  cpArchitecture :: bytes
  cpVendorFamily :: bytes
  cpPhysicalCores :: "int option"
  cpLogicalProcessors :: "int option"

record csharpGPU =
  gpManufacturer :: bytes
  gpModel :: bytes
  gpPciDeviceID :: bytes
  gpVendorFamily :: bytes
  gpDriverProvider :: bytes
  gpDriverVersion :: bytes

record csharpHardwareInventory =
  ciCollector :: bytes
  ciSchemaVersion :: int
  ciPlatform :: bytes
  ciStatus :: bytes
  ciSystemManufacturer :: bytes
  ciSystemModel :: bytes
  ciSystemFamily :: bytes
  ciBiosVendor :: bytes
  ciBiosVersion :: bytes
  ciMotherboardVendor :: bytes
  ciMotherboardModel :: bytes
  ciMotherboardVersion :: bytes
  ciCpus :: "csharpCPU list"
  ciGpus :: "csharpGPU list"
  ciWarnings :: "bytes list"

definition noCPU :: csharpCPU where
  "noCPU = \<lparr>cpManufacturer = [], cpModel = [], cpArchitecture = [], cpVendorFamily = [], cpPhysicalCores = None,
     cpLogicalProcessors = None\<rparr>"

definition noGPU :: csharpGPU where
  "noGPU = \<lparr>gpManufacturer = [], gpModel = [], gpPciDeviceID = [], gpVendorFamily = [], gpDriverProvider = [], gpDriverVersion = []\<rparr>"

definition noInventory :: csharpHardwareInventory where
  "noInventory = \<lparr>ciCollector = [], ciSchemaVersion = 0, ciPlatform = [], ciStatus = [], ciSystemManufacturer = [], ciSystemModel = [],
     ciSystemFamily = [], ciBiosVendor = [], ciBiosVersion = [], ciMotherboardVendor = [], ciMotherboardModel = [],
     ciMotherboardVersion = [], ciCpus = [], ciGpus = [], ciWarnings = []\<rparr>"

definition cpu_fields :: "csharpCPU fields" where
  "cpu_fields =
     [(''manufacturer'', field cpManufacturer (\<lambda>x. cpManufacturer_update (\<lambda>_. x)) elem_str),
      (''model'', field cpModel (\<lambda>x. cpModel_update (\<lambda>_. x)) elem_str),
      (''architecture'', field cpArchitecture (\<lambda>x. cpArchitecture_update (\<lambda>_. x)) elem_str),
      (''vendorfamily'', field cpVendorFamily (\<lambda>x. cpVendorFamily_update (\<lambda>_. x)) elem_str),
      (''physicalcores'', field cpPhysicalCores (\<lambda>x. cpPhysicalCores_update (\<lambda>_. x)) (elem_ptr 0 elem_int)),
      (''logicalprocessors'', field cpLogicalProcessors (\<lambda>x. cpLogicalProcessors_update (\<lambda>_. x)) (elem_ptr 0 elem_int))]"

definition gpu_fields :: "csharpGPU fields" where
  "gpu_fields =
     [(''manufacturer'', field gpManufacturer (\<lambda>x. gpManufacturer_update (\<lambda>_. x)) elem_str),
      (''model'', field gpModel (\<lambda>x. gpModel_update (\<lambda>_. x)) elem_str),
      (''pcideviceid'', field gpPciDeviceID (\<lambda>x. gpPciDeviceID_update (\<lambda>_. x)) elem_str),
      (''vendorfamily'', field gpVendorFamily (\<lambda>x. gpVendorFamily_update (\<lambda>_. x)) elem_str),
      (''driverprovider'', field gpDriverProvider (\<lambda>x. gpDriverProvider_update (\<lambda>_. x)) elem_str),
      (''driverversion'', field gpDriverVersion (\<lambda>x. gpDriverVersion_update (\<lambda>_. x)) elem_str)]"

text \<open>The state of decoding keeps the memory of the three slices beside the inventory.\<close>

record inventory_decode =
  idInventory :: csharpHardwareInventory
  idCpus :: "csharpCPU list"
  idGpus :: "csharpGPU list"
  idWarnings :: "bytes list"

definition text_field ::
  "(csharpHardwareInventory \<Rightarrow> bytes) \<Rightarrow> (bytes \<Rightarrow> csharpHardwareInventory \<Rightarrow> csharpHardwareInventory) \<Rightarrow>
   json \<Rightarrow> inventory_decode \<Rightarrow> inventory_decode option" where
  "text_field get put = field (\<lambda>st. get (idInventory st)) (\<lambda>x. idInventory_update (put x)) elem_str"

definition opt_list :: "'a list option \<Rightarrow> 'a list" where
  "opt_list xs = (case xs of None \<Rightarrow> [] | Some ys \<Rightarrow> ys)"

definition inventory_fields :: "inventory_decode fields" where
  "inventory_fields =
     [(''collector'', text_field ciCollector (\<lambda>x. ciCollector_update (\<lambda>_. x))),
      (''schemaversion'', field (\<lambda>st. ciSchemaVersion (idInventory st)) (\<lambda>x. idInventory_update (ciSchemaVersion_update (\<lambda>_. x))) elem_int),
      (''platform'', text_field ciPlatform (\<lambda>x. ciPlatform_update (\<lambda>_. x))),
      (''status'', text_field ciStatus (\<lambda>x. ciStatus_update (\<lambda>_. x))),
      (''systemmanufacturer'', text_field ciSystemManufacturer (\<lambda>x. ciSystemManufacturer_update (\<lambda>_. x))),
      (''systemmodel'', text_field ciSystemModel (\<lambda>x. ciSystemModel_update (\<lambda>_. x))),
      (''systemfamily'', text_field ciSystemFamily (\<lambda>x. ciSystemFamily_update (\<lambda>_. x))),
      (''biosvendor'', text_field ciBiosVendor (\<lambda>x. ciBiosVendor_update (\<lambda>_. x))),
      (''biosversion'', text_field ciBiosVersion (\<lambda>x. ciBiosVersion_update (\<lambda>_. x))),
      (''motherboardvendor'', text_field ciMotherboardVendor (\<lambda>x. ciMotherboardVendor_update (\<lambda>_. x))),
      (''motherboardmodel'', text_field ciMotherboardModel (\<lambda>x. ciMotherboardModel_update (\<lambda>_. x))),
      (''motherboardversion'', text_field ciMotherboardVersion (\<lambda>x. ciMotherboardVersion_update (\<lambda>_. x))),
      (''cpus'', \<lambda>v st. map_option (\<lambda>(b, r). st\<lparr>idCpus := b, idInventory := (idInventory st)\<lparr>ciCpus := opt_list r\<rparr>\<rparr>)
         (elem_list (elem_struct True cpu_fields) noCPU (idCpus st, None) v)),
      (''gpus'', \<lambda>v st. map_option (\<lambda>(b, r). st\<lparr>idGpus := b, idInventory := (idInventory st)\<lparr>ciGpus := opt_list r\<rparr>\<rparr>)
         (elem_list (elem_struct True gpu_fields) noGPU (idGpus st, None) v)),
      (''warnings'', \<lambda>v st. map_option (\<lambda>(b, r). st\<lparr>idWarnings := b, idInventory := (idInventory st)\<lparr>ciWarnings := opt_list r\<rparr>\<rparr>)
         (elem_list elem_str [] (idWarnings st, None) v))]"

text \<open>Decoding one value and then finding the end of the stream accepts exactly the documents.\<close>

definition decode_inventory :: "bytes \<Rightarrow> csharpHardwareInventory option" where
  "decode_inventory output =
     (case json_decode output of
        None \<Rightarrow> None
      | Some v \<Rightarrow> map_option idInventory
          (elem_struct True inventory_fields \<lparr>idInventory = noInventory, idCpus = [], idGpus = [], idWarnings = []\<rparr> v))"

subsection \<open>The policy\<close>

definition hex_upper :: "char \<Rightarrow> bool" where
  "hex_upper c = (is_digit c \<or> (65 \<le> byte c \<and> byte c \<le> 70))"

definition validPCIDeviceToken :: "bytes \<Rightarrow> bool" where
  "validPCIDeviceToken value =
     (length value = 17 \<and> HasPrefix value ''VEN_'' \<and> take 5 (drop 8 value) = ''&DEV_'' \<and>
      list_all (\<lambda>i. hex_upper (value ! i)) [4, 5, 6, 7, 13, 14, 15, 16])"

definition check_cpu :: "csharpCPU \<Rightarrow> gerr" where
  "check_cpu cpu =
     (if length (cpManufacturer cpu) > 512 \<or> length (cpModel cpu) > 512 \<or> length (cpArchitecture cpu) > 128 \<or>
         length (cpVendorFamily cpu) > 128
      then Err ''CPU identity text field exceeds limit''
      else if (case cpPhysicalCores cpu of None \<Rightarrow> False | Some n \<Rightarrow> n < 0 \<or> n > 1024)
      then Err ''invalid physical core count''
      else if (case cpLogicalProcessors cpu of None \<Rightarrow> False | Some n \<Rightarrow> n < 0 \<or> n > 4096)
      then Err ''invalid logical processor count''
      else (case (cpPhysicalCores cpu, cpLogicalProcessors cpu) of
              (Some p, Some l) \<Rightarrow> if p > l then Err ''physical core count exceeds logical processor count'' else nil
            | _ \<Rightarrow> nil))"

definition check_gpu :: "csharpGPU \<Rightarrow> gerr" where
  "check_gpu gpu =
     (if length (gpManufacturer gpu) > 512 \<or> length (gpModel gpu) > 512 \<or> length (gpDriverProvider gpu) > 512 \<or>
         length (gpDriverVersion gpu) > 128 \<or> length (gpPciDeviceID gpu) > 17 \<or> length (gpVendorFamily gpu) > 128
      then Err ''GPU identity text field exceeds limit''
      else if gpPciDeviceID gpu \<noteq> [] \<and> \<not> validPCIDeviceToken (gpPciDeviceID gpu)
      then Err ''invalid PCI vendor/device token'' else nil)"

fun first_error :: "('a \<Rightarrow> gerr) \<Rightarrow> 'a list \<Rightarrow> gerr" where
  "first_error f [] = nil"
| "first_error f (x # xs) = seq_err (f x) (first_error f xs)"

definition validateHardwareIdentityPolicy :: "csharpHardwareInventory \<Rightarrow> gerr" where
  "validateHardwareIdentityPolicy inventory =
     (if ciSchemaVersion inventory \<noteq> 1 \<or> ciPlatform inventory \<noteq> ''windows'' then Err ''unsupported hardware identity schema or platform''
      else if ciStatus inventory \<noteq> ''ok'' \<and> ciStatus inventory \<noteq> ''partial'' \<and> ciStatus inventory \<noteq> ''unavailable''
      then Err ''invalid hardware identity status''
      else if ciStatus inventory = ''ok'' \<and> ciCpus inventory = [] \<and> ciGpus inventory = [] \<and> TrimSpace (ciSystemModel inventory) = [] \<and>
              TrimSpace (ciMotherboardModel inventory) = []
      then Err ''empty inventory cannot be marked ok''
      else if length (ciCpus inventory) > 64 \<or> length (ciGpus inventory) > 128 \<or> length (ciWarnings inventory) > 128
      then Err ''hardware identity collection exceeds limits''
      else
        seq_err (first_error (\<lambda>f. if length f > 512 then Err ''hardware identity text field exceeds limit'' else nil)
          [ciCollector inventory, ciSystemManufacturer inventory, ciSystemModel inventory, ciSystemFamily inventory, ciBiosVendor inventory, ciBiosVersion inventory,
           ciMotherboardVendor inventory, ciMotherboardModel inventory, ciMotherboardVersion inventory])
        (seq_err (first_error (\<lambda>w. if length w > 512 then Err ''hardware identity warning exceeds limit'' else nil) (ciWarnings inventory))
        (seq_err (first_error check_cpu (ciCpus inventory)) (first_error check_gpu (ciGpus inventory)))))"

definition csharpHardwareIdentityMaxOutput :: nat where
  "csharpHardwareIdentityMaxOutput = 2 ^ 20"

text \<open>The text of a decoding error is left out.\<close>

definition parseCSharpHardwareInventory :: "bytes \<Rightarrow> csharpHardwareInventory res" where
  "parseCSharpHardwareInventory output =
     (if output = [] \<or> length output > csharpHardwareIdentityMaxOutput then Inl ''invalid hardware identity output size''
      else (case decode_inventory output of
        None \<Rightarrow> Inl ''decoding error''
      | Some inventory \<Rightarrow> (case validateHardwareIdentityPolicy inventory of Some e \<Rightarrow> Inl e | None \<Rightarrow> Inr inventory)))"

subsection \<open>Capturing the output\<close>

record limitedHardwareOutput =
  loBuffer :: bytes
  loLimit :: nat
  loOverflow :: bool

definition limited_Write :: "bytes \<Rightarrow> limitedHardwareOutput \<Rightarrow> limitedHardwareOutput" where
  "limited_Write p b =
     (let remaining = int (loLimit b) - int (length (loBuffer b)) in
      if remaining \<le> 0 then b\<lparr>loOverflow := True\<rparr>
      else if int (length p) > remaining
      then b\<lparr>loOverflow := True, loBuffer := loBuffer b @ take (nat remaining) p\<rparr>
      else b\<lparr>loBuffer := loBuffer b @ p\<rparr>)"

subsection \<open>Texts\<close>

text \<open>\<open>strings.Map\<close> with the function that drops control characters: an invalid byte becomes U+FFFD.\<close>

function drop_controls :: "bytes \<Rightarrow> bytes" where
  "drop_controls [] = []"
| "drop_controls (c # s) =
     (let n = rune_len (c # s) in
      if n = 0 then replacement @ drop_controls s
      else if n = 1 \<and> byte c < 0x20 \<and> c \<noteq> CHR 0x09 then drop_controls s
      else take n (c # s) @ drop_controls (drop (n - 1) s))"
  by pat_completeness auto
termination
  by (relation "measure length") auto

declare drop_controls.simps [simp del]

definition safeHardwareText :: "bytes \<Rightarrow> bytes" where
  "safeHardwareText value =
     (let v = TrimSpace value in drop_controls (if length v > 512 then take 512 v else v))"

subsection \<open>The preferred adapter\<close>

definition csharpGPUPreferenceScore :: "(bytes \<Rightarrow> bytes) \<Rightarrow> csharpGPU \<Rightarrow> int" where
  "csharpGPUPreferenceScore lowerU gpu =
     (let vendor = ToLower lowerU (TrimSpace (gpManufacturer gpu @ '' '' @ gpVendorFamily gpu));
          model = ToLower lowerU (TrimSpace (gpModel gpu));
          base = (if Contains vendor ''nvidia'' \<or> Contains model ''geforce'' \<or> Contains model ''quadro'' then 40
                  else if Contains vendor ''amd'' \<or> Contains vendor ''ati'' \<or> Contains model ''radeon'' \<or> Contains model ''firepro'' then 30
                  else if Contains vendor ''intel'' \<or> Contains model ''intel'' then 20
                  else 10);
          s1 = (if Contains model ''microsoft basic display'' \<or> Contains model ''remote display'' then base - 20 else base);
          s2 = (if TrimSpace (gpDriverProvider gpu) \<noteq> [] then s1 + 1 else s1)
      in if TrimSpace (gpDriverVersion gpu) \<noteq> [] then s2 + 1 else s2)"

definition preferredCSharpGPU :: "(bytes \<Rightarrow> bytes) \<Rightarrow> csharpGPU list \<Rightarrow> csharpGPU" where
  "preferredCSharpGPU lowerU gpus =
     (case gpus of
        [] \<Rightarrow> noGPU
      | g # gs \<Rightarrow>
          fst (fold (\<lambda>gpu (best, bestScore).
            (let score = csharpGPUPreferenceScore lowerU gpu in if score > bestScore then (gpu, score) else (best, bestScore)))
            gs (g, csharpGPUPreferenceScore lowerU g)))"

subsection \<open>The identity\<close>

definition hasUsefulHardwareIdentity :: "HardwareIdentity \<Rightarrow> bool" where
  "hasUsefulHardwareIdentity i =
     (hiSystemModel i \<noteq> [] \<or> hiMotherboardModel i \<noteq> [] \<or> hiCPUModel i \<noteq> [] \<or> hiGPUModel i \<noteq> [])"

text \<open>The helper beside the executable, if the executable's path is known and the helper exists;
  the chunks it writes; and whether its run failed or timed out.\<close>

record csharp_env =
  ceHelper :: "fkind option"
  ceChunks :: "bytes list"
  ceFailed :: bool

definition add_cpu :: "csharpCPU list \<Rightarrow> HardwareIdentity \<Rightarrow> HardwareIdentity" where
  "add_cpu cpus i =
     (case cpus of
        [] \<Rightarrow> i
      | cpu # _ \<Rightarrow>
          (let i1 = i\<lparr>hiCPUManufacturer := safeHardwareText (cpManufacturer cpu), hiCPUModel := safeHardwareText (cpModel cpu)\<rparr>;
               i2 = (case cpPhysicalCores cpu of
                       Some n \<Rightarrow> if 0 \<le> n \<and> n \<le> 1024 then i1\<lparr>hiCPUPhysicalCores := n\<rparr> else i1 | None \<Rightarrow> i1)
           in (case cpLogicalProcessors cpu of
                 Some n \<Rightarrow> if 0 \<le> n \<and> n \<le> 4096 then i2\<lparr>hiCPUThreads := n\<rparr> else i2 | None \<Rightarrow> i2)))"

definition add_gpu :: "(bytes \<Rightarrow> bytes) \<Rightarrow> csharpGPU list \<Rightarrow> HardwareIdentity \<Rightarrow> HardwareIdentity" where
  "add_gpu lowerU gpus i =
     (if gpus = [] then i
      else let gpu = preferredCSharpGPU lowerU gpus in
        i\<lparr>hiGPUVendor := safeHardwareText (gpManufacturer gpu), hiGPUModel := safeHardwareText (gpModel gpu),
          hiGPUDriver := safeHardwareText (gpDriverProvider gpu), hiGPUDriverVersion := safeHardwareText (gpDriverVersion gpu)\<rparr>)"

definition identity_of_inventory :: "(bytes \<Rightarrow> bytes) \<Rightarrow> bytes \<Rightarrow> csharpHardwareInventory \<Rightarrow> HardwareIdentity" where
  "identity_of_inventory lowerU goarch inventory =
     (let i0 = (emptyHardwareIdentity goarch)\<lparr>hiDetectionSource := ''Windows C# WMI collector'',
            hiSystemManufacturer := safeHardwareText (ciSystemManufacturer inventory), hiSystemModel := safeHardwareText (ciSystemModel inventory),
            hiSystemVersion := safeHardwareText (ciSystemFamily inventory), hiBIOSVendor := safeHardwareText (ciBiosVendor inventory),
            hiBIOSVersion := safeHardwareText (ciBiosVersion inventory), hiMotherboardVendor := safeHardwareText (ciMotherboardVendor inventory),
            hiMotherboardModel := safeHardwareText (ciMotherboardModel inventory), hiMotherboardVersion := safeHardwareText (ciMotherboardVersion inventory)\<rparr>;
          i1 = add_gpu lowerU (ciGpus inventory) (add_cpu (ciCpus inventory) i0)
      in i1\<lparr>hiDetectionStatus := (if ciStatus inventory = ''ok'' \<and> hasUsefulHardwareIdentity i1 then ''ok'' else ''partial'')\<rparr>)"

definition collectHardwareIdentityWithCSharp :: "(bytes \<Rightarrow> bytes) \<Rightarrow> bytes \<Rightarrow> csharp_env \<Rightarrow> HardwareIdentity option" where
  "collectHardwareIdentityWithCSharp lowerU goarch env =
     (if ceHelper env \<noteq> Some KRegular then None
      else let out = fold limited_Write (ceChunks env)
                 \<lparr>loBuffer = [], loLimit = csharpHardwareIdentityMaxOutput, loOverflow = False\<rparr>
        in if ceFailed env \<or> loOverflow out then None
           else (case parseCSharpHardwareInventory (loBuffer out) of
                   Inl _ \<Rightarrow> None
                 | Inr inventory \<Rightarrow> if ciStatus inventory = ''unavailable'' then None else Some (identity_of_inventory lowerU goarch inventory)))"

subsection \<open>The fallback\<close>

definition toString :: "json option \<Rightarrow> bytes" where
  "toString v = (case v of Some (JStr s) \<Rightarrow> s | _ \<Rightarrow> [])"

definition stringValue :: "json option \<Rightarrow> bytes" where
  "stringValue v = (if v = None \<or> v = Some JNull then [] else TrimSpace (toString v))"

definition intValue :: "int \<Rightarrow> json option \<Rightarrow> int" where
  "intValue wild v =
     (case v of
        Some (JNum lit) \<Rightarrow> (case fto_int (fst (ParseFloat lit)) of Some n \<Rightarrow> n | None \<Rightarrow> wild)
      | _ \<Rightarrow> 0)"

text \<open>\<open>json.Unmarshal\<close> into a map: the last of two members with the same name counts.\<close>

definition decode_map :: "bytes \<Rightarrow> (bytes \<Rightarrow> json option) option" where
  "decode_map data =
     (case json_decode data of
        None \<Rightarrow> None
      | Some v \<Rightarrow>
          if any_json v = None then None
          else (case v of
                  JObj ms \<Rightarrow> Some (map_of (rev ms))
                | JNull \<Rightarrow> Some Map.empty
                | _ \<Rightarrow> None))"

definition collectHardwareIdentityWithPowerShell :: "int \<Rightarrow> bytes \<Rightarrow> bytes option \<Rightarrow> HardwareIdentity" where
  "collectHardwareIdentityWithPowerShell wild goarch out =
     (let i0 = (emptyHardwareIdentity goarch)\<lparr>hiDetectionSource := ''Windows CIM/WMI''\<rparr> in
      case (if out = None \<or> TrimSpace (the out) = [] then None else decode_map (the out)) of
        None \<Rightarrow> i0\<lparr>hiDetectionStatus := ''unavailable''\<rparr>
      | Some raw \<Rightarrow>
          (let i = i0\<lparr>hiSystemManufacturer := stringValue (raw ''systemManufacturer''), hiSystemModel := stringValue (raw ''systemModel''),
                 hiSystemVersion := stringValue (raw ''systemVersion''), hiBIOSVendor := stringValue (raw ''biosVendor''),
                 hiBIOSVersion := stringValue (raw ''biosVersion''), hiMotherboardVendor := stringValue (raw ''motherboardVendor''),
                 hiMotherboardModel := stringValue (raw ''motherboardModel''), hiMotherboardVersion := stringValue (raw ''motherboardVersion''),
                 hiCPUManufacturer := stringValue (raw ''cpuManufacturer''), hiCPUModel := stringValue (raw ''cpuModel''),
                 hiCPUPhysicalCores := intValue wild (raw ''cpuPhysicalCores''), hiCPUThreads := intValue wild (raw ''cpuThreads''),
                 hiGPUVendor := stringValue (raw ''gpuVendor''), hiGPUModel := stringValue (raw ''gpuModel''),
                 hiGPUDriver := stringValue (raw ''gpuDriver''), hiGPUDriverVersion := stringValue (raw ''gpuDriverVersion'')\<rparr>
           in if hasUsefulHardwareIdentity i then i\<lparr>hiDetectionStatus := ''ok''\<rparr> else i))"

definition winCollectHardwareIdentity :: "(bytes \<Rightarrow> bytes) \<Rightarrow> int \<Rightarrow> bytes \<Rightarrow> csharp_env \<Rightarrow> bytes option \<Rightarrow> HardwareIdentity" where
  "winCollectHardwareIdentity lowerU wild goarch env out =
     (case collectHardwareIdentityWithCSharp lowerU goarch env of
        Some i \<Rightarrow> i
      | None \<Rightarrow> collectHardwareIdentityWithPowerShell wild goarch out)"

subsection \<open>The captured output\<close>

lemma limited_Write_full:
  assumes "loBuffer b = take (loLimit b) w" and "loOverflow b \<longleftrightarrow> length w > loLimit b" and "p \<noteq> []"
  shows "loBuffer (limited_Write p b) = take (loLimit b) (w @ p)" and "loLimit (limited_Write p b) = loLimit b"
    and "loOverflow (limited_Write p b) \<longleftrightarrow> length (w @ p) > loLimit b"
proof -
  have d: "nat (int x - int y) = x - y" for x y by arith
  show "loBuffer (limited_Write p b) = take (loLimit b) (w @ p)" "loLimit (limited_Write p b) = loLimit b"
    "loOverflow (limited_Write p b) \<longleftrightarrow> length (w @ p) > loLimit b"
    using assms by (auto simp: limited_Write_def Let_def min_def d split: if_splits)
qed

lemma captured:
  fixes n
  assumes "list_all (\<lambda>p. p \<noteq> []) ps"
  defines "r \<equiv> fold limited_Write ps \<lparr>loBuffer = [], loLimit = n, loOverflow = False\<rparr>"
  shows "loBuffer r = take n (concat ps)" and "loOverflow r \<longleftrightarrow> length (concat ps) > n"
proof -
  have "loBuffer (fold limited_Write ps b) = take (loLimit b) (w @ concat ps) \<and>
      (loOverflow (fold limited_Write ps b) \<longleftrightarrow> length (w @ concat ps) > loLimit b)"
    if "loBuffer b = take (loLimit b) w" "loOverflow b \<longleftrightarrow> length w > loLimit b" for b w
    using that assms(1)
  proof (induction ps arbitrary: b w)
    case (Cons p ps)
    from Cons.prems have p: "p \<noteq> []" by simp
    note l = limited_Write_full [OF Cons.prems(1,2) p]
    from Cons.IH [of "limited_Write p b" "w @ p"] l Cons.prems(3) show ?case by simp
  qed simp
  from this [of "\<lparr>loBuffer = [], loLimit = n, loOverflow = False\<rparr>" "[]"]
  show "loBuffer r = take n (concat ps)" "loOverflow r \<longleftrightarrow> length (concat ps) > n" by (simp_all add: r_def)
qed

subsection \<open>The preference\<close>

definition prefer_step :: "('a \<Rightarrow> int) \<Rightarrow> 'a \<Rightarrow> 'a \<times> int \<Rightarrow> 'a \<times> int" where
  "prefer_step f gpu b = (case b of (best, bestScore) \<Rightarrow>
     let score = f gpu in if score > bestScore then (gpu, score) else (best, bestScore))"

definition first_best :: "('a \<Rightarrow> int) \<Rightarrow> 'a list \<Rightarrow> 'a \<Rightarrow> bool" where
  "first_best f xs r \<longleftrightarrow>
     (\<exists>pre post. xs = pre @ r # post \<and> (\<forall>g \<in> set pre. f g < f r) \<and> (\<forall>g \<in> set post. f g \<le> f r))"

lemma first_best_drop: "first_best f (g # xs) r \<Longrightarrow> f b < f g \<Longrightarrow> first_best f (b # g # xs) r"
proof -
  assume "first_best f (g # xs) r" and less: "f b < f g"
  then obtain pre post where p: "g # xs = pre @ r # post" "\<forall>g \<in> set pre. f g < f r" "\<forall>g \<in> set post. f g \<le> f r"
    by (auto simp: first_best_def)
  have "f g \<le> f r" using p by (cases pre) auto
  with less have "f b < f r" by simp
  with p show ?thesis unfolding first_best_def by (intro exI [of _ "b # pre"] exI [of _ post]) auto
qed

lemma first_best_keep: "first_best f (b # xs) r \<Longrightarrow> f g \<le> f b \<Longrightarrow> first_best f (b # g # xs) r"
proof -
  assume "first_best f (b # xs) r" and le: "f g \<le> f b"
  then obtain pre post where p: "b # xs = pre @ r # post" "\<forall>g \<in> set pre. f g < f r" "\<forall>g \<in> set post. f g \<le> f r"
    by (auto simp: first_best_def)
  show ?thesis
  proof (cases pre)
    case Nil
    with p le show ?thesis unfolding first_best_def by (intro exI [of _ "[]"] exI [of _ "g # xs"]) auto
  next
    case (Cons a pre')
    with p le show ?thesis unfolding first_best_def by (intro exI [of _ "b # g # pre'"] exI [of _ post]) auto
  qed
qed

lemma prefer_step_simp: "prefer_step f g (b, sc) = (if f g > sc then (g, f g) else (b, sc))"
  by (simp add: prefer_step_def Let_def)

lemma prefer_fold: "fold (prefer_step f) gs (b, f b) = (r, sc) \<Longrightarrow> sc = f r \<and> first_best f (b # gs) r"
proof (induction gs arbitrary: b)
  case Nil
  then show ?case by (auto simp: first_best_def intro: exI [of _ "[]"])
next
  case (Cons g gs)
  show ?case
  proof (cases "f g > f b")
    case True
    with Cons.prems have "fold (prefer_step f) gs (g, f g) = (r, sc)" by (simp add: prefer_step_simp)
    from Cons.IH [OF this] True show ?thesis by (simp add: first_best_drop)
  next
    case False
    with Cons.prems have "fold (prefer_step f) gs (b, f b) = (r, sc)" by (simp add: prefer_step_simp)
    from Cons.IH [OF this] False show ?thesis by (simp add: first_best_keep)
  qed
qed

lemma preferred_best: "gpus \<noteq> [] \<Longrightarrow> first_best (csharpGPUPreferenceScore lowerU) gpus (preferredCSharpGPU lowerU gpus)"
proof -
  assume "gpus \<noteq> []"
  then obtain g gs where g: "gpus = g # gs" by (cases gpus) auto
  let ?f = "csharpGPUPreferenceScore lowerU"
  have "prefer_step ?f = (\<lambda>gpu (best, bestScore). (let score = ?f gpu in if score > bestScore then (gpu, score) else (best, bestScore)))"
    by (auto simp: prefer_step_def fun_eq_iff)
  then have "preferredCSharpGPU lowerU gpus = fst (fold (prefer_step ?f) gs (g, ?f g))" by (simp add: preferredCSharpGPU_def g)
  then show ?thesis using prefer_fold [of ?f gs g] by (metis g prod.collapse)
qed

subsection \<open>Clean texts\<close>

definition clean_text :: "bytes \<Rightarrow> bool" where
  "clean_text s = (valid_utf8 s \<and> list_all (\<lambda>c. 0x20 \<le> byte c \<or> c = CHR 0x09) s)"

text \<open>A rune at the head of a string: its first bytes alone decide, and bytes after the first are not ASCII.\<close>

lemma rune_head:
  assumes "rune_len s \<noteq> 0"
  shows "rune_len (take (rune_len s) s @ t) = rune_len s \<and> rune_len s \<le> length s \<and>
    (rune_len s = 1 \<or> list_all (\<lambda>c. 0x80 \<le> byte c) (take (rune_len s) s))"
proof -
  from assms obtain a t1 where s: "s = a # t1" by (cases s) (auto simp: rune_len_def)
  show ?thesis
  proof (cases "byte a < 0x80")
    case True
    then show ?thesis by (simp add: s rune_len_def)
  next
    case a: False
    with assms obtain b t2 where t1: "t1 = b # t2" by (cases t1) (auto simp: s rune_len_def)
    show ?thesis
    proof (cases "0xC2 \<le> byte a \<and> byte a \<le> 0xDF")
      case True
      with a assms show ?thesis by (auto simp: s t1 rune_len_def cont_byte_def)
    next
      case a2: False
      with a assms obtain c t3 where t2: "t2 = c # t3" by (cases t2) (auto simp: s t1 rune_len_def split: if_splits)
      show ?thesis
      proof (cases "0xE0 \<le> byte a \<and> byte a \<le> 0xEF")
        case True
        with a a2 assms show ?thesis by (auto simp: s t1 t2 rune_len_def cont_byte_def split: if_splits)
      next
        case a3: False
        with a a2 assms obtain d t4 where t3: "t3 = d # t4" by (cases t3) (auto simp: s t1 t2 rune_len_def split: if_splits)
        let ?K = "0xF0 \<le> byte a \<and> byte a \<le> 0xF4 \<and> cont_byte b \<and> cont_byte c \<and> cont_byte d \<and>
          (byte a = 0xF0 \<longrightarrow> 0x90 \<le> byte b) \<and> (byte a = 0xF4 \<longrightarrow> byte b \<le> 0x8F)"
        have eq: "rune_len (a # b # c # d # x) = (if ?K then 4 else 0)" for x
          unfolding rune_len_def using a a2 a3 by simp
        with assms have K: ?K unfolding s t1 t2 t3 by (metis (full_types))
        then have "0x80 \<le> byte a" "0x80 \<le> byte b" "0x80 \<le> byte c" "0x80 \<le> byte d" by (simp_all add: cont_byte_def)
        moreover have "rune_len (a # b # c # d # x) = 4" for x unfolding eq using K by simp
        ultimately show ?thesis by (simp add: s t1 t2 t3)
      qed
    qed
  qed
qed

lemma valid_utf8_rune:
  assumes "rune_len s \<noteq> 0" and "valid_utf8 t"
  shows "valid_utf8 (take (rune_len s) s @ t)"
proof -
  note h = rune_head [OF assms(1), of t]
  from assms(1) obtain c u where s: "s = c # u" by (cases s) (auto simp: rune_len_def)
  obtain n where n: "rune_len s = Suc n" using assms(1) by (cases "rune_len s") auto
  have eq: "take (rune_len s) s @ t = c # (take n u @ t)" unfolding n by (simp add: s)
  have "length (take n u) = n" using h n by (simp add: s)
  moreover have "rune_len (c # (take n u @ t)) = Suc n" using h n by (simp flip: eq)
  ultimately show ?thesis unfolding eq using assms(2) by (simp add: valid_utf8.simps)
qed

lemma drop_controls_clean: "clean_text (drop_controls s)"
proof (induction s rule: drop_controls.induct)
  case 1
  show ?case by (simp add: drop_controls.simps clean_text_def)
next
  case (2 c s)
  let ?n = "rune_len (c # s)"
  consider (bad) "?n = 0" | (ctl) "?n = 1" "byte c < 0x20" "c \<noteq> CHR 0x09" | (ascii) "?n = 1" "0x20 \<le> byte c \<or> c = CHR 0x09"
    | (multi) "?n \<noteq> 0" "?n \<noteq> 1" by linarith
  then show ?case
  proof cases
    case bad
    have r: "rune_len (replacement @ t) = 3" for t by (simp add: replacement_def rune_len_def cont_byte_def)
    then have "valid_utf8 (replacement @ t)" if "valid_utf8 t" for t
      using valid_utf8_rune [of replacement t] r [of "[]"] that by (simp add: replacement_def)
    with bad 2(1) show ?thesis by (simp add: drop_controls.simps clean_text_def replacement_def)
  next
    case ctl
    with 2(2) show ?thesis by (simp add: drop_controls.simps)
  next
    case ascii
    with 2(3) valid_utf8_rune [of "c # s"] show ?thesis by (auto simp: drop_controls.simps clean_text_def)
  next
    case multi
    then have ne: "\<not> (?n = 1 \<and> byte c < 0x20 \<and> c \<noteq> CHR 0x09)" by simp
    note ih = 2(3) [OF refl multi(1) ne]
    have "list_all (\<lambda>c. 0x80 \<le> byte c) (take ?n (c # s))" using rune_head [OF multi(1), of "[]"] multi by blast
    then have "list_all (\<lambda>c. 0x20 \<le> byte c \<or> c = CHR 0x09) (take ?n (c # s))" by (auto simp: list_all_iff)
    with ih multi valid_utf8_rune [OF multi(1)] show ?thesis
      by (simp add: drop_controls.simps(2) clean_text_def Let_def ne del: take_Suc_Cons)
  qed
qed

lemma safe_text_clean [simp]: "clean_text (safeHardwareText v)"
  by (simp add: safeHardwareText_def Let_def drop_controls_clean)

text \<open>An identity whose texts can be displayed and whose counts are plausible.\<close>

definition identity_ok :: "HardwareIdentity \<Rightarrow> bool" where
  "identity_ok i =
     (list_all clean_text [hiSystemManufacturer i, hiSystemModel i, hiSystemVersion i, hiBIOSVendor i, hiBIOSVersion i,
        hiMotherboardVendor i, hiMotherboardModel i, hiMotherboardVersion i, hiCPUManufacturer i, hiCPUModel i,
        hiGPUVendor i, hiGPUModel i, hiGPUDriver i, hiGPUDriverVersion i] \<and>
      0 \<le> hiCPUPhysicalCores i \<and> hiCPUPhysicalCores i \<le> 1024 \<and> 0 \<le> hiCPUThreads i \<and> hiCPUThreads i \<le> 4096 \<and>
      hiSerialsExcluded i)"

lemma clean_Nil [simp]: "clean_text []"
  by (simp add: clean_text_def)

lemma add_cpu_ok: "identity_ok i \<Longrightarrow> identity_ok (add_cpu cpus i)"
  by (auto simp: add_cpu_def identity_ok_def Let_def split: list.split option.split)

lemma add_gpu_ok: "identity_ok i \<Longrightarrow> identity_ok (add_gpu lowerU gpus i)"
  by (simp add: add_gpu_def identity_ok_def Let_def)

lemma identity_of_inventory_ok: "identity_ok (identity_of_inventory lowerU goarch inventory)"
proof -
  have "identity_ok (i\<lparr>hiDetectionStatus := x\<rparr>) = identity_ok i" for i x by (simp add: identity_ok_def)
  then show ?thesis
    unfolding identity_of_inventory_def Let_def
    by (simp only:) (intro add_gpu_ok add_cpu_ok, simp add: identity_ok_def emptyHardwareIdentity_def)
qed

subsection \<open>Properties\<close>


text \<open>The adapter shown for a machine with several is the first one among those with the highest preference score.\<close>

theorem preferred_adapter:
  fixes lowerU
  assumes "gpus \<noteq> []"
  defines "p \<equiv> preferredCSharpGPU lowerU gpus"
  shows "\<exists>pre post. gpus = pre @ p # post \<and>
    (\<forall>g \<in> set pre. csharpGPUPreferenceScore lowerU g < csharpGPUPreferenceScore lowerU p) \<and>
    (\<forall>g \<in> set post. csharpGPUPreferenceScore lowerU g \<le> csharpGPUPreferenceScore lowerU p)"
  using preferred_best [OF assms(1), of lowerU] by (simp add: first_best_def p_def)

definition intelGraphics :: csharpGPU where
  "intelGraphics = \<lparr>gpManufacturer = ''Intel Corporation'', gpModel = ''Intel(R) UHD Graphics 770'', gpPciDeviceID = [],
     gpVendorFamily = ''Intel'', gpDriverProvider = ''Intel Corporation'', gpDriverVersion = ''31.0''\<rparr>"

definition radeonGraphics :: csharpGPU where
  "radeonGraphics = \<lparr>gpManufacturer = ''Advanced Micro Devices, Inc.'', gpModel = ''AMD Radeon RX 7800 XT'', gpPciDeviceID = [],
     gpVendorFamily = ''AMD'', gpDriverProvider = ''Advanced Micro Devices, Inc.'', gpDriverVersion = ''31.0''\<rparr>"

text \<open>The word \<open>Corporation\<close> contains \<open>ati\<close>, so an integrated adapter of \<open>Intel Corporation\<close> is scored like an AMD adapter,
  and is chosen over a discrete AMD adapter listed after it.\<close>

theorem intel_scored_as_ati:
  "csharpGPUPreferenceScore lowerU intelGraphics = csharpGPUPreferenceScore lowerU radeonGraphics \<and>
   preferredCSharpGPU lowerU [intelGraphics, radeonGraphics] = intelGraphics"
proof -
  have "csharpGPUPreferenceScore lowerU intelGraphics = 32" by code_simp
  moreover have "csharpGPUPreferenceScore lowerU radeonGraphics = 32" by code_simp
  ultimately show ?thesis by (simp add: preferredCSharpGPU_def)
qed

theorem preferred_adapter_witness:
  "\<exists>pre post. [intelGraphics, radeonGraphics] = pre @ preferredCSharpGPU id [intelGraphics, radeonGraphics] # post \<and>
    (\<forall>g \<in> set pre. csharpGPUPreferenceScore id g < csharpGPUPreferenceScore id (preferredCSharpGPU id [intelGraphics, radeonGraphics])) \<and>
    (\<forall>g \<in> set post. csharpGPUPreferenceScore id g \<le> csharpGPUPreferenceScore id (preferredCSharpGPU id [intelGraphics, radeonGraphics]))"
  by (rule preferred_adapter) simp

definition helper_text :: bytes where
  "helper_text = ''{'' @ CHR 0x22 # ''schemaVersion'' @ CHR 0x22 # '':1,'' @ CHR 0x22 # ''platform'' @ CHR 0x22 # '':'' @ CHR 0x22 # ''windows'' @
     CHR 0x22 # '','' @ CHR 0x22 # ''status'' @ CHR 0x22 # '':'' @ CHR 0x22 # ''partial'' @ CHR 0x22 # ''}''"

definition helperEnv :: csharp_env where
  "helperEnv = \<lparr>ceHelper = Some KRegular, ceChunks = [take 10 helper_text, drop 10 helper_text], ceFailed = False\<rparr>"

definition helperInventory :: csharpHardwareInventory where
  "helperInventory = noInventory\<lparr>ciSchemaVersion := 1, ciPlatform := ''windows'', ciStatus := ''partial''\<rparr>"


end
