(* ===== verification/MacTelemetry.thy ===== *)
theory MacTelemetry
  imports Metrics HealthyCore
begin

text \<open>
  Identification and battery on macOS (\<open>hardware_identity_macos.go\<close>, \<open>platform_battery_darwin.go\<close>), and the platforms
  without an implementation (\<open>hardware_identity_stub.go\<close>, \<open>platform_battery_other.go\<close>, \<open>driver_info_stub.go\<close>,
  \<open>platform_metrics_stub.go\<close>).  The outputs of \<open>sysctl\<close> and \<open>ioreg\<close> are inputs, \<open>None\<close> for an error.
  The regular expression of the battery reader never has to choose between two matches at a position, so
  that a scanner computes it; integers are wrapped to 64 bits.

  Shown here: the number parser agrees with the decimal notation of every count that fits, and what it does
  to one that does not; a property line printed in the format of \<open>ioreg\<close> is read back.
\<close>

subsection \<open>Identity\<close>

definition macSysctl :: "(bytes \<Rightarrow> bytes option) \<Rightarrow> bytes \<Rightarrow> bytes" where
  "macSysctl sysctl key = (case sysctl key of None \<Rightarrow> [] | Some out \<Rightarrow> TrimSpace out)"

fun positive_loop :: "bytes \<Rightarrow> int \<Rightarrow> int" where
  "positive_loop [] n = n"
| "positive_loop (r # rs) n =
     (if \<not> is_digit r then 0 else positive_loop rs (int64 (n * 10 + digit_int r)))"

definition parsePositiveInt :: "bytes \<Rightarrow> int" where
  "parsePositiveInt value = positive_loop value 0"

text \<open>The text after the first occurrence of a needle.\<close>

fun after_first :: "bytes \<Rightarrow> bytes \<Rightarrow> bytes option" where
  "after_first needle [] = (if needle = [] then Some [] else None)"
| "after_first needle (c # s) =
     (if HasPrefix (c # s) needle then Some (drop (length needle) (c # s)) else after_first needle s)"

abbreviation quote_char :: char where "quote_char \<equiv> CHR 0x22"

text \<open>The text up to the next quote, if there is one.\<close>

definition to_quote :: "bytes \<Rightarrow> bytes" where
  "to_quote s = (if quote_char \<in> set s then takeWhile (\<lambda>c. c \<noteq> quote_char) s else [])"

definition extractIORegValue :: "bytes \<Rightarrow> bytes \<Rightarrow> bytes" where
  "extractIORegValue output key =
     (case after_first (quote_char # key @ quote_char # '' = '') output of
        None \<Rightarrow> []
      | Some rest \<Rightarrow>
          (let value = TrimSpace rest in
           if HasPrefix value ''<'' then
             (case dropWhile (\<lambda>c. c \<noteq> quote_char) value of [] \<Rightarrow> [] | _ # t \<Rightarrow> to_quote t)
           else if HasPrefix value [quote_char] then to_quote (drop 1 value)
           else if CHR 0x0D \<in> set value \<or> CHR 0x0A \<in> set value
           then TrimSpace (takeWhile (\<lambda>c. c \<noteq> CHR 0x0D \<and> c \<noteq> CHR 0x0A) value)
           else value))"

definition macCollectHardwareIdentity :: "bytes \<Rightarrow> (bytes \<Rightarrow> bytes option) \<Rightarrow> bytes option \<Rightarrow> HardwareIdentity" where
  "macCollectHardwareIdentity goarch sysctl ioreg =
     (let i0 = (emptyHardwareIdentity goarch)\<lparr>hiDetectionSource := ''macOS sysctl/ioreg'', hiSystemManufacturer := ''Apple'',
            hiSystemModel := macSysctl sysctl ''hw.model'', hiCPUArchitecture := macSysctl sysctl ''hw.machine'',
            hiCPUModel := macSysctl sysctl ''machdep.cpu.brand_string'',
            hiCPUThreads := parsePositiveInt (macSysctl sysctl ''hw.logicalcpu''),
            hiCPUPhysicalCores := parsePositiveInt (macSysctl sysctl ''hw.physicalcpu''),
            hiGPUVendor := ''Apple''\<rparr>;
          i1 = (case ioreg of
                  None \<Rightarrow> i0
                | Some out \<Rightarrow> i0\<lparr>hiSystemVersion := extractIORegValue out ''product-name'',
                    hiMotherboardModel := extractIORegValue out ''board-id'', hiBIOSVersion := extractIORegValue out ''version''\<rparr>)
      in if hiSystemModel i1 \<noteq> [] \<or> hiCPUModel i1 \<noteq> [] then i1\<lparr>hiDetectionStatus := ''ok''\<rparr> else i1)"

definition stubCollectHardwareIdentity :: "bytes \<Rightarrow> HardwareIdentity" where
  "stubCollectHardwareIdentity goarch =
     (emptyHardwareIdentity goarch)\<lparr>hiDetectionSource := ''unsupported platform'', hiDetectionStatus := ''unsupported''\<rparr>"

subsection \<open>Battery\<close>

text \<open>White space of a regular expression.\<close>

definition re_space :: "char \<Rightarrow> bool" where
  "re_space c = (c \<in> {CHR 0x09, CHR 0x0A, CHR 0x0C, CHR 0x0D, CHR 0x20})"

text \<open>A match of the expression at the head of the text: the two groups and the rest.\<close>

definition match_value :: "bytes \<Rightarrow> (bytes \<times> bytes) option" where
  "match_value s =
     (case s of
        [] \<Rightarrow> None
      | c # t \<Rightarrow>
          if c = quote_char then
            (if quote_char \<in> set t
             then (let v = takeWhile (\<lambda>x. x \<noteq> quote_char) t in Some (quote_char # v @ [quote_char], drop (Suc (length v)) t))
             else None)
          else (let d = takeWhile is_digit s in if d = [] then None else Some (d, drop (length d) s)))"

definition match_pair :: "bytes \<Rightarrow> (bytes \<times> bytes \<times> bytes) option" where
  "match_pair s =
     (case s of
        [] \<Rightarrow> None
      | c # t \<Rightarrow>
          if c \<noteq> quote_char then None
          else let key = takeWhile (\<lambda>x. x \<noteq> quote_char) t; r1 = drop (length key) t in
            if key = [] \<or> r1 = [] then None
            else (case dropWhile re_space (drop 1 r1) of
                    [] \<Rightarrow> None
                  | e # r2 \<Rightarrow>
                      if e \<noteq> CHR ''='' then None
                      else map_option (\<lambda>(v, rest). (key, v, rest)) (match_value (dropWhile re_space r2))))"

lemma match_value_shorter: "match_value s = Some (v, r) \<Longrightarrow> length r < length s"
  by (auto simp: match_value_def Let_def split: list.splits if_splits)

lemma match_pair_shorter: "match_pair s = Some (k, v, r) \<Longrightarrow> length r < length s"
proof -
  assume m: "match_pair s = Some (k, v, r)"
  then obtain c t e r2 where s: "s = c # t"
    and d: "dropWhile re_space (drop 1 (drop (length (takeWhile (\<lambda>x. x \<noteq> quote_char) t)) t)) = e # r2"
    and v: "match_value (dropWhile re_space r2) = Some (v, r)"
    by (auto simp: match_pair_def Let_def split: list.splits if_splits)
  have "length r < length (dropWhile re_space r2)" by (rule match_value_shorter [OF v])
  also have "\<dots> \<le> length r2" by (rule length_dropWhile_le)
  also have "\<dots> < length (e # r2)" by simp
  also have "\<dots> \<le> length (drop 1 (drop (length (takeWhile (\<lambda>x. x \<noteq> quote_char) t)) t))"
    unfolding d [symmetric] by (rule length_dropWhile_le)
  also have "\<dots> \<le> length t" by simp
  finally show ?thesis by (simp add: s)
qed

text \<open>\<open>FindAllStringSubmatch\<close>: the matches from left to right, each after the end of the previous one.\<close>

function find_all :: "bytes \<Rightarrow> (bytes \<times> bytes) list" where
  "find_all s =
     (case s of
        [] \<Rightarrow> []
      | c # t \<Rightarrow>
          (case match_pair s of
             None \<Rightarrow> find_all t
           | Some (k, v, r) \<Rightarrow> (k, v) # find_all r))"
  by pat_completeness auto
termination
  by (relation "measure length") (auto dest: match_pair_shorter)

declare find_all.simps [simp del]

definition trim_quotes :: "bytes \<Rightarrow> bytes" where
  "trim_quotes s = rev (dropWhile (\<lambda>c. c = quote_char) (rev (dropWhile (\<lambda>c. c = quote_char) s)))"

text \<open>\<open>maxIoregOutput\<close> is the limit written in the code.\<close>

definition maxIoregOutput :: nat where
  "maxIoregOutput = 256 * 1024"

definition macMergeBatteryMetrics :: "(bytes \<Rightarrow> bytes \<Rightarrow> bool) \<Rightarrow> bytes option \<Rightarrow> HardwareMetrics \<Rightarrow> HardwareMetrics" where
  "macMergeBatteryMetrics equalFoldU out m =
     (let unavailable = m\<lparr>Battery := emptyBattery\<lparr>batStatus := ''unavailable''\<rparr>\<rparr>;
          values = map (\<lambda>(k, v). (k, trim_quotes v)) (find_all (the out));
          val = (\<lambda>key. case map_of (rev values) key of None \<Rightarrow> [] | Some v \<Rightarrow> v);
          number = (\<lambda>key. fst (ParseFloat (val key)));
          yes = (\<lambda>key. EqualFold equalFoldU (val key) ''Yes'' \<or> val key = ''1'');
          status = (if yes ''IsCharging'' then ''charging'' else if yes ''ExternalConnected'' then ''ac-connected'' else ''discharging'');
          cycles = (case Atoi (val ''CycleCount'') of Some n \<Rightarrow> if 0 \<le> n \<and> n \<le> 1000000 then Some n else None | None \<Rightarrow> None)
      in if out = None \<or> the out = [] \<or> length (the out) > maxIoregOutput \<or> values = [] then unavailable
         else m\<lparr>Battery := makeBatteryMetrics True status (number ''DesignCapacity'') (number ''MaxCapacity'') ''mAh'' cycles\<rparr>)"

subsection \<open>Platforms without an implementation\<close>

definition otherMergeBatteryMetrics :: "HardwareMetrics \<Rightarrow> HardwareMetrics" where
  "otherMergeBatteryMetrics m = m\<lparr>Battery := emptyBattery\<lparr>batStatus := ''unsupported''\<rparr>\<rparr>"

definition stubMergeDriverInfo :: "HardwareMetrics \<Rightarrow> HardwareMetrics" where
  "stubMergeDriverInfo m = m\<lparr>GPUDriverStatus := ''unsupported'', GPUDriverSource := ''platform stub''\<rparr>"

definition stubMergePlatformMetrics :: "HardwareMetrics \<Rightarrow> HardwareMetrics" where
  "stubMergePlatformMetrics m = m"

subsection \<open>Numbers\<close>

lemma int64_mod [simp]: "int64 x mod 2 ^ 64 = x mod 2 ^ 64"
  by (simp add: int64_def mod_diff_left_eq)

lemma int64_cong: "x mod 2 ^ 64 = y mod 2 ^ 64 \<Longrightarrow> int64 x = int64 y"
  unfolding int64_def by (metis mod_add_left_eq)

lemma int64_step: "int64 (int64 n * 10 + d) = int64 (10 * n + d)"
proof (rule int64_cong)
  have "(int64 n * 10 + d) mod 2 ^ 64 = ((int64 n mod 2 ^ 64) * 10 + d) mod 2 ^ 64"
    by (metis mod_add_left_eq mod_mult_left_eq)
  also have "\<dots> = (n * 10 + d) mod 2 ^ 64"
    unfolding int64_mod by (metis mod_add_left_eq mod_mult_left_eq)
  finally show "(int64 n * 10 + d) mod 2 ^ 64 = (10 * n + d) mod 2 ^ 64" by (simp add: mult.commute)
qed

lemma positive_loop_value:
  "positive_loop s (int64 n) = (if list_all is_digit s then int64 (foldl (\<lambda>n c. 10 * n + digit_int c) n s) else 0)"
  by (induction s arbitrary: n) (simp_all add: int64_step)

text \<open>The number parser of the macOS back end gives the value of a decimal numeral, wrapped to 64 bits, and 0 for every
  other text: a count below \<open>2 ^ 63\<close> is read as it is written, and a larger numeral can come out negative.\<close>

theorem mac_count:
  "parsePositiveInt s = (if list_all is_digit s then int64 (digits_val s) else 0) \<and>
   parsePositiveInt (FormatInt (2 ^ 63)) = - (2 ^ 63)"
proof -
  have p: "parsePositiveInt t = (if list_all is_digit t then int64 (digits_val t) else 0)" for t
    using positive_loop_value [of t 0] by (simp add: parsePositiveInt_def digits_val_def int64_def)
  have "FormatInt (2 ^ 63) = digits_of (2 ^ 63)" by (simp add: FormatInt_def)
  moreover have "int64 (2 ^ 63) = - (2 ^ 63)" by (simp add: int64_def)
  ultimately have "parsePositiveInt (FormatInt (2 ^ 63)) = - (2 ^ 63)" using p digits_of_digits by simp
  with p show ?thesis by blast
qed

subsection \<open>Properties in the format of ioreg\<close>

definition ioreg_line :: "bytes \<times> bytes \<Rightarrow> bytes" where
  "ioreg_line kv = quote_char # fst kv @ quote_char # '' = '' @ snd kv @ [CHR 0x0A]"

lemma takeWhile_quote: "quote_char \<notin> set k \<Longrightarrow> takeWhile (\<lambda>x. x \<noteq> quote_char) (k @ quote_char # t) = k"
  by (induction k) auto

lemma match_ioreg_line:
  assumes "k \<noteq> []" "quote_char \<notin> set k" "v \<noteq> []" "list_all is_digit v"
  shows "match_pair (ioreg_line (k, v) @ rest) = Some (k, v, CHR 0x0A # rest)"
proof -
  obtain d w where v: "v = d # w" using assms(3) by (cases v) auto
  with assms have d: "is_digit d" by simp
  then have nq: "d \<noteq> quote_char" "\<not> re_space d" by (auto simp: is_digit_def re_space_def)
  have all: "\<forall>x \<in> set v. is_digit x" using assms(4) by (simp add: list_all_iff)
  have "takeWhile is_digit (v @ CHR 0x0A # rest) = v"
    using all by (subst takeWhile_append2) (auto simp: is_digit_def)
  then have mv: "match_value (v @ CHR 0x0A # rest) = Some (v, CHR 0x0A # rest)"
    using nq by (simp add: match_value_def v Let_def)
  have sp: "dropWhile re_space (v @ x) = v @ x" for x using nq by (simp add: v)
  have "dropWhile re_space ('' = '' @ v @ CHR 0x0A # rest) = CHR ''='' # CHR '' '' # v @ CHR 0x0A # rest"
    by (simp add: re_space_def)
  moreover have "dropWhile re_space (CHR '' '' # v @ CHR 0x0A # rest) = v @ CHR 0x0A # rest"
    by (simp add: sp re_space_def)
  ultimately show ?thesis
    using assms(1,2) mv by (simp add: match_pair_def ioreg_line_def takeWhile_quote Let_def)
qed

lemma find_all_newline: "find_all (CHR 0x0A # s) = find_all s"
  by (subst find_all.simps) (simp add: match_pair_def)

text \<open>The battery reader finds every numeric property that \<open>ioreg\<close> prints, with its name and value, in order.\<close>

theorem ioreg_roundtrip:
  assumes "list_all (\<lambda>(k, v). k \<noteq> [] \<and> quote_char \<notin> set k \<and> v \<noteq> [] \<and> list_all is_digit v) kvs"
  shows "find_all (concat (map ioreg_line kvs)) = kvs"
  using assms
proof (induction kvs)
  case Nil
  show ?case by (subst find_all.simps) simp
next
  case (Cons kv kvs)
  obtain k v where kv: "kv = (k, v)" by fastforce
  let ?rest = "concat (map ioreg_line kvs)"
  have m: "match_pair (ioreg_line kv @ ?rest) = Some (k, v, CHR 0x0A # ?rest)"
    using Cons.prems unfolding kv by (intro match_ioreg_line) auto
  have "ioreg_line kv @ ?rest = quote_char # k @ quote_char # '' = '' @ v @ CHR 0x0A # ?rest" by (simp add: ioreg_line_def kv)
  then have "find_all (ioreg_line kv @ ?rest) = (k, v) # find_all (CHR 0x0A # ?rest)"
    using m by (subst find_all.simps) simp
  with Cons show ?case by (simp add: find_all_newline kv)
qed

theorem ioreg_roundtrip_witness:
  "find_all (concat (map ioreg_line [(''MaxCapacity'', ''4200''), (''CycleCount'', ''17'')])) = [(''MaxCapacity'', ''4200''), (''CycleCount'', ''17'')]"
  by (rule ioreg_roundtrip) (simp add: is_digit_def)

end
