(* ===== verification/Spec2Isabelle.thy ===== *)
theory Spec2Isabelle
  imports Client HealthyCore Layout LocalAudit Storage WindowsTelemetry WindowsIdentity MacTelemetry
begin

text \<open>
  A verification development for HWControl: the bridge service (\<open>bridge_service/src\<close>), its assessment package
  (\<open>bridge_service/healthycore\<close>), the security guardian (\<open>bridge_service/security_guardian\<close>) and the local audit tool
  (\<open>security/local-audit\<close>), all written in Go.

  \<^bold>\<open>The program.\<close>  The bridge is a local daemon that reads hardware telemetry and, where a back end was validated, sets fan duty
  cycles and power modes.  A client sends one JSON object per line over a Unix socket or a loopback port; every command carries a
  time stamp, a nonce and an HMAC.  A connection decodes a line strictly, authenticates and validates it, rejects replays and fast
  repetition, and then answers a read-only request or executes a hardware command behind the thermal safety gate.  Beside that run an
  integrity monitor, which closes the service when a watched file changes, and a canary service, which writes a panic file that
  disables control; the guardian is a second process that watches the same canary.  The audit tool is a stand-alone program.

  \<^bold>\<open>Conventions.\<close>  A Go string or byte slice is a list of characters; \<open>float64\<close> is IEEE binary64 with its special values; fixed-width
  integers are words, or integers with the wrap-around written out; an error is an optional text, a fallible result a sum.  What the
  environment decides is an input of a definition: clocks, file contents and the outcome of system calls, process output, random
  bytes, events of channels.  Goroutines are step relations or functions of every possible sequence of events.  Three parameters
  stand for Unicode tables of the standard library on non-ASCII text (\<open>lowerU\<close>, \<open>equalFoldU\<close>, and \<open>quoteGo\<close> for \<open>%q\<close>); \<open>wild\<close> is the
  value of a float-to-integer conversion that Go leaves open.  No theorem assumes anything of them beyond its stated hypotheses.

  \<^bold>\<open>Library.\<close>
  \<^item> \<open>Prelude\<close>: bytes, results, errors and generic list lemmas, with the rule collection \<open>err_simps\<close>.
  \<^item> \<open>GoStrings\<close>, \<open>Float64\<close>, \<open>FloatText\<close>, \<open>GoTime\<close>, \<open>TimeParse\<close>, \<open>Paths\<close>, \<open>WinPaths\<close>, \<open>Files\<close>, \<open>Sha256\<close>, \<open>Unquote\<close>: the parts of \<open>strings\<close>, \<open>strconv\<close>,
    \<open>math\<close>, \<open>time\<close>, \<open>path/filepath\<close>, \<open>os\<close>, \<open>crypto\<close> that the program uses; SHA-256 and HMAC are computed,
    a time that was formatted is parsed as the same instant, and paths follow the rules of Unix or of Windows by \<open>runtime.GOOS\<close>.
  \<^item> \<open>Json\<close>, \<open>JsonText\<close>, \<open>Unmarshal\<close>: \<open>encoding/json\<close>; a written document is read back as the same value, with or without indentation.

  \<^bold>\<open>Commands.\<close>
  \<^item> \<open>Protocol\<close>, \<open>Commands\<close>, \<open>Replay\<close> (\<open>main.go\<close>): payloads, signatures, strict decoding, \<open>validateCommand\<close>, \<open>consumeCommandNonce\<close>.  A tag
    covers every field of a command; the nonce cache is bounded and refuses a nonce for its window.  The locale \<open>nonce_guard\<close>
    states what a connection relies on; \<open>guard_refinement\<close> relates the cache to the log of all accepted nonces.
  \<^item> \<open>Hardware\<close>, \<open>Safety\<close>, \<open>Execute\<close> (\<open>main.go\<close>): telemetry records, the gate and its telemetry, \<open>executeHardwareCommand\<close> for an
    arbitrary platform.
  \<^item> \<open>FanControl\<close>, \<open>FanLinux\<close> (\<open>fan_control*.go\<close>): the locale \<open>fan_backend\<close> is the contract of a back end; it is interpreted on the
    Linux back end and on the back ends that refuse.
  \<^item> \<open>PowerMode\<close>, \<open>PowerModeWindows\<close> (\<open>power_mode*.go\<close>): both in the state monad over an arbitrary daemon or system interface; success
    means read back, and a rollback touches only what was written.
  \<^item> \<open>Audio\<close>, \<open>AudioProbe\<close>, \<open>GameMode\<close> (\<open>main.go\<close>, \<open>game_mode.go\<close>): requests for the audio studio, the probe process and its session,
    recognised games.

  \<^bold>\<open>Telemetry and reports.\<close>
  \<^item> \<open>Metrics\<close> (\<open>collectMetrics\<close> on Linux), \<open>Storage\<close> (\<open>storage.go\<close>, \<open>storage_health.go\<close>), \<open>SensorHistory\<close> with the age of a sample.  Reported volumes are
    distinct, their rates finite and their health values in range.
  \<^item> \<open>WindowsTelemetry\<close>, \<open>WindowsIdentity\<close>, \<open>MacTelemetry\<close>: the Go side of the Windows and macOS back ends and the stubs.
  \<^item> \<open>Health\<close>, \<open>HealthyCore\<close>, \<open>Snapshots\<close>: the health evaluation, the assessment against a reference without overflow, and the reports
    with their JSON form.
  \<^item> \<open>Redaction\<close> (\<open>redaction.go\<close>): regular expressions with leftmost-first matching, and the log file.

  \<^bold>\<open>The service.\<close>
  \<^item> \<open>Connection\<close>, \<open>Bridge\<close> (\<open>main.go\<close>, \<open>bridge_runtime.go\<close>): one connection, and the accept loop with any number of connections as the
    step relation \<open>bridge_step\<close>; its invariant, the absence of replays and the safety of every write hold in all reachable states.
  \<^item> \<open>Client\<close>: what a client relies on: when exactly a command is carried out, and what an answer with success means.
  \<^item> \<open>KeyFile\<close>, \<open>Listener\<close>, \<open>Startup\<close>: secret, endpoint and the order of the start; \<open>ServiceWindows\<close> (\<open>service_windows.go\<close> of both
    programs): the handlers of the service manager, with the locale \<open>status_reporter\<close> for what both report, and the two mains.
  \<^item> \<open>Inventory\<close>, \<open>Verify\<close>, \<open>VerifyKey\<close>, \<open>Monitor\<close>: the installation baseline with its pool of goroutines, its signed document, and
    the runtime monitor.
  \<^item> \<open>FetchStatus\<close>, \<open>Guardian\<close>, \<open>CanaryDigest\<close>: canary, panic file and guardian; \<open>Layout\<close>: where all programs keep their
    files on Windows, and which of them they share.
  \<^item> \<open>LocalAudit\<close> (\<open>security/local-audit/main.go\<close>): what the audit accepts, and its exit status.

  This theory holds the properties that span components.

  \<^bold>\<open>Bounds and termination.\<close>  Every definition is total.  Loops over data are structural or have a measure on what is left of it; there
  is no fuel.  The worker pool is a relation, and the theorem about it says that every run ends and that no state is stuck before the
  end.  Limits of the program (64 connections, 64 KiB a request, 4096 nonces, 300 samples, 1 MiB of helper output) are its own constants.

  \<^bold>\<open>Not modelled.\<close>  The PowerShell scripts and the programs whose output is an input; the Windows form of the relative paths in the
  inventory, of path lists and of the audit tool; what the Go library does after cleaning a Windows path, other than by its
  documentation; \<open>serviceUptimeSeconds\<close> and the record \<open>windowsHardwareIdentity\<close>, which nothing uses; the text of log messages other
  than through redaction; data races on the file system between a check and a use, beyond what distinct inputs for successive calls
  express.  The dashboard, the native cores, the installers and the scripts are in other languages.
\<close>

subsection \<open>Properties across components\<close>

text \<open>C16: an integrity violation closes the service: once a tick of the running monitor found a watched file missing, replaced or
  changed (or a due installation check failing), then however the monitor goes on, every later request on every connection is
  answered with a refusal at most: nothing is executed, nothing is written, the shared state stays as it is, and the
  connection is closed.\<close>

theorem violation_fails_closed:
  fixes rt pl secret rq sh cn
  assumes "newBridgeIntegrityMonitor env = Inr m0" and "m = run_monitor evs (start_monitor now m0)" and "bmRunning m"
    and "\<not> intact tick m" and "rqHealthy renv = bridgeIntegrityHealthy (run_monitor (MTick tick # later) m)"
  defines "oc \<equiv> handle_request rt pl secret renv rq sh cn"
  shows "ocRun oc = None \<and> ocWrites oc = [] \<and> \<not> ocContinue oc \<and> ocShared oc = sh \<and> ocConn oc = cn"
proof -
  have "monitor_ok m" using monitor_ok_run monitor_ok_start assms(1,2) by blast
  from violation_final [OF this assms(3,4)] assms(5) have "\<not> rqHealthy renv" by (simp add: bridgeIntegrityHealthy_def)
  then show ?thesis
    by (cases rq) (simp_all add: oc_def handle_request_def handle_line_def reject_def Let_def)
qed

definition violatedReq :: req_env where
  "violatedReq = (demoReq None)\<lparr>rqHealthy := False\<rparr>"

theorem violation_fails_closed_witness:
  "ocWrites (handle_request demoRt demoLinux ''k'' violatedReq (RqLine fan_line) demoShared new_conn) = []
    \<and> \<not> ocContinue (handle_request demoRt demoLinux ''k'' violatedReq (RqLine fan_line) demoShared new_conn)"
proof -
  let ?m = "start_monitor 0 demoMonitor"
  have s: "?m = run_monitor [] ?m" by (simp add: run_monitor_def)
  have r: "bmRunning ?m" by (simp add: start_monitor_def)
  have v: "\<not> intact missing_tick ?m"
    by (simp add: intact_def missing_tick_def start_monitor_def demoMonitor_def integrityFileDigest_def)
  have "monitor_ok ?m" using monitor_ok_start [OF demoMonitor_started] .
  from violation_final [OF this r v] have h: "rqHealthy violatedReq = bridgeIntegrityHealthy (run_monitor [MTick missing_tick] ?m)"
    by (simp add: bridgeIntegrityHealthy_def violatedReq_def)
  from violation_fails_closed [OF demoMonitor_started s r v h] show ?thesis by blast
qed

end
